theory Spec2Isabelle
  imports Complex_Main
begin

section \<open>The View of the streaming engine: data model\<close>

text \<open>
  The development embeds the class \<open>View\<close> (the top-level coordinator of the engine):
  its layer collection, its frame-requester registry, its resize and picking entry
  points and the conversions between view and normalised coordinates.

  JavaScript objects are shared and mutated in place, so layers, sources and views
  live in explicit stores addressed by references. Everything a method does to an
  external collaborator (the console, the render loop, a source, the event
  listeners) is appended to the \<open>trace\<close> of the view whose method did it.
\<close>

type_synonym ref = nat

subsection \<open>Numbers and vectors\<close>

text \<open>Pixel dimensions are integers; coordinates are exact rationals.\<close>

type_synonym vector2 = "rat \<times> rat"

type_synonym vector3 = "real \<times> real \<times> real"

text \<open>\<open>THREE.Vector3.length()\<close>: the Euclidean distance from the origin.\<close>

fun vlength :: "vector3 \<Rightarrow> real" where
  "vlength (x, y, z) = sqrt (x * x + y * y + z * z)"

subsection \<open>Effects on the collaborators\<close>

datatype effect =
    ConsoleWarn string
  | ConsoleError string
  | ConsoleInfo string
  | ScheduleViewUpdate bool
  | OnLayerRemoved ref "string option"
  | LayerDelete ref bool
  | DispatchEvent string "string option"
  | RegisterLabelLayer ref
  | CreateLabelLayer ref
  | Setup3DTiles ref
  | RemoveResizeListener
  | ControlsDispose
  | SceneCleanup
  | Invoke nat

datatype error = Error string | TypeError string | RangeError string

subsection \<open>Objects\<close>

record change_source =
  srcId :: nat
  isTileMesh :: bool
  isCamera :: bool

record camera =
  width :: int
  height :: int

record depth_buffer =
  byteLength :: int
  needsUpdate :: bool

record extent =
  extentCrs :: string
  bounds :: nat

record source =
  uid :: nat
  sourceCrs :: "string option"
  sourceExtent :: "extent option"

datatype promise = Pending | Resolved | Rejected error

text \<open>
  A layer. \<open>attachedLayers\<close> is the empty list where the property is undefined
  (\<open>getLayers\<close> treats both alike); \<open>hasUpdate\<close> and \<open>hasPreUpdate\<close> say whether
  \<open>typeof layer.update\<close> and \<open>typeof layer.preUpdate\<close> are \<open>'function'\<close>;
  \<open>level0Nodes\<close> holds \<open>None\<close> for a falsy entry.
\<close>

record layer =
  layerId :: string
  isLayer :: bool
  isGeometryLayer :: bool
  isLabelLayer :: bool
  isColorLayer :: bool
  isTiledGeometryLayer :: bool
  isAtmosphere :: bool
  isOGC3DTilesLayer :: bool
  labelEnabled :: bool
  addLabelLayer :: bool
  hasUpdate :: bool
  hasPreUpdate :: bool
  sequence :: int
  layerSource :: ref
  crs :: "string option"
  layerExtent :: "extent option"
  tileMatrixSets :: "string list option"
  parent :: "ref option"
  attachedLayers :: "ref list"
  object3d :: "ref option"
  level0Nodes :: "nat option list"
  whenReady :: promise

text \<open>
  A view: the private fields \<open>#layers\<close> and \<open>#fullSizeDepthBuffer\<close>, the camera, the
  state of its main loop and graphics engine that the methods read or write, the
  frame-requester registry (an object keyed by attach point, kept in insertion
  order) with its list of delayed removals, and the trace. Of the listeners of
  its events, \<open>labelListeners\<close> are the closures \<open>removeLabelLayer\<close> that
  \<open>_preprocessLayer\<close> registers for the event \<open>layer-removed\<close>, each with the layer
  it watches and the id of the label layer it removes; \<open>listeners\<close> are all the
  others, which belong to the callers.
\<close>

record view =
  layers :: "ref list"
  fullSizeDepthBuffer :: depth_buffer
  viewCamera :: camera
  cameraSource :: change_source
  camera3D :: change_source
  referenceCrs :: string
  scene :: ref
  tileLayer :: "ref option"
  clientWidth :: int
  clientHeight :: int
  gfxWidth :: int
  gfxHeight :: int
  xrIsPresenting :: bool
  commandsWaitingExecutionCount :: nat
  renderingPaused :: bool
  changeSources :: "change_source set"
  frameRequesters :: "(string \<times> nat list) list"
  delayedFrameRequesterRemoval :: "(string \<times> nat) list"
  hasControls :: bool
  controlsHaveDispose :: bool
  listeners :: "(string \<times> nat list) list option"
  labelListeners :: "(ref \<times> string) list"
  trace :: "effect list"

text \<open>
  The world: the stores, the parent of each scene-graph object, and the
  module-level registry \<open>viewers\<close> of the views that are alive.
\<close>

record world =
  layerHeap :: "ref \<Rightarrow> layer"
  sourceHeap :: "ref \<Rightarrow> source"
  viewHeap :: "ref \<Rightarrow> view"
  object3dParent :: "ref \<Rightarrow> ref option"
  viewers :: "ref list"

section \<open>Coordinates\<close>

text \<open>
  \<open>viewToNormalizedCoords\<close> and \<open>normalizedToViewCoords\<close>. Both write the shared
  vector \<open>_eventCoords\<close>, \<open>x\<close> first; each component of the result depends on the
  same component of the argument only, so the result is the same when the
  argument is that shared vector.
\<close>

definition viewToNormalizedCoords :: "camera \<Rightarrow> vector2 \<Rightarrow> vector2" where
  "viewToNormalizedCoords cam viewCoords =
     (2 * (fst viewCoords / of_int (width cam)) - 1,
      - 2 * (snd viewCoords / of_int (height cam)) + 1)"

definition normalizedToViewCoords :: "camera \<Rightarrow> vector2 \<Rightarrow> vector2" where
  "normalizedToViewCoords cam ndcCoords =
     ((fst ndcCoords + 1) * (5 / 10) * of_int (width cam),
      (snd ndcCoords - 1) * (- (5 / 10)) * of_int (height cam))"

section \<open>Change notification and resize\<close>

text \<open>
  Modelled from the spec: \<open>MainLoop.scheduleViewUpdate\<close> is not part of the
  sources at hand; the spec says that \<open>notifyChange\<close> "asks MainLoop to schedule
  an update", with the flag telling whether a redraw is requested. The request is
  recorded in the trace.
\<close>

definition scheduleViewUpdate :: "bool \<Rightarrow> view \<Rightarrow> view" where
  "scheduleViewUpdate needsRedraw v = v\<lparr>trace := trace v @ [ScheduleViewUpdate needsRedraw]\<rparr>"

definition notifyChange :: "change_source option \<Rightarrow> bool \<Rightarrow> view \<Rightarrow> view" where
  "notifyChange changeSource needsRedraw v =
     scheduleViewUpdate needsRedraw
       (case changeSource of
          None \<Rightarrow> v
        | Some c \<Rightarrow>
            (let v1 = v\<lparr>changeSources := insert c (changeSources v)\<rparr>
             in if \<not> xrIsPresenting v1 \<and> (isTileMesh c \<or> isCamera c)
                then v1\<lparr>fullSizeDepthBuffer := (fullSizeDepthBuffer v1)\<lparr>needsUpdate := True\<rparr>\<rparr>
                else v1))"

text \<open>
  Modelled from the spec: \<open>c3DEngine.onWindowResize\<close> and \<open>Camera.resize\<close> are not
  part of the sources at hand; the spec lists \<open>onWindowResize(width, height)\<close> in
  the contract of the renderer. Each records the dimensions it is given.
\<close>

definition onWindowResize :: "int \<Rightarrow> int \<Rightarrow> view \<Rightarrow> view" where
  "onWindowResize w h v = v\<lparr>gfxWidth := w, gfxHeight := h\<rparr>"

definition cameraResize :: "int \<Rightarrow> int \<Rightarrow> view \<Rightarrow> view" where
  "cameraResize w h v = v\<lparr>viewCamera := (viewCamera v)\<lparr>width := w, height := h\<rparr>\<rparr>"

text \<open>
  \<open>resize(width, height)\<close>; an argument left out is \<open>None\<close>. The first thing a
  resize that is not skipped does is \<open>new Uint8Array(4 * width * height)\<close>, which
  throws a \<open>RangeError\<close> when the length is negative or beyond what the engine
  allocates; that bound, \<open>maxByteLength\<close>, is a parameter, and a length is
  \<open>allocatable\<close> within it. Nothing is written
  before the allocation. A fresh \<open>Uint8Array\<close> has no \<open>needsUpdate\<close> property,
  which reads as false. The warning is recorded without the two numbers the
  source interpolates into it.
\<close>

definition isNegative :: "int option \<Rightarrow> bool" where
  "isNegative a = (case a of None \<Rightarrow> False | Some n \<Rightarrow> n < 0)"

definition orDefault :: "int option \<Rightarrow> int \<Rightarrow> int" where
  "orDefault a d = (case a of None \<Rightarrow> d | Some n \<Rightarrow> n)"

definition allocatable :: "int \<Rightarrow> int \<Rightarrow> bool" where
  "allocatable maxByteLength n \<longleftrightarrow> 0 \<le> n \<and> n \<le> maxByteLength"

definition resize :: "int \<Rightarrow> int option \<Rightarrow> int option \<Rightarrow> view \<Rightarrow> error + view" where
  "resize maxByteLength width0 height0 v =
     (if isNegative width0 \<or> isNegative height0
      then Inr (v\<lparr>trace := trace v @
             [ConsoleWarn ''Trying to resize the View with negative height or width. Skipping resize.'']\<rparr>)
      else
        (let w = orDefault width0 (clientWidth v);
             h = orDefault height0 (clientHeight v)
         in if \<not> allocatable maxByteLength (4 * w * h)
            then Inl (RangeError ''Invalid typed array length'')
            else
              (let v1 = v\<lparr>fullSizeDepthBuffer := \<lparr>byteLength = 4 * w * h, needsUpdate = False\<rparr>\<rparr>;
                   v2 = onWindowResize w h v1
               in if w \<noteq> 0 \<and> h \<noteq> 0
                  then Inr (notifyChange (Some (camera3D v2)) True (cameraResize w h v2))
                  else Inr v2)))"

text \<open>The calls of \<open>notifyChange\<close> a trace records, and those that ask for a redraw.\<close>

definition notifyChangeCalls :: "effect list \<Rightarrow> nat" where
  "notifyChangeCalls t = length (filter (\<lambda>e. case e of ScheduleViewUpdate b \<Rightarrow> True | _ \<Rightarrow> False) t)"

definition redrawRequests :: "effect list \<Rightarrow> nat" where
  "redrawRequests t = length (filter (\<lambda>e. case e of ScheduleViewUpdate b \<Rightarrow> b | _ \<Rightarrow> False) t)"

section \<open>Picking\<close>

text \<open>
  \<open>getPickingPositionFromDepth(mouse, target)\<close>. Reading the depth buffer back and
  unprojecting the depth through the camera belong to the renderer; \<open>unproject\<close>
  stands for both: it gives the world position computed for a pixel. The method
  \<open>readDepthBuffer\<close> restores every property of the tile layer it changes. The
  result \<open>None\<close> is \<open>undefined\<close>.
\<close>

definition noTileLayerNodes :: "world \<Rightarrow> ref \<Rightarrow> bool" where
  "noTileLayerNodes w v =
     (case tileLayer (viewHeap w v) of
        None \<Rightarrow> True
      | Some t \<Rightarrow> (case level0Nodes (layerHeap w t) of [] \<Rightarrow> True | n # ns \<Rightarrow> n = None))"

definition pickedPixel :: "view \<Rightarrow> (real \<times> real) option \<Rightarrow> int \<times> int" where
  "pickedPixel V mouse =
     (let m = (case mouse of
                 None \<Rightarrow> (real_of_int (gfxWidth V) * (5 / 10), real_of_int (gfxHeight V) * (5 / 10))
               | Some p \<Rightarrow> p)
      in (\<lfloor>fst m\<rfloor>, \<lfloor>snd m\<rfloor>))"

definition getPickingPositionFromDepth ::
  "(int \<times> int \<Rightarrow> vector3) \<Rightarrow> (real \<times> real) option \<Rightarrow> ref \<Rightarrow> world \<Rightarrow> vector3 option \<times> world" where
  "getPickingPositionFromDepth unproject mouse v w =
     (if noTileLayerNodes w v then (None, w)
      else
        (let V = viewHeap w v;
             viewPaused = (commandsWaitingExecutionCount V = 0 \<and> renderingPaused V);
             V1 = (if viewPaused \<and> needsUpdate (fullSizeDepthBuffer V)
                   then V\<lparr>fullSizeDepthBuffer := (fullSizeDepthBuffer V)\<lparr>needsUpdate := False\<rparr>\<rparr>
                   else V);
             target = unproject (pickedPixel V mouse);
             w1 = w\<lparr>viewHeap := (viewHeap w)(v := V1)\<rparr>
         in if vlength target > 10000000 then (None, w1) else (Some target, w1)))"

section \<open>The layers of a view\<close>

subsection \<open>Array helpers\<close>

text \<open>\<open>Array.prototype.findIndex\<close> and \<open>indexOf\<close>: the first index, or \<open>-1\<close>.\<close>

fun findIndex :: "('a \<Rightarrow> bool) \<Rightarrow> 'a list \<Rightarrow> int" where
  "findIndex p [] = - 1"
| "findIndex p (x # xs) =
     (if p x then 0 else (let i = findIndex p xs in if i < 0 then - 1 else i + 1))"

definition indexOf :: "'a list \<Rightarrow> 'a \<Rightarrow> int" where
  "indexOf xs x = findIndex (\<lambda>y. y = x) xs"

text \<open>
  \<open>Array.prototype.splice(start, 1)\<close>: a negative \<open>start\<close> counts from the end of
  the array, so \<open>splice(-1, 1)\<close> removes the last element.
\<close>

definition splice1 :: "int \<Rightarrow> 'a list \<Rightarrow> 'a list" where
  "splice1 start xs =
     (let len = int (length xs);
          s = (if start < 0 then max (len + start) 0 else min start len)
      in take (nat s) xs @ drop (Suc (nat s)) xs)"

subsection \<open>Reading the layers\<close>

text \<open>
  \<open>getLayers(filter)\<close>: each root layer, followed by the layers attached to it. The
  filters of this class look at the layer only.
\<close>

fun getLayersFrom :: "(ref \<Rightarrow> layer) \<Rightarrow> (layer \<Rightarrow> bool) \<Rightarrow> ref list \<Rightarrow> ref list" where
  "getLayersFrom H f [] = []"
| "getLayersFrom H f (r # rs) =
     (if f (H r) then [r] else []) @ filter (\<lambda>a. f (H a)) (attachedLayers (H r))
       @ getLayersFrom H f rs"

definition getLayers :: "world \<Rightarrow> ref \<Rightarrow> (layer \<Rightarrow> bool) \<Rightarrow> ref list" where
  "getLayers w v f = getLayersFrom (layerHeap w) f (layers (viewHeap w v))"

definition allLayers :: "world \<Rightarrow> ref \<Rightarrow> ref list" where
  "allLayers w v = getLayers w v (\<lambda>l. True)"

definition getLayerById :: "world \<Rightarrow> ref \<Rightarrow> string \<Rightarrow> ref option" where
  "getLayerById w v X =
     (case getLayers w v (\<lambda>l. layerId l = X) of [] \<Rightarrow> None | l # ls \<Rightarrow> Some l)"

subsection \<open>The methods of a layer\<close>

text \<open>
  Modelled from the spec: the class \<open>Layer\<close> is not part of the sources at hand.
  The spec says that a layer "exposes attach/detach for nested layers", that it has
  "zero-or-more attached child Layers", that \<open>removeLayer\<close> "detaches from parent
  or root set", that \<open>delete\<close> releases what the layer holds, and that a
  configuration error is "surfaced synchronously as a rejected readiness promise".
  \<open>attach\<close> appends the layer to the attached layers of the parent and records the
  parent in it; \<open>detach\<close> takes the layer (identified by its id, as everywhere in
  the view) out of the attached layers, clears its parent and tells whether a
  layer was taken out; \<open>delete\<close> is recorded in the trace; \<open>_reject\<close> is the rejecting
  function of the readiness promise: it rejects the promise if it is still
  pending, and like every such function it returns nothing.
\<close>

definition setLayer :: "ref \<Rightarrow> (layer \<Rightarrow> layer) \<Rightarrow> world \<Rightarrow> world" where
  "setLayer l g w = w\<lparr>layerHeap := (layerHeap w)(l := g (layerHeap w l))\<rparr>"

definition emit :: "ref \<Rightarrow> effect list \<Rightarrow> world \<Rightarrow> world" where
  "emit v es w = w\<lparr>viewHeap := (viewHeap w)(v := (viewHeap w v)\<lparr>trace := trace (viewHeap w v) @ es\<rparr>)\<rparr>"

definition attach :: "ref \<Rightarrow> ref \<Rightarrow> world \<Rightarrow> world" where
  "attach p l w =
     setLayer l (\<lambda>x. x\<lparr>parent := Some p\<rparr>)
       (setLayer p (\<lambda>x. x\<lparr>attachedLayers := attachedLayers x @ [l]\<rparr>) w)"

definition detach :: "ref \<Rightarrow> ref \<Rightarrow> world \<Rightarrow> bool \<times> world" where
  "detach p l w =
     (let X = layerId (layerHeap w l);
          old = attachedLayers (layerHeap w p);
          new = filter (\<lambda>a. layerId (layerHeap w a) \<noteq> X) old
      in (length new < length old,
          setLayer l (\<lambda>x. x\<lparr>parent := None\<rparr>)
            (setLayer p (\<lambda>x. x\<lparr>attachedLayers := new\<rparr>) w)))"

definition layerDelete :: "ref \<Rightarrow> ref \<Rightarrow> bool \<Rightarrow> world \<Rightarrow> world" where
  "layerDelete v l clearCache w = emit v [LayerDelete l clearCache] w"

definition reject :: "ref \<Rightarrow> error \<Rightarrow> world \<Rightarrow> world" where
  "reject l e w =
     setLayer l (\<lambda>x. if whenReady x = Pending then x\<lparr>whenReady := Rejected e\<rparr> else x) w"

subsection \<open>Adding a layer\<close>

text \<open>An undefined or empty string is falsy.\<close>

definition falsy :: "string option \<Rightarrow> bool" where
  "falsy c = (c = None \<or> c = Some [])"

text \<open>
  \<open>_preprocessLayer(view, layer, parentLayer)\<close>, in the order of the source: the
  extent inherited from the parent, the CRS, the label layer, the 3D Tiles setup.
  Reading \<open>parentLayer.extent.crs\<close> of a parent without extent throws a
  \<open>TypeError\<close>. The label renderer, the construction of the label layer (which is
  added to the view later, once the layer is ready) and \<open>_setup\<close> are recorded in
  the trace. For a layer that gets a label layer, the view registers the listener
  \<open>removeLabelLayer\<close> of the event \<open>layer-removed\<close>; the id of the label layer is
  the id of the layer followed by \<open>-label\<close>.
\<close>

definition inheritExtent :: "ref \<Rightarrow> ref option \<Rightarrow> world \<Rightarrow> world" where
  "inheritExtent l parentLayer w =
     (case parentLayer of
        None \<Rightarrow> w
      | Some p \<Rightarrow>
          if layerExtent (layerHeap w l) = None
          then (let e = layerExtent (layerHeap w p);
                    s = layerSource (layerHeap w l);
                    w1 = setLayer l (\<lambda>x. x\<lparr>layerExtent := e\<rparr>) w
                in if sourceExtent (sourceHeap w1 s) = None
                   then w1\<lparr>sourceHeap := (sourceHeap w1)(s := (sourceHeap w1 s)\<lparr>sourceExtent := e\<rparr>)\<rparr>
                   else w1)
          else w)"

definition includesCrs :: "string list option \<Rightarrow> string option \<Rightarrow> bool" where
  "includesCrs tms c =
     (case tms of None \<Rightarrow> False | Some ts \<Rightarrow> (case c of None \<Rightarrow> False | Some x \<Rightarrow> x \<in> set ts))"

definition assignCrs :: "ref \<Rightarrow> ref \<Rightarrow> ref option \<Rightarrow> world \<Rightarrow> error + world" where
  "assignCrs v l parentLayer w =
     (let L = layerHeap w l; S = sourceHeap w (layerSource L)
      in if isGeometryLayer L \<and> \<not> isLabelLayer L
         then Inr (setLayer l (\<lambda>x. x\<lparr>crs := Some (referenceCrs (viewHeap w v))\<rparr>) w)
         else if falsy (crs L)
         then (case parentLayer of
                 None \<Rightarrow> Inr (setLayer l (\<lambda>x. x\<lparr>crs := None\<rparr>) w)
               | Some p \<Rightarrow>
                   if includesCrs (tileMatrixSets (layerHeap w p)) (sourceCrs S)
                   then Inr (setLayer l (\<lambda>x. x\<lparr>crs := sourceCrs S\<rparr>) w)
                   else (case layerExtent (layerHeap w p) of
                           None \<Rightarrow> Inl (TypeError ''Cannot read properties of undefined (reading crs)'')
                         | Some e \<Rightarrow> Inr (setLayer l (\<lambda>x. x\<lparr>crs := Some (extentCrs e)\<rparr>) w)))
         else Inr w)"

definition labelEffects :: "ref \<Rightarrow> layer \<Rightarrow> effect list" where
  "labelEffects l L =
     (if isLabelLayer L then [RegisterLabelLayer l]
      else if labelEnabled L \<or> addLabelLayer L
      then (if labelEnabled L
            then [ConsoleInfo ''layer.labelEnabled is deprecated use addLabelLayer, instead of'']
            else []) @ [CreateLabelLayer l]
      else [])
     @ (if isOGC3DTilesLayer L then [Setup3DTiles l] else [])"

definition getsLabelLayer :: "layer \<Rightarrow> bool" where
  "getsLabelLayer L = (\<not> isLabelLayer L \<and> (labelEnabled L \<or> addLabelLayer L))"

definition setListeners :: "ref \<Rightarrow> (ref \<times> string) list \<Rightarrow> world \<Rightarrow> world" where
  "setListeners v ls w = w\<lparr>viewHeap := (viewHeap w)(v := (viewHeap w v)\<lparr>labelListeners := ls\<rparr>)\<rparr>"

definition addLabelListener :: "ref \<Rightarrow> ref \<Rightarrow> world \<Rightarrow> world" where
  "addLabelListener v l w =
     (if getsLabelLayer (layerHeap w l)
      then setListeners v (labelListeners (viewHeap w v) @ [(l, layerId (layerHeap w l) @ ''-label'')]) w
      else w)"

definition preprocessLayer :: "ref \<Rightarrow> ref \<Rightarrow> ref option \<Rightarrow> world \<Rightarrow> error + world" where
  "preprocessLayer v l parentLayer w =
     (case assignCrs v l parentLayer (inheritExtent l parentLayer w) of
        Inl e \<Rightarrow> Inl e
      | Inr w1 \<Rightarrow> Inr (addLabelListener v l (emit v (labelEffects l (layerHeap w1 l)) w1)))"

text \<open>
  \<open>addLayer(layer, parentLayer)\<close>, up to its \<open>return\<close>. The result is what the
  caller gets: the promise \<open>Promise.reject\<close> makes, the readiness promise of the
  layer, or \<open>undefined\<close> where the source returns what \<open>layer._reject\<close> returns.
  The continuation that runs once the promises of the layer are resolved is a
  later task of the event loop and is not part of the call.
\<close>

datatype outcome = RejectedPromise error | Undefined | WhenReady ref

definition sceneAdd :: "ref \<Rightarrow> ref \<Rightarrow> world \<Rightarrow> world" where
  "sceneAdd v l w =
     (case object3d (layerHeap w l) of
        None \<Rightarrow> w
      | Some ob \<Rightarrow>
          if object3dParent w ob = None \<and> ob \<noteq> scene (viewHeap w v)
          then w\<lparr>object3dParent := (object3dParent w)(ob := Some (scene (viewHeap w v)))\<rparr>
          else w)"

definition pushLayer :: "ref \<Rightarrow> ref \<Rightarrow> world \<Rightarrow> world" where
  "pushLayer v l w =
     w\<lparr>viewHeap := (viewHeap w)(v := (viewHeap w v)\<lparr>layers := layers (viewHeap w v) @ [l]\<rparr>)\<rparr>"

definition addLayer :: "ref \<Rightarrow> ref option \<Rightarrow> ref option \<Rightarrow> world \<Rightarrow> error + (outcome \<times> world)" where
  "addLayer v layer0 parentLayer w =
     (case layer0 of
        None \<Rightarrow> Inr (RejectedPromise (Error ''Add Layer type object''), w)
      | Some l \<Rightarrow>
          if \<not> isLayer (layerHeap w l)
          then Inr (RejectedPromise (Error ''Add Layer type object''), w)
          else
            (case getLayerById w v (layerId (layerHeap w l)) of
               Some duplicate \<Rightarrow>
                 (let e = Error (''Invalid id '' @ [CHR 0x27] @ layerId (layerHeap w l) @ [CHR 0x27]
                                   @ '': id already used'')
                  in Inr (Undefined, reject l e w))
             | None \<Rightarrow>
                 (case preprocessLayer v l parentLayer w of
                    Inl e \<Rightarrow> Inl e
                  | Inr w1 \<Rightarrow>
                      (case parentLayer of
                         Some p \<Rightarrow>
                           (let w2 = (if isColorLayer (layerHeap w1 l)
                                      then setLayer l
                                             (\<lambda>x. x\<lparr>sequence := int (length (getLayers w1 v isColorLayer))\<rparr>) w1
                                      else w1)
                            in Inr (WhenReady l, sceneAdd v l (attach p l w2)))
                       | None \<Rightarrow>
                           if \<not> hasUpdate (layerHeap w1 l)
                           then (let e = Error ''Cant add GeometryLayer: missing a update function''
                                 in Inr (Undefined, reject l e w1))
                           else if \<not> hasPreUpdate (layerHeap w1 l)
                           then (let e = Error ''Cant add GeometryLayer: missing a preUpdate function''
                                 in Inr (Undefined, reject l e w1))
                           else Inr (WhenReady l, sceneAdd v l (pushLayer v l w1))))))"

subsection \<open>Removing a layer\<close>

text \<open>
  \<open>removeLayer(layerId, clearCache)\<close>. A state in which an exception is thrown is
  not kept. The loop that renumbers the color layers reads \<open>layer.sequence\<close> at
  each step. \<open>Source.onLayerRemoved\<close> and the dispatch of the event are recorded
  in the trace. \<open>removeLayerBody\<close> is the method up to the dispatch of the event
  \<open>layer-removed\<close>; \<open>removeLayer\<close> below then runs the listeners.
\<close>

definition unlinkLayer :: "ref \<Rightarrow> ref \<Rightarrow> string \<Rightarrow> ref option \<Rightarrow> world \<Rightarrow> error + world" where
  "unlinkLayer v l X parentLayer w =
     (case parentLayer of
        Some p \<Rightarrow>
          (case detach p l w of
             (ok, w1) \<Rightarrow>
               if \<not> ok
               then Inl (Error (''Error to detach '' @ X @ '' from '' @ layerId (layerHeap w p)))
               else Inr w1)
      | None \<Rightarrow>
          Inr (w\<lparr>viewHeap := (viewHeap w)(v := (viewHeap w v)
                 \<lparr>layers := splice1 (findIndex (\<lambda>r. layerId (layerHeap w r) = X) (layers (viewHeap w v)))
                              (layers (viewHeap w v))\<rparr>)\<rparr>))"

fun renumberLoop :: "ref \<Rightarrow> ref list \<Rightarrow> world \<Rightarrow> world" where
  "renumberLoop l [] w = w"
| "renumberLoop l (c # cs) w =
     renumberLoop l cs
       (if sequence (layerHeap w c) > sequence (layerHeap w l)
        then setLayer c (\<lambda>x. x\<lparr>sequence := sequence x - 1\<rparr>) w
        else w)"

definition renumberColorLayers :: "ref \<Rightarrow> ref \<Rightarrow> world \<Rightarrow> world" where
  "renumberColorLayers v l w =
     (if isColorLayer (layerHeap w l) then renumberLoop l (getLayers w v isColorLayer) w else w)"

definition sameSourceAndCrs :: "world \<Rightarrow> ref \<Rightarrow> layer \<Rightarrow> bool" where
  "sameSourceAndCrs w l x =
     (uid (sourceHeap w (layerSource x)) = uid (sourceHeap w (layerSource (layerHeap w l)))
      \<and> crs x = crs (layerHeap w l))"

definition sharedSourceCount :: "ref \<Rightarrow> world \<Rightarrow> nat" where
  "sharedSourceCount l w =
     sum_list (map (\<lambda>u. length (getLayers w u (sameSourceAndCrs w l))) (viewers w))"

definition notifyView :: "ref \<Rightarrow> change_source option \<Rightarrow> bool \<Rightarrow> world \<Rightarrow> world" where
  "notifyView v c needsRedraw w =
     w\<lparr>viewHeap := (viewHeap w)(v := notifyChange c needsRedraw (viewHeap w v))\<rparr>"

definition releaseAndNotify :: "ref \<Rightarrow> ref \<Rightarrow> string \<Rightarrow> world \<Rightarrow> world" where
  "releaseAndNotify v l X w =
     (let w1 = emit v [OnLayerRemoved (layerSource (layerHeap w l))
                         (if sharedSourceCount l w = 0 then crs (layerHeap w l) else None)] w;
          w2 = notifyView v (Some (cameraSource (viewHeap w1 v))) True w1
      in emit v [DispatchEvent ''layer-removed'' (Some X)] w2)"

definition removeLayerBody :: "ref \<Rightarrow> string \<Rightarrow> bool \<Rightarrow> world \<Rightarrow> error + world" where
  "removeLayerBody v X clearCache w =
     (case getLayerById w v X of
        None \<Rightarrow> Inl (Error (X @ '' doesn't exist''))
      | Some l \<Rightarrow>
          (let parentLayer = parent (layerHeap w l)
           in case unlinkLayer v l X parentLayer (layerDelete v l clearCache w) of
                Inl e \<Rightarrow> Inl e
              | Inr w1 \<Rightarrow> Inr (releaseAndNotify v l X (renumberColorLayers v l w1))))"

text \<open>
  The dispatch of \<open>layer-removed\<close> calls the listeners registered when it starts,
  in the order of their registration. A listener \<open>removeLabelLayer\<close> calls
  \<open>removeLayer\<close> with the id of its label layer when the event names the layer it
  watches, and then unregisters itself, whatever the event named. An exception
  of the nested \<open>removeLayer\<close> leaves the dispatch and the outer \<open>removeLayer\<close>.
  The first argument of \<open>removeLayer\<close> is the number of nested calls the call stack
  has room for; with none left the call throws a \<open>RangeError\<close>. The listeners of
  the callers are outside the class and are not run. Two listeners of the same
  layer do the same, and the earlier one has unregistered itself when the later
  one does, so that the one \<open>remove1\<close> takes out is the one that asked.
\<close>

definition removeListener :: "ref \<Rightarrow> ref \<times> string \<Rightarrow> world \<Rightarrow> world" where
  "removeListener v p w = setListeners v (remove1 p (labelListeners (viewHeap w v))) w"

fun runLabelListeners ::
  "(string \<Rightarrow> world \<Rightarrow> error + world) \<Rightarrow> ref \<Rightarrow> string \<Rightarrow> (ref \<times> string) list \<Rightarrow> world
     \<Rightarrow> error + world" where
  "runLabelListeners rm v X [] w = Inr w"
| "runLabelListeners rm v X ((l, labelId) # ls) w =
     (case (if X = layerId (layerHeap w l) then rm labelId w else Inr w) of
        Inl e \<Rightarrow> Inl e
      | Inr w1 \<Rightarrow> runLabelListeners rm v X ls (removeListener v (l, labelId) w1))"

fun removeLayer :: "nat \<Rightarrow> ref \<Rightarrow> string \<Rightarrow> bool \<Rightarrow> world \<Rightarrow> error + world" where
  "removeLayer 0 v X clearCache w = Inl (RangeError ''Maximum call stack size exceeded'')"
| "removeLayer (Suc d) v X clearCache w =
     (case removeLayerBody v X clearCache w of
        Inl e \<Rightarrow> Inl e
      | Inr w1 \<Rightarrow>
          runLabelListeners (\<lambda>labelId. removeLayer d v labelId False) v X
            (labelListeners (viewHeap w1 v)) w1)"

section \<open>Frame requesters\<close>

text \<open>
  A requester is a function, named by a number. What a requester does to the view
  when it is invoked is a list of calls of the three methods below; \<open>body\<close> gives
  it for each requester. An invocation is recorded in the trace.
\<close>

datatype call =
    CallRemoveFrameRequester string nat
  | CallAddFrameRequester string nat
  | CallNotifyChange

definition requestersAt :: "view \<Rightarrow> string \<Rightarrow> nat list option" where
  "requestersAt v a = map_of (frameRequesters v) a"

definition setRequesters :: "string \<Rightarrow> nat list \<Rightarrow> view \<Rightarrow> view" where
  "setRequesters a frs v =
     v\<lparr>frameRequesters := map (\<lambda>(k, l). if k = a then (k, frs) else (k, l)) (frameRequesters v)\<rparr>"

definition addFrameRequester :: "bool \<Rightarrow> string \<Rightarrow> nat \<Rightarrow> view \<Rightarrow> error + view" where
  "addFrameRequester isFunction a fr v =
     (if \<not> isFunction then Inl (Error ''frameRequester must be a function'')
      else Inr (case requestersAt v a of
                  None \<Rightarrow> v\<lparr>frameRequesters := frameRequesters v @ [(a, [fr])]\<rparr>
                | Some frs \<Rightarrow> setRequesters a (frs @ [fr]) v))"

definition removeFrameRequester :: "string \<Rightarrow> nat \<Rightarrow> view \<Rightarrow> error + view" where
  "removeFrameRequester a fr v =
     (case requestersAt v a of
        None \<Rightarrow> Inl (TypeError ''Cannot read properties of undefined (reading includes)'')
      | Some frs \<Rightarrow>
          Inr (if fr \<in> set frs
               then v\<lparr>delayedFrameRequesterRemoval := delayedFrameRequesterRemoval v @ [(a, fr)]\<rparr>
               else v\<lparr>trace := trace v @
                      [ConsoleError ''Invalid call to removeFrameRequester: frameRequester isn't registered'']\<rparr>))"

fun removalsLoop :: "(string \<times> nat) list \<Rightarrow> view \<Rightarrow> error + view" where
  "removalsLoop [] v = Inr v"
| "removalsLoop ((a, fr) # ds) v =
     (case requestersAt v a of
        None \<Rightarrow> Inl (TypeError ''Cannot read properties of undefined (reading indexOf)'')
      | Some frs \<Rightarrow>
          (let i = indexOf frs fr
           in removalsLoop ds
                (if i \<ge> 0 then setRequesters a (splice1 i frs) v
                 else v\<lparr>trace := trace v @ [ConsoleWarn ''FrameReq has already been removed'']\<rparr>)))"

definition executeFrameRequestersRemovals :: "view \<Rightarrow> error + view" where
  "executeFrameRequestersRemovals v =
     (case removalsLoop (delayedFrameRequesterRemoval v) v of
        Inl e \<Rightarrow> Inl e
      | Inr v1 \<Rightarrow> Inr (v1\<lparr>delayedFrameRequesterRemoval := []\<rparr>))"

fun removeEach :: "string \<Rightarrow> nat list \<Rightarrow> view \<Rightarrow> error + view" where
  "removeEach a [] v = Inr v"
| "removeEach a (fr # frs) v =
     (case removeFrameRequester a fr v of Inl e \<Rightarrow> Inl e | Inr v1 \<Rightarrow> removeEach a frs v1)"

fun removeAllAt :: "(string \<times> nat list) list \<Rightarrow> view \<Rightarrow> error + view" where
  "removeAllAt [] v = Inr v"
| "removeAllAt ((a, frs) # rest) v =
     (case removeEach a frs v of Inl e \<Rightarrow> Inl e | Inr v1 \<Rightarrow> removeAllAt rest v1)"

definition removeAllFrameRequesters :: "view \<Rightarrow> error + view" where
  "removeAllFrameRequesters v =
     (case removeAllAt (frameRequesters v) v of
        Inl e \<Rightarrow> Inl e
      | Inr v1 \<Rightarrow> executeFrameRequestersRemovals v1)"

fun runCalls :: "call list \<Rightarrow> view \<Rightarrow> error + view" where
  "runCalls [] v = Inr v"
| "runCalls (CallRemoveFrameRequester a fr # cs) v =
     (case removeFrameRequester a fr v of Inl e \<Rightarrow> Inl e | Inr v1 \<Rightarrow> runCalls cs v1)"
| "runCalls (CallAddFrameRequester a fr # cs) v =
     (case addFrameRequester True a fr v of Inl e \<Rightarrow> Inl e | Inr v1 \<Rightarrow> runCalls cs v1)"
| "runCalls (CallNotifyChange # cs) v = runCalls cs (notifyChange None True v)"

definition invoke :: "(nat \<Rightarrow> call list) \<Rightarrow> nat \<Rightarrow> view \<Rightarrow> error + view" where
  "invoke body fr v = runCalls (body fr) (v\<lparr>trace := trace v @ [Invoke fr]\<rparr>)"

text \<open>
  The loop of \<open>execFrameRequesters\<close> walks the array by index and reads its length
  at each step, as the iterator of a JavaScript array does: a requester that keeps
  adding requesters keeps the loop running, and the result is then \<open>None\<close>.
\<close>

partial_function (option) requestersLoop ::
  "(nat \<Rightarrow> call list) \<Rightarrow> string \<Rightarrow> nat \<Rightarrow> view \<Rightarrow> (error + view) option" where
  "requestersLoop body a i v =
     (case requestersAt v a of
        None \<Rightarrow> Some (Inr v)
      | Some frs \<Rightarrow>
          if i < length frs
          then (case invoke body (frs ! i) v of
                  Inl e \<Rightarrow> Some (Inl e)
                | Inr v1 \<Rightarrow> requestersLoop body a (Suc i) v1)
          else Some (Inr v))"

definition execFrameRequesters :: "(nat \<Rightarrow> call list) \<Rightarrow> string \<Rightarrow> view \<Rightarrow> (error + view) option" where
  "execFrameRequesters body a v =
     (case requestersAt v a of
        None \<Rightarrow> Some (Inr v)
      | Some frs \<Rightarrow>
          (case (if delayedFrameRequesterRemoval v \<noteq> [] then executeFrameRequestersRemovals v else Inr v) of
             Inl e \<Rightarrow> Some (Inl e)
           | Inr v1 \<Rightarrow> requestersLoop body a 0 v1))"

text \<open>
  Update cycles of the main loop, as far as one attach point sees them: one call
  of \<open>execFrameRequesters\<close> per cycle. An exception ends the run.
\<close>

fun execCycles :: "(nat \<Rightarrow> call list) \<Rightarrow> string \<Rightarrow> nat \<Rightarrow> view \<Rightarrow> (error + view) option" where
  "execCycles body a 0 v = Some (Inr v)"
| "execCycles body a (Suc n) v =
     (case execFrameRequesters body a v of
        None \<Rightarrow> None
      | Some (Inl e) \<Rightarrow> Some (Inl e)
      | Some (Inr v1) \<Rightarrow> execCycles body a n v1)"

text \<open>
  A call that leaves the arrays of the registry alone and cannot throw: a
  \<open>notifyChange\<close>, or a \<open>removeFrameRequester\<close> at one of the attach points \<open>ks\<close>
  of the registry.
\<close>

definition safeCall :: "string list \<Rightarrow> call \<Rightarrow> bool" where
  "safeCall ks c =
     (case c of
        CallRemoveFrameRequester a fr \<Rightarrow> a \<in> set ks
      | CallAddFrameRequester a fr \<Rightarrow> False
      | CallNotifyChange \<Rightarrow> True)"

text \<open>The requesters a trace records as invoked, in order.\<close>

fun invoked :: "effect list \<Rightarrow> nat list" where
  "invoked [] = []"
| "invoked (Invoke fr # es) = fr # invoked es"
| "invoked (e # es) = invoked es"

section \<open>Disposal\<close>

text \<open>
  \<open>dispose(clearCache)\<close>. Each of the three loops walks the array \<open>getLayers\<close>
  returned before the loop started. The window listener, the controls and the
  cleanup of the scene are recorded in the trace. The first argument is the room
  of the call stack that the calls of \<open>removeLayer\<close> get.
\<close>

fun removeLayers :: "nat \<Rightarrow> ref \<Rightarrow> ref list \<Rightarrow> bool \<Rightarrow> world \<Rightarrow> error + world" where
  "removeLayers d v [] clearCache w = Inr w"
| "removeLayers d v (l # ls) clearCache w =
     (case removeLayer d v (layerId (layerHeap w l)) clearCache w of
        Inl e \<Rightarrow> Inl e
      | Inr w1 \<Rightarrow> removeLayers d v ls clearCache w1)"

definition disposeControls :: "view \<Rightarrow> view" where
  "disposeControls v =
     (if hasControls v
      then (if controlsHaveDispose v then v\<lparr>trace := trace v @ [ControlsDispose]\<rparr> else v)
             \<lparr>hasControls := False\<rparr>
      else v)"

definition removeAllEvents :: "view \<Rightarrow> view" where
  "removeAllEvents v =
     (if listeners v = None \<and> labelListeners v = [] then v
      else v\<lparr>listeners := None, labelListeners := []\<rparr>)"

definition setView :: "ref \<Rightarrow> view \<Rightarrow> world \<Rightarrow> world" where
  "setView v V w = w\<lparr>viewHeap := (viewHeap w)(v := V)\<rparr>"

definition finishDispose :: "ref \<Rightarrow> int \<Rightarrow> world \<Rightarrow> world" where
  "finishDispose v i w =
     (let w1 = w\<lparr>viewers := splice1 i (viewers w)\<rparr>;
          w2 = emit v [SceneCleanup, DispatchEvent ''disposed'' None] w1
      in setView v (removeAllEvents (viewHeap w2 v)) w2)"

definition dispose :: "nat \<Rightarrow> ref \<Rightarrow> bool \<Rightarrow> world \<Rightarrow> error + world" where
  "dispose d v clearCache w =
     (let i = indexOf (viewers w) v
      in if i = - 1 then Inr (emit v [ConsoleWarn ''View already disposed''] w)
         else
           (let w1 = emit v [RemoveResizeListener] w;
                w2 = setView v (disposeControls (viewHeap w1 v)) w1
            in case removeAllFrameRequesters (viewHeap w2 v) of
                 Inl e \<Rightarrow> Inl e
               | Inr V \<Rightarrow>
                   (let w3 = setView v V w2
                    in case removeLayers d v
                              (getLayers w3 v (\<lambda>l. \<not> isTiledGeometryLayer l \<and> \<not> isAtmosphere l))
                              clearCache w3 of
                         Inl e \<Rightarrow> Inl e
                       | Inr w4 \<Rightarrow>
                           (case removeLayers d v (getLayers w4 v isAtmosphere) clearCache w4 of
                              Inl e \<Rightarrow> Inl e
                            | Inr w5 \<Rightarrow>
                                (case removeLayers d v (getLayers w5 v isTiledGeometryLayer) clearCache w5 of
                                   Inl e \<Rightarrow> Inl e
                                 | Inr w6 \<Rightarrow> Inr (finishDispose v i w6))))))"

section \<open>Sequences of operations\<close>

text \<open>
  Calls of \<open>addLayer\<close> and \<open>removeLayer\<close> on a view, one after the other. A rejected
  promise does not stop the caller; an exception does. The first argument is the
  room of the call stack that each \<open>removeLayer\<close> gets.
\<close>

datatype operation = AddLayer ref "ref option" | RemoveLayer string

fun runOperations :: "nat \<Rightarrow> ref \<Rightarrow> operation list \<Rightarrow> world \<Rightarrow> error + world" where
  "runOperations d v [] w = Inr w"
| "runOperations d v (AddLayer l p # ops) w =
     (case addLayer v (Some l) p w of
        Inl e \<Rightarrow> Inl e
      | Inr (out, w1) \<Rightarrow> runOperations d v ops w1)"
| "runOperations d v (RemoveLayer X # ops) w =
     (case removeLayer d v X False w of
        Inl e \<Rightarrow> Inl e
      | Inr w1 \<Rightarrow> runOperations d v ops w1)"

section \<open>Well-formed views\<close>

text \<open>
  The invariants of the data model. In a well-formed view the ids of the layers
  \<open>getLayers\<close> returns are pairwise different, a root layer has no parent, and a
  layer attached to a root layer has that root as its parent. The store is
  consistent when the parent of every attached layer is the layer it is attached
  to, which is what \<open>attach\<close> and \<open>detach\<close> establish. A layer is attached under
  another when a chain of attached layers leads from the one to the other.
\<close>

definition wfView :: "world \<Rightarrow> ref \<Rightarrow> bool" where
  "wfView w v \<longleftrightarrow>
     distinct (map (\<lambda>l. layerId (layerHeap w l)) (allLayers w v))
     \<and> (\<forall>r \<in> set (layers (viewHeap w v)).
            parent (layerHeap w r) = None
            \<and> (\<forall>a \<in> set (attachedLayers (layerHeap w r)). parent (layerHeap w a) = Some r))"

definition parentsConsistent :: "world \<Rightarrow> bool" where
  "parentsConsistent w \<longleftrightarrow>
     (\<forall>p a. a \<in> set (attachedLayers (layerHeap w p)) \<longrightarrow> parent (layerHeap w a) = Some p)"

inductive attachedUnder :: "world \<Rightarrow> ref \<Rightarrow> ref \<Rightarrow> bool" for w :: world and l :: ref where
  direct: "a \<in> set (attachedLayers (layerHeap w l)) \<Longrightarrow> attachedUnder w l a"
| deeper: "attachedUnder w l p \<Longrightarrow> a \<in> set (attachedLayers (layerHeap w p)) \<Longrightarrow> attachedUnder w l a"

text \<open>
  What \<open>removeLayer\<close> never writes in a layer: the layer with its parent, its
  attached layers and its sequence number blanked.
\<close>

definition core :: "layer \<Rightarrow> layer" where
  "core x = x\<lparr>sequence := 0, parent := None, attachedLayers := []\<rparr>"

text \<open>
  What the sequence numbers of the color layers of a view are computed from:
  the layers attached to a layer, its sequence number, and whether it is a color
  layer.
\<close>

definition shape :: "layer \<Rightarrow> ref list \<times> int \<times> bool" where
  "shape x = (attachedLayers x, sequence x, isColorLayer x)"

text \<open>
  The layers that leave \<open>getLayers\<close> when the layer \<open>l\<close> of a well-formed view is
  removed: a root layer goes with the layers attached to it, an attached layer
  goes alone.
\<close>

definition removedLayers :: "world \<Rightarrow> ref \<Rightarrow> ref \<Rightarrow> ref set" where
  "removedLayers w v l =
     (if l \<in> set (layers (viewHeap w v)) then insert l (set (attachedLayers (layerHeap w l))) else {l})"

text \<open>
  The sequence numbers of the color layers of a view form the range from \<open>0\<close> to
  their count, each number taken once.
\<close>

definition colorSequences :: "world \<Rightarrow> ref \<Rightarrow> int list" where
  "colorSequences w v = map (\<lambda>l. sequence (layerHeap w l)) (getLayers w v isColorLayer)"

definition contiguous :: "world \<Rightarrow> ref \<Rightarrow> bool" where
  "contiguous w v \<longleftrightarrow>
     distinct (colorSequences w v)
     \<and> set (colorSequences w v) = {0 ..< int (length (colorSequences w v))}"

text \<open>
  A label listener of the view waits for the removal of the id \<open>X\<close> when the layer
  it watches has that id: the dispatch of \<open>layer-removed\<close> for \<open>X\<close> then makes it
  call \<open>removeLayer\<close>.
\<close>

definition listenerWaits :: "world \<Rightarrow> ref \<Rightarrow> string \<Rightarrow> bool" where
  "listenerWaits w v X \<longleftrightarrow>
     (\<exists>p \<in> set (labelListeners (viewHeap w v)). layerId (layerHeap w (fst p)) = X)"

text \<open>The calls of \<open>Source.onLayerRemoved\<close> a trace records.\<close>

fun onLayerRemovedCalls :: "effect list \<Rightarrow> (ref \<times> string option) list" where
  "onLayerRemovedCalls [] = []"
| "onLayerRemovedCalls (OnLayerRemoved s c # es) = (s, c) # onLayerRemovedCalls es"
| "onLayerRemovedCalls (e # es) = onLayerRemovedCalls es"

section \<open>Example states\<close>

text \<open>A view of 800 by 600 pixels without layers, a layer, and a source.\<close>

definition exampleView :: view where
  "exampleView =
     \<lparr>layers = [],
      fullSizeDepthBuffer = \<lparr>byteLength = 1920000, needsUpdate = False\<rparr>,
      viewCamera = \<lparr>width = 800, height = 600\<rparr>,
      cameraSource = \<lparr>srcId = 0, isTileMesh = False, isCamera = False\<rparr>,
      camera3D = \<lparr>srcId = 1, isTileMesh = False, isCamera = True\<rparr>,
      referenceCrs = ''EPSG:4978'',
      scene = 0,
      tileLayer = None,
      clientWidth = 800,
      clientHeight = 600,
      gfxWidth = 800,
      gfxHeight = 600,
      xrIsPresenting = False,
      commandsWaitingExecutionCount = 0,
      renderingPaused = True,
      changeSources = {},
      frameRequesters = [],
      delayedFrameRequesterRemoval = [],
      hasControls = False,
      controlsHaveDispose = False,
      listeners = None,
      labelListeners = [],
      trace = []\<rparr>"

definition exampleLayer :: layer where
  "exampleLayer =
     \<lparr>layerId = ''layer'',
      isLayer = True,
      isGeometryLayer = False,
      isLabelLayer = False,
      isColorLayer = False,
      isTiledGeometryLayer = False,
      isAtmosphere = False,
      isOGC3DTilesLayer = False,
      labelEnabled = False,
      addLabelLayer = False,
      hasUpdate = True,
      hasPreUpdate = False,
      sequence = 0,
      layerSource = 0,
      crs = Some ''EPSG:4326'',
      layerExtent = None,
      tileMatrixSets = None,
      parent = None,
      attachedLayers = [],
      object3d = None,
      level0Nodes = [],
      whenReady = Pending\<rparr>"

definition exampleSource :: source where
  "exampleSource = \<lparr>uid = 0, sourceCrs = Some ''EPSG:4326'', sourceExtent = None\<rparr>"

text \<open>
  Two views, each with a tiled globe layer as its root. The globe of view 0 carries
  the color layers \<open>ortho\<close> and \<open>roads\<close>, the globe of view 1 a color layer \<open>ortho\<close>
  of its own over the same source and CRS as the one of view 0.
\<close>

definition globeLayer :: layer where
  "globeLayer =
     exampleLayer\<lparr>layerId := ''globe'', isGeometryLayer := True, isTiledGeometryLayer := True,
       hasPreUpdate := True, crs := Some ''EPSG:4978'', level0Nodes := [Some 0]\<rparr>"

definition colorLayer :: layer where
  "colorLayer = exampleLayer\<lparr>layerId := ''ortho'', isColorLayer := True, layerSource := 10\<rparr>"

definition exampleLayers :: "ref \<Rightarrow> layer" where
  "exampleLayers =
     (\<lambda>r. exampleLayer)
       (1 := globeLayer\<lparr>attachedLayers := [2, 3]\<rparr>,
        2 := colorLayer\<lparr>parent := Some 1\<rparr>,
        3 := colorLayer\<lparr>layerId := ''roads'', sequence := 1, layerSource := 11, parent := Some 1\<rparr>,
        4 := globeLayer\<lparr>attachedLayers := [5]\<rparr>,
        5 := colorLayer\<lparr>parent := Some 4\<rparr>)"

definition exampleSources :: "ref \<Rightarrow> source" where
  "exampleSources = (\<lambda>r. exampleSource)(10 := exampleSource\<lparr>uid := 10\<rparr>, 11 := exampleSource\<lparr>uid := 11\<rparr>)"

definition exampleWorld :: world where
  "exampleWorld =
     \<lparr>layerHeap = exampleLayers,
      sourceHeap = exampleSources,
      viewHeap = (\<lambda>r. exampleView)
        (0 := exampleView\<lparr>layers := [1], tileLayer := Some 1\<rparr>,
         1 := exampleView\<lparr>layers := [4], tileLayer := Some 4\<rparr>),
      object3dParent = (\<lambda>r. None),
      viewers = [0, 1]\<rparr>"

text \<open>
  A view with two tiled root layers, \<open>globe\<close> and \<open>planar\<close>, and three color layers
  that are not attached yet.
\<close>

definition twoRootsWorld :: world where
  "twoRootsWorld =
     \<lparr>layerHeap = (\<lambda>r. exampleLayer)
        (1 := globeLayer,
         6 := globeLayer\<lparr>layerId := ''planar''\<rparr>,
         7 := colorLayer\<lparr>layerId := ''c0''\<rparr>,
         8 := colorLayer\<lparr>layerId := ''c1''\<rparr>,
         9 := colorLayer\<lparr>layerId := ''c2''\<rparr>),
      sourceHeap = exampleSources,
      viewHeap = (\<lambda>r. exampleView)(0 := exampleView\<lparr>layers := [1, 6], tileLayer := Some 1\<rparr>),
      object3dParent = (\<lambda>r. None),
      viewers = [0]\<rparr>"

text \<open>
  An empty view and three layers that are not added yet: the tiled layer
  \<open>globe\<close>, a color layer with the id \<open>m\<close>, and a second tiled layer that has the
  id \<open>m\<close> too, over another source.
\<close>

definition sharedIdWorld :: world where
  "sharedIdWorld =
     \<lparr>layerHeap = (\<lambda>r. exampleLayer)
        (1 := globeLayer,
         6 := globeLayer\<lparr>layerId := ''m'', layerSource := 11\<rparr>,
         7 := colorLayer\<lparr>layerId := ''m''\<rparr>),
      sourceHeap = exampleSources,
      viewHeap = (\<lambda>r. exampleView),
      object3dParent = (\<lambda>r. None),
      viewers = [0]\<rparr>"

text \<open>
  A view with the tiled root layer \<open>globe\<close>, and two layers that are not added
  yet: the color layer \<open>roads\<close>, which asks for a label layer, and its label layer
  \<open>roads-label\<close> over the same source.
\<close>

definition labelWorld :: world where
  "labelWorld =
     \<lparr>layerHeap = (\<lambda>r. exampleLayer)
        (1 := globeLayer,
         2 := colorLayer\<lparr>layerId := ''roads'', addLabelLayer := True\<rparr>,
         3 := exampleLayer\<lparr>layerId := ''roads-label'', isGeometryLayer := True,
                isLabelLayer := True, hasPreUpdate := True, layerSource := 10\<rparr>),
      sourceHeap = exampleSources,
      viewHeap = (\<lambda>r. exampleView)(0 := exampleView\<lparr>layers := [1], tileLayer := Some 1\<rparr>),
      object3dParent = (\<lambda>r. None),
      viewers = [0]\<rparr>"

text \<open>
  A view with three requesters at the attach point \<open>update_end\<close>. Requester 2
  unregisters itself when it is invoked, as the callback of the view that waits
  for the layers to be ready does; the others ask for an update.
\<close>

definition requesterView :: view where
  "requesterView = exampleView\<lparr>frameRequesters := [(''update_end'', [1, 2, 3])]\<rparr>"

definition exampleBody :: "nat \<Rightarrow> call list" where
  "exampleBody fr =
     (if fr = 2 then [CallRemoveFrameRequester ''update_end'' 2] else [CallNotifyChange])"

section \<open>Properties\<close>

subsection \<open>Coordinates\<close>

text \<open>
  C10. For a camera of positive width and height, \<open>viewToNormalizedCoords\<close> and
  \<open>normalizedToViewCoords\<close> are inverse to each other under exact rational
  arithmetic: converting view coordinates to normalised coordinates and back
  gives the view coordinates again, and the other way round.
\<close>

theorem coords_roundtrip:
  assumes "0 < width cam" and "0 < height cam"
  shows "normalizedToViewCoords cam (viewToNormalizedCoords cam (x, y)) = (x, y)
       \<and> viewToNormalizedCoords cam (normalizedToViewCoords cam (x, y)) = (x, y)"
  using assms by (simp add: normalizedToViewCoords_def viewToNormalizedCoords_def field_simps)

theorem coords_roundtrip_witness:
  "0 < width (viewCamera exampleView) \<and> 0 < height (viewCamera exampleView)
   \<and> viewToNormalizedCoords (viewCamera exampleView) (200, 150) = (- (1 / 2), 1 / 2)
   \<and> normalizedToViewCoords (viewCamera exampleView) (- (1 / 2), 1 / 2) = (200, 150)
   \<and> normalizedToViewCoords (viewCamera exampleView)
        (viewToNormalizedCoords (viewCamera exampleView) (200, 150)) = (200, 150)"
  using coords_roundtrip [of "viewCamera exampleView" 200 150]
  by (simp add: normalizedToViewCoords_def viewToNormalizedCoords_def exampleView_def)

subsection \<open>Resize\<close>

text \<open>
  C8. A resize with a negative width or a negative height logs a warning and does
  nothing else: the depth buffer, the dimensions of the camera and of the graphics
  engine are the ones before the call, and no \<open>notifyChange\<close> is issued.
\<close>

theorem resize_negative_noop:
  assumes "isNegative w \<or> isNegative h"
  shows "\<exists>v'. resize m w h v = Inr v'
     \<and> v' = v\<lparr>trace := trace v @
             [ConsoleWarn ''Trying to resize the View with negative height or width. Skipping resize.'']\<rparr>
     \<and> fullSizeDepthBuffer v' = fullSizeDepthBuffer v
     \<and> viewCamera v' = viewCamera v
     \<and> gfxWidth v' = gfxWidth v \<and> gfxHeight v' = gfxHeight v
     \<and> notifyChangeCalls (trace v') = notifyChangeCalls (trace v)"
  using assms by (simp add: resize_def notifyChangeCalls_def)

theorem resize_negative_noop_witness:
  "isNegative (Some (- 1)) \<and>
   (\<exists>v'. resize 2147483647 (Some (- 1)) (Some 600) exampleView = Inr v'
     \<and> v' = exampleView\<lparr>trace :=
             [ConsoleWarn ''Trying to resize the View with negative height or width. Skipping resize.'']\<rparr>
     \<and> fullSizeDepthBuffer v' = \<lparr>byteLength = 1920000, needsUpdate = False\<rparr>)"
  using resize_negative_noop [of "Some (- 1)" "Some 600" 2147483647 exampleView]
  by (simp add: isNegative_def exampleView_def)

lemma resize_negative:
  "isNegative w \<or> isNegative h \<Longrightarrow>
   resize m w h v = Inr (v\<lparr>trace := trace v @
     [ConsoleWarn ''Trying to resize the View with negative height or width. Skipping resize.'']\<rparr>)"
  by (simp add: resize_def)

lemma resize_too_large:
  "\<not> isNegative w \<Longrightarrow> \<not> isNegative h \<Longrightarrow>
   \<not> allocatable m (4 * orDefault w (clientWidth v) * orDefault h (clientHeight v)) \<Longrightarrow>
   resize m w h v = Inl (RangeError ''Invalid typed array length'')"
  by (simp add: resize_def Let_def)

lemma resize_allocated:
  "\<not> isNegative w \<Longrightarrow> \<not> isNegative h \<Longrightarrow>
   allocatable m (4 * orDefault w (clientWidth v) * orDefault h (clientHeight v)) \<Longrightarrow>
   resize m w h v =
     (let a = orDefault w (clientWidth v);
          b = orDefault h (clientHeight v)
      in if a \<noteq> 0 \<and> b \<noteq> 0
         then Inr (v\<lparr>fullSizeDepthBuffer :=
                   \<lparr>byteLength = 4 * a * b,
                    needsUpdate = (\<not> xrIsPresenting v \<and> (isTileMesh (camera3D v) \<or> isCamera (camera3D v)))\<rparr>,
                 viewCamera := (viewCamera v)\<lparr>width := a, height := b\<rparr>,
                 gfxWidth := a, gfxHeight := b,
                 changeSources := insert (camera3D v) (changeSources v),
                 trace := trace v @ [ScheduleViewUpdate True]\<rparr>)
         else Inr (v\<lparr>fullSizeDepthBuffer := \<lparr>byteLength = 4 * a * b, needsUpdate = False\<rparr>,
                 gfxWidth := a, gfxHeight := b\<rparr>))"
  by (simp add: resize_def Let_def notifyChange_def scheduleViewUpdate_def onWindowResize_def
      cameraResize_def)

text \<open>
  C6, as the code has it. \<open>resize\<close> does not compare with the dimensions of the call
  before. With a negative dimension both calls only log the warning. With
  dimensions whose depth buffer cannot be allocated the call throws and issues no
  \<open>notifyChange\<close>. Otherwise the first call issues one \<open>notifyChange\<close>, which asks
  for a redraw, when both dimensions are non-zero and none when one is zero; the
  second call with the same dimensions leaves every field of the view as the
  first call left it, the trace apart, where it issues as many \<open>notifyChange\<close>
  again as the first call did.
\<close>

theorem resize_twice:
  "(isNegative w \<or> isNegative h \<longrightarrow>
      (\<exists>v1 v2. resize m w h v = Inr v1 \<and> resize m w h v1 = Inr v2
         \<and> notifyChangeCalls (trace v2) = notifyChangeCalls (trace v)
         \<and> redrawRequests (trace v2) = redrawRequests (trace v)))
   \<and> (\<not> isNegative w \<and> \<not> isNegative h
        \<and> \<not> allocatable m (4 * orDefault w (clientWidth v) * orDefault h (clientHeight v)) \<longrightarrow>
      resize m w h v = Inl (RangeError ''Invalid typed array length''))
   \<and> (\<not> isNegative w \<and> \<not> isNegative h
        \<and> allocatable m (4 * orDefault w (clientWidth v) * orDefault h (clientHeight v)) \<longrightarrow>
      (\<exists>v1 v2 n. resize m w h v = Inr v1 \<and> resize m w h v1 = Inr v2
         \<and> n = (if orDefault w (clientWidth v) \<noteq> 0 \<and> orDefault h (clientHeight v) \<noteq> 0
                then 1 else 0)
         \<and> notifyChangeCalls (trace v1) = notifyChangeCalls (trace v) + n
         \<and> redrawRequests (trace v1) = redrawRequests (trace v) + n
         \<and> v2 = v1\<lparr>trace := trace v1 @ replicate n (ScheduleViewUpdate True)\<rparr>
         \<and> notifyChangeCalls (trace v2) = notifyChangeCalls (trace v1) + n
         \<and> redrawRequests (trace v2) = redrawRequests (trace v1) + n))"
proof (intro conjI impI)
  assume "isNegative w \<or> isNegative h"
  then show "\<exists>v1 v2. resize m w h v = Inr v1 \<and> resize m w h v1 = Inr v2
         \<and> notifyChangeCalls (trace v2) = notifyChangeCalls (trace v)
         \<and> redrawRequests (trace v2) = redrawRequests (trace v)"
    by (simp add: resize_negative notifyChangeCalls_def redrawRequests_def)
next
  assume "\<not> isNegative w \<and> \<not> isNegative h
        \<and> \<not> allocatable m (4 * orDefault w (clientWidth v) * orDefault h (clientHeight v))"
  then show "resize m w h v = Inl (RangeError ''Invalid typed array length'')"
    by (simp add: resize_too_large)
next
  assume a: "\<not> isNegative w \<and> \<not> isNegative h
        \<and> allocatable m (4 * orDefault w (clientWidth v) * orDefault h (clientHeight v))"
  show "\<exists>v1 v2 n. resize m w h v = Inr v1 \<and> resize m w h v1 = Inr v2
         \<and> n = (if orDefault w (clientWidth v) \<noteq> 0 \<and> orDefault h (clientHeight v) \<noteq> 0
                then 1 else 0)
         \<and> notifyChangeCalls (trace v1) = notifyChangeCalls (trace v) + n
         \<and> redrawRequests (trace v1) = redrawRequests (trace v) + n
         \<and> v2 = v1\<lparr>trace := trace v1 @ replicate n (ScheduleViewUpdate True)\<rparr>
         \<and> notifyChangeCalls (trace v2) = notifyChangeCalls (trace v1) + n
         \<and> redrawRequests (trace v2) = redrawRequests (trace v1) + n"
  proof (cases "orDefault w (clientWidth v) \<noteq> 0 \<and> orDefault h (clientHeight v) \<noteq> 0")
    case True
    with a show ?thesis
      by (simp add: resize_allocated Let_def notifyChangeCalls_def redrawRequests_def)
  next
    case False
    then consider "orDefault w (clientWidth v) = 0" | "orDefault h (clientHeight v) = 0"
      by auto
    then show ?thesis
    proof cases
      case 1
      with a show ?thesis
        by (simp add: resize_allocated Let_def notifyChangeCalls_def redrawRequests_def)
    next
      case 2
      with a show ?thesis
        by (simp add: resize_allocated Let_def notifyChangeCalls_def redrawRequests_def)
    qed
  qed
qed

lemma example_trace:
  "notifyChangeCalls (trace exampleView) = 0" "redrawRequests (trace exampleView) = 0"
  by (simp_all add: exampleView_def notifyChangeCalls_def redrawRequests_def)

theorem resize_twice_witness:
  "(isNegative (Some (- 1)) \<and>
      (\<exists>v1 v2. resize 2147483647 (Some (- 1)) (Some 600) exampleView = Inr v1
         \<and> resize 2147483647 (Some (- 1)) (Some 600) v1 = Inr v2
         \<and> notifyChangeCalls (trace v2) = 0))
   \<and> (\<not> isNegative (Some 100000) \<and> \<not> allocatable 2147483647 (4 * 100000 * 100000)
        \<and> resize 2147483647 (Some 100000) (Some 100000) exampleView
            = Inl (RangeError ''Invalid typed array length''))
   \<and> (\<not> isNegative (Some 800) \<and> \<not> isNegative (Some 600) \<and> allocatable 2147483647 (4 * 800 * 600)
        \<and> (\<exists>v1. resize 2147483647 (Some 800) (Some 600) exampleView = Inr v1
              \<and> resize 2147483647 (Some 800) (Some 600) v1
                  = Inr (v1\<lparr>trace := trace v1 @ [ScheduleViewUpdate True]\<rparr>)
              \<and> notifyChangeCalls (trace v1) = 1))
   \<and> (\<exists>v1. resize 2147483647 (Some 0) (Some 600) exampleView = Inr v1
              \<and> resize 2147483647 (Some 0) (Some 600) v1 = Inr v1
              \<and> notifyChangeCalls (trace v1) = 0)"
  using resize_twice [of "Some (- 1)" "Some 600" 2147483647 exampleView]
    resize_twice [of "Some 100000" "Some 100000" 2147483647 exampleView]
    resize_twice [of "Some 800" "Some 600" 2147483647 exampleView]
    resize_twice [of "Some 0" "Some 600" 2147483647 exampleView]
  by (auto simp: isNegative_def orDefault_def example_trace allocatable_def)

text \<open>
  C6 as stated fails: on the example view the first \<open>resize(800, 600)\<close> issues one
  \<open>notifyChange\<close> and one redraw request, and the second call with the same
  dimensions issues one more of each.
\<close>

theorem resize_twice_counterexample:
  "\<exists>v1 v2. resize 2147483647 (Some 800) (Some 600) exampleView = Inr v1
     \<and> resize 2147483647 (Some 800) (Some 600) v1 = Inr v2
     \<and> notifyChangeCalls (trace v1) = 1 \<and> notifyChangeCalls (trace v2) = 2
     \<and> redrawRequests (trace v1) = 1 \<and> redrawRequests (trace v2) = 2"
  by (simp add: resize_allocated isNegative_def Let_def exampleView_def notifyChangeCalls_def
      redrawRequests_def orDefault_def allocatable_def)

subsection \<open>Picking\<close>

lemma far_length: "10000000 < vlength (20000000, 0, 0)"
proof -
  have "sqrt ((20000000::real) * 20000000) = 20000000"
    using real_sqrt_abs2 [of "20000000::real"] by simp
  then show ?thesis by simp
qed


text \<open>
  C7. \<open>getPickingPositionFromDepth\<close> signals that there is no surface by returning
  \<open>undefined\<close>: when the view has no tile layer, or the tile layer has no root node
  (or a falsy first one), and whenever the unprojected world position lies further
  than 10000000 from the origin. The function has no exceptional result.
\<close>

theorem picking_undefined:
  "(noTileLayerNodes w v \<longrightarrow> fst (getPickingPositionFromDepth unproject mouse v w) = None)
   \<and> (10000000 < vlength (unproject (pickedPixel (viewHeap w v) mouse))
        \<longrightarrow> fst (getPickingPositionFromDepth unproject mouse v w) = None)"
  by (simp add: getPickingPositionFromDepth_def Let_def)

theorem picking_undefined_witness:
  "noTileLayerNodes exampleWorld 2
   \<and> fst (getPickingPositionFromDepth (\<lambda>p. (0, 0, 0)) None 2 exampleWorld) = None
   \<and> \<not> noTileLayerNodes exampleWorld 0
   \<and> 10000000 < vlength ((\<lambda>p. (20000000, 0, 0)) (pickedPixel (viewHeap exampleWorld 0) None))
   \<and> fst (getPickingPositionFromDepth (\<lambda>p. (20000000, 0, 0)) None 0 exampleWorld) = None
   \<and> fst (getPickingPositionFromDepth (\<lambda>p. (3, 4, 0)) None 0 exampleWorld) = Some (3, 4, 0)"
proof -
  have a: "noTileLayerNodes exampleWorld 2"
    by (simp add: noTileLayerNodes_def exampleWorld_def exampleView_def)
  have b: "\<not> noTileLayerNodes exampleWorld 0"
    by (simp add: noTileLayerNodes_def exampleWorld_def exampleView_def exampleLayers_def globeLayer_def exampleLayer_def)
  have c: "10000000 < vlength ((\<lambda>p. (20000000, 0, 0)) (pickedPixel (viewHeap exampleWorld 0) None))"
    using far_length by simp
  have d: "\<not> 10000000 < vlength (3, 4, 0)"
  proof -
    have "sqrt ((3::real) * 3 + 4 * 4) = 5"
      using real_sqrt_abs2 [of "5::real"] by simp
    then show ?thesis by simp
  qed
  have e: "fst (getPickingPositionFromDepth (\<lambda>p. (3, 4, 0)) None 0 exampleWorld) = Some (3, 4, 0)"
    using b d by (simp add: getPickingPositionFromDepth_def Let_def)
  show ?thesis
    using a b c e picking_undefined [of exampleWorld 2 "\<lambda>p. (0, 0, 0)" None]
      picking_undefined [of exampleWorld 0 "\<lambda>p. (20000000, 0, 0)" None]
    by simp
qed

subsection \<open>Reading and removing layers\<close>

lemma getLayersFrom_filter:
  "getLayersFrom H f rs = filter (\<lambda>x. f (H x)) (getLayersFrom H (\<lambda>l. True) rs)"
  by (induction rs) simp_all

lemma getLayers_filter: "getLayers w v f = filter (\<lambda>x. f (layerHeap w x)) (allLayers w v)"
  unfolding getLayers_def allLayers_def by (rule getLayersFrom_filter)

lemma getLayersFrom_all:
  "getLayersFrom H (\<lambda>l. True) rs = concat (map (\<lambda>r. r # attachedLayers (H r)) rs)"
  by (induction rs) simp_all

lemma allLayers_concat:
  "allLayers w v = concat (map (\<lambda>r. r # attachedLayers (layerHeap w r)) (layers (viewHeap w v)))"
  by (simp add: allLayers_def getLayers_def getLayersFrom_all)

lemma filter_unique:
  "distinct (map g xs) \<Longrightarrow> l \<in> set xs \<Longrightarrow> filter (\<lambda>x. g x = g l) xs = [l]"
proof (induction xs)
  case Nil
  then show ?case by simp
next
  case (Cons x xs)
  show ?case
  proof (cases "x = l")
    case True
    with Cons.prems have "g l \<notin> g ` set xs" by simp
    then have "filter (\<lambda>y. g y = g l) xs = []" by (force simp: filter_empty_conv image_iff)
    with True show ?thesis by simp
  next
    case False
    with Cons.prems have "l \<in> set xs" and "g x \<noteq> g l" by auto
    with Cons show ?thesis by simp
  qed
qed

lemma getLayerById_unique:
  assumes "wfView w v" and "l \<in> set (allLayers w v)"
  shows "getLayerById w v (layerId (layerHeap w l)) = Some l"
proof -
  from assms have "filter (\<lambda>x. layerId (layerHeap w x) = layerId (layerHeap w l)) (allLayers w v) = [l]"
    by (intro filter_unique) (simp_all add: wfView_def)
  then show ?thesis by (simp add: getLayerById_def getLayers_filter)
qed

text \<open>What the state changes leave alone.\<close>

lemma emit_simps [simp]:
  "layerHeap (emit v es w) = layerHeap w"
  "sourceHeap (emit v es w) = sourceHeap w"
  "viewers (emit v es w) = viewers w"
  "layers (viewHeap (emit v es w) u) = layers (viewHeap w u)"
  "trace (viewHeap (emit v es w) v) = trace (viewHeap w v) @ es"
  "cameraSource (viewHeap (emit v es w) u) = cameraSource (viewHeap w u)"
  by (simp_all add: emit_def)

lemma notifyChange_simps [simp]:
  "layers (notifyChange c b V) = layers V"
  "trace (notifyChange c b V) = trace V @ [ScheduleViewUpdate b]"
  by (simp_all add: notifyChange_def scheduleViewUpdate_def Let_def split: option.split)

lemma notifyView_simps [simp]:
  "layerHeap (notifyView v c b w) = layerHeap w"
  "sourceHeap (notifyView v c b w) = sourceHeap w"
  "viewers (notifyView v c b w) = viewers w"
  "layers (viewHeap (notifyView v c b w) u) = layers (viewHeap w u)"
  "trace (viewHeap (notifyView v c b w) v) = trace (viewHeap w v) @ [ScheduleViewUpdate b]"
  by (simp_all add: notifyView_def)

lemma setLayer_simps [simp]:
  "viewHeap (setLayer l g w) = viewHeap w"
  "sourceHeap (setLayer l g w) = sourceHeap w"
  "viewers (setLayer l g w) = viewers w"
  "layerHeap (setLayer l g w) l = g (layerHeap w l)"
  "x \<noteq> l \<Longrightarrow> layerHeap (setLayer l g w) x = layerHeap w x"
  by (simp_all add: setLayer_def)

lemma getLayers_cong:
  assumes "layerHeap w' = layerHeap w" and "layers (viewHeap w' u) = layers (viewHeap w u)"
  shows "getLayers w' u f = getLayers w u f"
  using assms by (simp add: getLayers_def)

lemma getLayers_emit [simp]: "getLayers (emit v es w) u f = getLayers w u f"
  by (rule getLayers_cong) simp_all

lemma getLayers_notifyView [simp]: "getLayers (notifyView v c b w) u f = getLayers w u f"
  by (rule getLayers_cong) simp_all

lemma findIndex_ge: "- 1 \<le> findIndex p xs"
  by (induction xs) (simp_all add: Let_def)

lemma findIndex_none: "(\<forall>x \<in> set xs. \<not> p x) \<Longrightarrow> findIndex p xs = - 1"
  by (induction xs) (simp_all add: Let_def)

lemma findIndex_some: "\<exists>x \<in> set xs. p x \<Longrightarrow> 0 \<le> findIndex p xs \<and> findIndex p xs < int (length xs)"
proof (induction xs)
  case Nil
  then show ?case by simp
next
  case (Cons x xs)
  then show ?case by (cases "p x") (auto simp: Let_def)
qed

lemma splice1_0: "splice1 0 (x # xs) = xs"
  by (simp add: splice1_def)

lemma splice1_Suc:
  assumes "0 \<le> i"
  shows "splice1 (i + 1) (x # xs) = x # splice1 i xs"
proof -
  have "nat (min (i + 1) (1 + int (length xs))) = Suc (nat (min i (int (length xs))))"
    using assms by arith
  with assms show ?thesis by (simp add: splice1_def Let_def)
qed

lemma splice_findIndex:
  assumes "\<forall>x \<in> set xs. p x \<longleftrightarrow> x = l" and "l \<in> set xs"
  shows "splice1 (findIndex p xs) xs = remove1 l xs"
  using assms
proof (induction xs)
  case Nil
  then show ?case by simp
next
  case (Cons x xs)
  show ?case
  proof (cases "x = l")
    case True
    with Cons.prems show ?thesis by (simp add: splice1_0)
  next
    case False
    with Cons.prems have px: "\<not> p x" and l: "l \<in> set xs" and all: "\<forall>y \<in> set xs. p y \<longleftrightarrow> y = l"
      by auto
    from l all have ex: "\<exists>y \<in> set xs. p y" by auto
    have ge: "0 \<le> findIndex p xs" using findIndex_some [OF ex] by simp
    from px ge have "findIndex p (x # xs) = findIndex p xs + 1" by (simp add: Let_def)
    with ge Cons.IH [OF all l] False show ?thesis by (simp add: splice1_Suc)
  qed
qed

lemma concat_map_filter:
  "concat (map g (filter P xs)) = concat (map (\<lambda>x. if P x then g x else []) xs)"
  by (induction xs) simp_all

lemma distinct_roots:
  "distinct (concat (map (\<lambda>r. r # h r) rs)) \<Longrightarrow> distinct rs"
  by (induction rs) auto

lemma core_simps [simp]:
  "layerId (core x) = layerId x" "layerSource (core x) = layerSource x" "crs (core x) = crs x"
  "isColorLayer (core x) = isColorLayer x"
  by (simp_all add: core_def)

lemma core_eqD:
  assumes "core x = core y"
  shows "layerId x = layerId y" "layerSource x = layerSource y" "crs x = crs y"
    "isColorLayer x = isColorLayer y"
  using arg_cong [OF assms, of layerId] arg_cong [OF assms, of layerSource]
    arg_cong [OF assms, of crs] arg_cong [OF assms, of isColorLayer]
  by simp_all

text \<open>Facts of a well-formed view.\<close>

lemma wf_distinct_all: "wfView w v \<Longrightarrow> distinct (allLayers w v)"
  by (auto simp: wfView_def simp: distinct_map)

lemma wf_id_inj:
  "wfView w v \<Longrightarrow> x \<in> set (allLayers w v) \<Longrightarrow> y \<in> set (allLayers w v) \<Longrightarrow>
   layerId (layerHeap w x) = layerId (layerHeap w y) \<longleftrightarrow> x = y"
  by (auto simp: wfView_def distinct_map dest: inj_onD)

lemma allLayers_cases:
  "x \<in> set (allLayers w v) \<longleftrightarrow>
     x \<in> set (layers (viewHeap w v))
     \<or> (\<exists>r \<in> set (layers (viewHeap w v)). x \<in> set (attachedLayers (layerHeap w r)))"
  by (auto simp: allLayers_concat)

lemma wf_root_parent: "wfView w v \<Longrightarrow> r \<in> set (layers (viewHeap w v)) \<Longrightarrow> parent (layerHeap w r) = None"
  by (simp add: wfView_def)

lemma wf_attached_parent:
  "wfView w v \<Longrightarrow> r \<in> set (layers (viewHeap w v)) \<Longrightarrow> a \<in> set (attachedLayers (layerHeap w r)) \<Longrightarrow>
   parent (layerHeap w a) = Some r"
  by (simp add: wfView_def)

lemma wf_distinct_roots: "wfView w v \<Longrightarrow> distinct (layers (viewHeap w v))"
  using wf_distinct_all [of w v] by (auto simp: allLayers_concat dest: distinct_roots)

lemma unlink_root:
  assumes wf: "wfView w v" and l: "l \<in> set (layers (viewHeap w v))"
  shows "unlinkLayer v l (layerId (layerHeap w l)) (parent (layerHeap w l)) w
         = Inr (w\<lparr>viewHeap := (viewHeap w)(v := (viewHeap w v)\<lparr>layers := remove1 l (layers (viewHeap w v))\<rparr>)\<rparr>)"
proof -
  have p: "parent (layerHeap w l) = None" using wf l by (rule wf_root_parent)
  have "\<forall>x \<in> set (layers (viewHeap w v)). (layerId (layerHeap w x) = layerId (layerHeap w l)) \<longleftrightarrow> x = l"
  proof
    fix x assume x: "x \<in> set (layers (viewHeap w v))"
    from x l have "x \<in> set (allLayers w v)" "l \<in> set (allLayers w v)"
      by (simp_all add: allLayers_cases)
    then show "(layerId (layerHeap w x) = layerId (layerHeap w l)) \<longleftrightarrow> x = l"
      using wf by (simp add: wf_id_inj)
  qed
  then have "splice1 (findIndex (\<lambda>r. layerId (layerHeap w r) = layerId (layerHeap w l)) (layers (viewHeap w v)))
               (layers (viewHeap w v)) = remove1 l (layers (viewHeap w v))"
    using l by (rule splice_findIndex)
  with p show ?thesis by (simp add: unlinkLayer_def)
qed

lemma unlink_attached:
  assumes wf: "wfView w v" and r: "r \<in> set (layers (viewHeap w v))"
    and l: "l \<in> set (attachedLayers (layerHeap w r))"
  shows "unlinkLayer v l (layerId (layerHeap w l)) (parent (layerHeap w l)) w
         = Inr (setLayer l (\<lambda>x. x\<lparr>parent := None\<rparr>)
                  (setLayer r (\<lambda>x. x\<lparr>attachedLayers := filter (\<lambda>a. a \<noteq> l) (attachedLayers (layerHeap w r))\<rparr>) w))"
proof -
  have p: "parent (layerHeap w l) = Some r" using wf r l by (rule wf_attached_parent)
  have lall: "l \<in> set (allLayers w v)" using r l by (auto simp: allLayers_cases)
  have eq: "filter (\<lambda>a. layerId (layerHeap w a) \<noteq> layerId (layerHeap w l)) (attachedLayers (layerHeap w r))
        = filter (\<lambda>a. a \<noteq> l) (attachedLayers (layerHeap w r))"
  proof (rule filter_cong [OF refl])
    fix a assume "a \<in> set (attachedLayers (layerHeap w r))"
    with r have "a \<in> set (allLayers w v)" by (auto simp: allLayers_cases)
    with lall wf show "(layerId (layerHeap w a) \<noteq> layerId (layerHeap w l)) = (a \<noteq> l)"
      by (simp add: wf_id_inj)
  qed
  have less: "length (filter (\<lambda>a. a \<noteq> l) (attachedLayers (layerHeap w r))) < length (attachedLayers (layerHeap w r))"
    using l by (intro length_filter_less [of l]) simp_all
  show ?thesis using p eq less by (simp add: unlinkLayer_def detach_def Let_def)
qed

lemma allLayers_cong:
  assumes "\<And>x. attachedLayers (layerHeap w' x) = attachedLayers (layerHeap w x)"
    and "layers (viewHeap w' u) = layers (viewHeap w u)"
  shows "allLayers w' u = allLayers w u"
  using assms by (simp add: allLayers_concat)

lemma wfView_cong:
  assumes "layerHeap w' = layerHeap w" and "layers (viewHeap w' v) = layers (viewHeap w v)"
  shows "wfView w' v = wfView w v"
  using assms by (simp add: wfView_def allLayers_concat)

lemma allLayers_after_root:
  assumes wf: "wfView w v" and l: "l \<in> set (layers (viewHeap w v))"
  shows "concat (map (\<lambda>r. r # attachedLayers (layerHeap w r)) (remove1 l (layers (viewHeap w v))))
       = filter (\<lambda>x. x \<notin> insert l (set (attachedLayers (layerHeap w l)))) (allLayers w v)"
proof -
  let ?g = "\<lambda>r. r # attachedLayers (layerHeap w r)"
  let ?p = "\<lambda>x. x \<notin> insert l (set (attachedLayers (layerHeap w l)))"
  let ?rs = "layers (viewHeap w v)"
  have pl: "parent (layerHeap w l) = None" using wf l by (rule wf_root_parent)
  have "remove1 l ?rs = filter (\<lambda>y. l \<noteq> y) ?rs"
    using wf_distinct_roots [OF wf] by (simp add: distinct_remove1_removeAll removeAll_filter_not_eq)
  then have "concat (map ?g (remove1 l ?rs)) = concat (map (\<lambda>x. if l \<noteq> x then ?g x else []) ?rs)"
    by (simp add: concat_map_filter)
  also have "map (\<lambda>x. if l \<noteq> x then ?g x else []) ?rs = map (\<lambda>x. filter ?p (?g x)) ?rs"
  proof (rule map_cong [OF refl])
    fix r assume r: "r \<in> set ?rs"
    show "(if l \<noteq> r then ?g r else []) = filter ?p (?g r)"
    proof (cases "r = l")
      case True
      have "filter ?p (attachedLayers (layerHeap w l)) = []" by (simp add: filter_empty_conv)
      with True show ?thesis by simp
    next
      case False
      have pr: "parent (layerHeap w r) = None" using wf r by (rule wf_root_parent)
      have r1: "r \<notin> set (attachedLayers (layerHeap w l))"
      proof
        assume "r \<in> set (attachedLayers (layerHeap w l))"
        with wf l have "parent (layerHeap w r) = Some l" by (rule wf_attached_parent)
        with pr show False by simp
      qed
      have "filter ?p (attachedLayers (layerHeap w r)) = attachedLayers (layerHeap w r)"
      proof (rule filter_True, rule ballI)
        fix a assume a: "a \<in> set (attachedLayers (layerHeap w r))"
        with wf r have pa: "parent (layerHeap w a) = Some r" by (rule wf_attached_parent)
        have "a \<noteq> l" using pa pl by auto
        moreover have "a \<notin> set (attachedLayers (layerHeap w l))"
        proof
          assume "a \<in> set (attachedLayers (layerHeap w l))"
          with wf l have "parent (layerHeap w a) = Some l" by (rule wf_attached_parent)
          with pa False show False by simp
        qed
        ultimately show "?p a" by simp
      qed
      with False r1 show ?thesis by auto
    qed
  qed
  also have "concat (map (\<lambda>x. filter ?p (?g x)) ?rs) = filter ?p (allLayers w v)"
    by (simp add: allLayers_concat filter_concat comp_def)
  finally show ?thesis .
qed

lemma allLayers_after_attached:
  assumes wf: "wfView w v" and r: "r \<in> set (layers (viewHeap w v))"
    and l: "l \<in> set (attachedLayers (layerHeap w r))"
    and H: "\<And>x. attachedLayers (H x) =
              (if x = r then filter (\<lambda>a. a \<noteq> l) (attachedLayers (layerHeap w r))
               else attachedLayers (layerHeap w x))"
  shows "concat (map (\<lambda>x. x # attachedLayers (H x)) (layers (viewHeap w v)))
       = filter (\<lambda>x. x \<notin> {l}) (allLayers w v)"
proof -
  let ?g = "\<lambda>r. r # attachedLayers (layerHeap w r)"
  let ?rs = "layers (viewHeap w v)"
  have pl: "parent (layerHeap w l) = Some r" using wf r l by (rule wf_attached_parent)
  have "map (\<lambda>x. x # attachedLayers (H x)) ?rs = map (\<lambda>x. filter (\<lambda>x. x \<notin> {l}) (?g x)) ?rs"
  proof (rule map_cong [OF refl])
    fix x assume x: "x \<in> set ?rs"
    have px: "parent (layerHeap w x) = None" using wf x by (rule wf_root_parent)
    have xl: "x \<noteq> l" using px pl by auto
    show "x # attachedLayers (H x) = filter (\<lambda>x. x \<notin> {l}) (?g x)"
    proof (cases "x = r")
      case True
      with xl show ?thesis by (simp add: H)
    next
      case False
      have "l \<notin> set (attachedLayers (layerHeap w x))"
      proof
        assume "l \<in> set (attachedLayers (layerHeap w x))"
        with wf x have "parent (layerHeap w l) = Some x" by (rule wf_attached_parent)
        with pl False show False by simp
      qed
      then have "filter (\<lambda>y. y \<noteq> l) (attachedLayers (layerHeap w x)) = attachedLayers (layerHeap w x)"
        by (intro filter_True) auto
      with False xl show ?thesis by (simp add: H)
    qed
  qed
  then have "concat (map (\<lambda>x. x # attachedLayers (H x)) ?rs)
      = concat (map (\<lambda>x. filter (\<lambda>x. x \<notin> {l}) (?g x)) ?rs)"
    by (rule arg_cong)
  also have "\<dots> = filter (\<lambda>x. x \<notin> {l}) (allLayers w v)"
    by (simp add: allLayers_concat filter_concat comp_def)
  finally show ?thesis .
qed

lemma unlink_ok:
  assumes wf: "wfView w v" and l: "l \<in> set (allLayers w v)"
  shows "\<exists>w2. unlinkLayer v l (layerId (layerHeap w l)) (parent (layerHeap w l)) w = Inr w2
     \<and> allLayers w2 v = filter (\<lambda>x. x \<notin> removedLayers w v l) (allLayers w v)
     \<and> sourceHeap w2 = sourceHeap w \<and> viewers w2 = viewers w
     \<and> (\<forall>x. core (layerHeap w2 x) = core (layerHeap w x))
     \<and> (\<forall>x. sequence (layerHeap w2 x) = sequence (layerHeap w x))
     \<and> (\<forall>u. (viewHeap w2 u)\<lparr>layers := []\<rparr> = (viewHeap w u)\<lparr>layers := []\<rparr>)
     \<and> (\<forall>u. u \<noteq> v \<longrightarrow> layers (viewHeap w2 u) = layers (viewHeap w u))"
proof (cases "l \<in> set (layers (viewHeap w v))")
  case True
  let ?w2 = "w\<lparr>viewHeap := (viewHeap w)(v := (viewHeap w v)\<lparr>layers := remove1 l (layers (viewHeap w v))\<rparr>)\<rparr>"
  have u: "unlinkLayer v l (layerId (layerHeap w l)) (parent (layerHeap w l)) w = Inr ?w2"
    using wf True by (rule unlink_root)
  have "allLayers ?w2 v = concat (map (\<lambda>r. r # attachedLayers (layerHeap w r)) (remove1 l (layers (viewHeap w v))))"
    by (simp add: allLayers_concat)
  also have "\<dots> = filter (\<lambda>x. x \<notin> removedLayers w v l) (allLayers w v)"
    using allLayers_after_root [OF wf True] True by (simp add: removedLayers_def)
  finally have a: "allLayers ?w2 v = filter (\<lambda>x. x \<notin> removedLayers w v l) (allLayers w v)" .
  have f: "\<forall>u. (viewHeap ?w2 u)\<lparr>layers := []\<rparr> = (viewHeap w u)\<lparr>layers := []\<rparr>" by simp
  show ?thesis
    by (rule exI [of _ ?w2], intro conjI, rule u, rule a, simp, simp, simp, simp, rule f, simp)
next
  case False
  with l obtain r where r: "r \<in> set (layers (viewHeap w v))"
    and lr: "l \<in> set (attachedLayers (layerHeap w r))"
    by (auto simp: allLayers_cases)
  have rl: "r \<noteq> l" using r False by auto
  let ?w2 = "setLayer l (\<lambda>x. x\<lparr>parent := None\<rparr>)
                  (setLayer r (\<lambda>x. x\<lparr>attachedLayers := filter (\<lambda>a. a \<noteq> l) (attachedLayers (layerHeap w r))\<rparr>) w)"
  have u: "unlinkLayer v l (layerId (layerHeap w l)) (parent (layerHeap w l)) w = Inr ?w2"
    using wf r lr by (rule unlink_attached)
  have att: "\<And>x. attachedLayers (layerHeap ?w2 x) =
              (if x = r then filter (\<lambda>a. a \<noteq> l) (attachedLayers (layerHeap w r))
               else attachedLayers (layerHeap w x))"
    using rl by (simp add: setLayer_def)
  have "allLayers ?w2 v = concat (map (\<lambda>x. x # attachedLayers (layerHeap ?w2 x)) (layers (viewHeap w v)))"
    by (simp add: allLayers_concat)
  also have "\<dots> = filter (\<lambda>x. x \<notin> {l}) (allLayers w v)"
    using wf r lr att by (rule allLayers_after_attached)
  finally have a: "allLayers ?w2 v = filter (\<lambda>x. x \<notin> removedLayers w v l) (allLayers w v)"
    using False by (simp add: removedLayers_def)
  have c: "\<forall>x. core (layerHeap ?w2 x) = core (layerHeap w x)"
    by (simp add: setLayer_def core_def)
  have s: "\<forall>x. sequence (layerHeap ?w2 x) = sequence (layerHeap w x)"
    by (simp add: setLayer_def)
  show ?thesis
    by (rule exI [of _ ?w2], intro conjI, rule u, rule a, simp, simp, rule c, rule s, simp, simp)
qed

text \<open>The loop that renumbers the color layers.\<close>

lemma renumberLoop_frame [simp]:
  "viewHeap (renumberLoop l cs w) = viewHeap w"
  "sourceHeap (renumberLoop l cs w) = sourceHeap w"
  "viewers (renumberLoop l cs w) = viewers w"
  by (induction cs arbitrary: w) simp_all

lemma renumberLoop_heap:
  assumes "distinct cs" and "l \<notin> set cs"
  shows "layerHeap (renumberLoop l cs w) x =
           (if x \<in> set cs \<and> sequence (layerHeap w l) < sequence (layerHeap w x)
            then (layerHeap w x)\<lparr>sequence := sequence (layerHeap w x) - 1\<rparr>
            else layerHeap w x)"
  using assms
proof (induction cs arbitrary: w)
  case Nil
  then show ?case by simp
next
  case (Cons c cs)
  let ?w1 = "if sequence (layerHeap w l) < sequence (layerHeap w c)
             then setLayer c (\<lambda>x. x\<lparr>sequence := sequence x - 1\<rparr>) w else w"
  from Cons.prems have d: "distinct cs" and lc: "l \<notin> set cs" and cl: "c \<noteq> l" and ccs: "c \<notin> set cs"
    by auto
  have step: "renumberLoop l (c # cs) w = renumberLoop l cs ?w1" by simp
  have hl: "layerHeap ?w1 l = layerHeap w l" using cl by simp
  have hx: "\<And>y. y \<noteq> c \<Longrightarrow> layerHeap ?w1 y = layerHeap w y" by simp
  have hc: "layerHeap ?w1 c =
      (if sequence (layerHeap w l) < sequence (layerHeap w c)
       then (layerHeap w c)\<lparr>sequence := sequence (layerHeap w c) - 1\<rparr> else layerHeap w c)"
    by simp
  show ?case
  proof (cases "x = c")
    case True
    with ccs show ?thesis unfolding step Cons.IH [OF d lc] by (simp only: hc hl) simp
  next
    case False
    then show ?thesis unfolding step Cons.IH [OF d lc] by (simp only: hx [OF False] hl) simp
  qed
qed

lemma sharedSourceCount_cong:
  assumes "layerHeap w' = layerHeap w" and "sourceHeap w' = sourceHeap w" and "viewers w' = viewers w"
    and "\<And>u. layers (viewHeap w' u) = layers (viewHeap w u)"
  shows "sharedSourceCount l w' = sharedSourceCount l w"
proof -
  have "sameSourceAndCrs w' l = sameSourceAndCrs w l"
    using assms by (intro ext) (simp add: sameSourceAndCrs_def)
  with assms show ?thesis by (simp add: sharedSourceCount_def getLayers_def)
qed

lemma releaseAndNotify_simps [simp]:
  "layerHeap (releaseAndNotify v l X w) = layerHeap w"
  "sourceHeap (releaseAndNotify v l X w) = sourceHeap w"
  "viewers (releaseAndNotify v l X w) = viewers w"
  "layers (viewHeap (releaseAndNotify v l X w) u) = layers (viewHeap w u)"
  "trace (viewHeap (releaseAndNotify v l X w) v) = trace (viewHeap w v) @
     [OnLayerRemoved (layerSource (layerHeap w l)) (if sharedSourceCount l w = 0 then crs (layerHeap w l) else None),
      ScheduleViewUpdate True, DispatchEvent ''layer-removed'' (Some X)]"
  by (simp_all add: releaseAndNotify_def Let_def)

lemma sharedSourceCount_release [simp]:
  "sharedSourceCount l (releaseAndNotify v l' X w) = sharedSourceCount l w"
  by (rule sharedSourceCount_cong) simp_all

lemma allLayers_release [simp]: "allLayers (releaseAndNotify v l X w) u = allLayers w u"
  by (rule allLayers_cong) simp_all

lemma renumberColorLayers_frame [simp]:
  "viewHeap (renumberColorLayers v l w) = viewHeap w"
  "sourceHeap (renumberColorLayers v l w) = sourceHeap w"
  "viewers (renumberColorLayers v l w) = viewers w"
  by (simp_all add: renumberColorLayers_def)

lemma renumberColorLayers_heap:
  assumes d: "distinct (allLayers w v)" and l: "l \<notin> set (allLayers w v)"
  shows "layerHeap (renumberColorLayers v l w) x =
           (if isColorLayer (layerHeap w l) \<and> x \<in> set (allLayers w v) \<and> isColorLayer (layerHeap w x)
               \<and> sequence (layerHeap w l) < sequence (layerHeap w x)
            then (layerHeap w x)\<lparr>sequence := sequence (layerHeap w x) - 1\<rparr>
            else layerHeap w x)"
proof -
  have "distinct (getLayers w v isColorLayer)" "l \<notin> set (getLayers w v isColorLayer)"
    using d l by (simp_all add: getLayers_filter)
  then have "layerHeap (renumberLoop l (getLayers w v isColorLayer) w) x =
           (if x \<in> set (getLayers w v isColorLayer) \<and> sequence (layerHeap w l) < sequence (layerHeap w x)
            then (layerHeap w x)\<lparr>sequence := sequence (layerHeap w x) - 1\<rparr>
            else layerHeap w x)"
    by (rule renumberLoop_heap)
  then show ?thesis
    by (cases "isColorLayer (layerHeap w l)") (auto simp: renumberColorLayers_def getLayers_filter)
qed

lemma removeLayerBody_ok:
  assumes wf: "wfView w v" and l: "l \<in> set (allLayers w v)"
  shows "\<exists>w'. removeLayerBody v (layerId (layerHeap w l)) c w = Inr w'
    \<and> allLayers w' v = filter (\<lambda>x. x \<notin> removedLayers w v l) (allLayers w v)
    \<and> sourceHeap w' = sourceHeap w \<and> viewers w' = viewers w
    \<and> (\<forall>x. core (layerHeap w' x) = core (layerHeap w x))
    \<and> (\<forall>x \<in> set (allLayers w' v). sequence (layerHeap w' x) =
          (if isColorLayer (layerHeap w l) \<and> isColorLayer (layerHeap w x)
               \<and> sequence (layerHeap w l) < sequence (layerHeap w x)
           then sequence (layerHeap w x) - 1 else sequence (layerHeap w x)))
    \<and> trace (viewHeap w' v) = trace (viewHeap w v) @
         [LayerDelete l c,
          OnLayerRemoved (layerSource (layerHeap w l))
            (if sharedSourceCount l w' = 0 then crs (layerHeap w l) else None),
          ScheduleViewUpdate True,
          DispatchEvent ''layer-removed'' (Some (layerId (layerHeap w l)))]"
proof -
  let ?X = "layerId (layerHeap w l)"
  let ?w1 = "layerDelete v l c w"
  have h1: "layerHeap ?w1 = layerHeap w" and a1: "allLayers ?w1 v = allLayers w v"
    and t1: "trace (viewHeap ?w1 v) = trace (viewHeap w v) @ [LayerDelete l c]"
    and r1: "removedLayers ?w1 v l = removedLayers w v l"
    by (simp_all add: layerDelete_def allLayers_def removedLayers_def)
  have "wfView ?w1 v = wfView w v" by (rule wfView_cong) (simp_all add: layerDelete_def)
  with wf have wf1: "wfView ?w1 v" by simp
  from unlink_ok [OF wf1, of l] l obtain w2 where
    u: "unlinkLayer v l ?X (parent (layerHeap w l)) ?w1 = Inr w2"
    and a2: "allLayers w2 v = filter (\<lambda>x. x \<notin> removedLayers w v l) (allLayers w v)"
    and s2: "sourceHeap w2 = sourceHeap w" and v2: "viewers w2 = viewers w"
    and c2: "\<And>x. core (layerHeap w2 x) = core (layerHeap w x)"
    and q2: "\<And>x. sequence (layerHeap w2 x) = sequence (layerHeap w x)"
    and f2: "\<And>u. (viewHeap w2 u)\<lparr>layers := []\<rparr> = (viewHeap ?w1 u)\<lparr>layers := []\<rparr>"
    unfolding h1 a1 r1 by (auto simp: layerDelete_def)
  have t2: "trace (viewHeap w2 v) = trace (viewHeap w v) @ [LayerDelete l c]"
    using arg_cong [OF f2 [of v], of trace] t1 by simp
  have d2: "distinct (allLayers w2 v)" unfolding a2 using wf_distinct_all [OF wf] by simp
  have l2: "l \<notin> set (allLayers w2 v)" unfolding a2 by (simp add: removedLayers_def)
  let ?w3 = "renumberColorLayers v l w2"
  have h3: "\<And>x. layerHeap ?w3 x =
           (if isColorLayer (layerHeap w2 l) \<and> x \<in> set (allLayers w2 v) \<and> isColorLayer (layerHeap w2 x)
               \<and> sequence (layerHeap w2 l) < sequence (layerHeap w2 x)
            then (layerHeap w2 x)\<lparr>sequence := sequence (layerHeap w2 x) - 1\<rparr>
            else layerHeap w2 x)"
    using d2 l2 by (rule renumberColorLayers_heap)
  have col: "\<And>x. isColorLayer (layerHeap w2 x) = isColorLayer (layerHeap w x)"
    using c2 by (rule core_eqD)
  have a3: "allLayers ?w3 v = allLayers w2 v"
    by (rule allLayers_cong) (simp_all add: h3)
  have c3: "\<And>x. core (layerHeap ?w3 x) = core (layerHeap w x)"
    unfolding h3 using c2 by (simp add: core_def)
  have q3: "\<And>x. x \<in> set (allLayers w2 v) \<Longrightarrow> sequence (layerHeap ?w3 x) =
          (if isColorLayer (layerHeap w l) \<and> isColorLayer (layerHeap w x)
               \<and> sequence (layerHeap w l) < sequence (layerHeap w x)
           then sequence (layerHeap w x) - 1 else sequence (layerHeap w x))"
    unfolding h3 by (simp add: col q2)
  have src: "layerSource (layerHeap ?w3 l) = layerSource (layerHeap w l)"
    and crs: "crs (layerHeap ?w3 l) = crs (layerHeap w l)"
    using core_eqD [OF c3 [of l]] by simp_all
  let ?w' = "releaseAndNotify v l ?X ?w3"
  have r: "removeLayerBody v ?X c w = Inr ?w'"
    using getLayerById_unique [OF wf l] u by (simp add: removeLayerBody_def)
  show ?thesis
    apply (rule exI [of _ ?w'])
    apply (intro conjI)
          apply (rule r)
         apply (simp add: a3 a2)
        apply (simp add: s2)
       apply (simp add: v2)
      apply (simp add: c3)
     apply (simp add: a3 q3)
    apply (simp add: t2 src crs)
    done
qed

lemma onLayerRemovedCalls_append:
  "onLayerRemovedCalls (t @ u) = onLayerRemovedCalls t @ onLayerRemovedCalls u"
  by (induction t rule: onLayerRemovedCalls.induct) simp_all

lemma sharedSourceCount_0:
  "sharedSourceCount l w = 0 \<longleftrightarrow>
     (\<forall>u \<in> set (viewers w). \<forall>x \<in> set (allLayers w u).
        \<not> (uid (sourceHeap w (layerSource (layerHeap w x))) = uid (sourceHeap w (layerSource (layerHeap w l)))
           \<and> crs (layerHeap w x) = crs (layerHeap w l)))"
  by (simp add: sharedSourceCount_def getLayers_filter filter_empty_conv sameSourceAndCrs_def)

lemma setListeners_simps [simp]:
  "layerHeap (setListeners v ls w) = layerHeap w"
  "sourceHeap (setListeners v ls w) = sourceHeap w"
  "viewers (setListeners v ls w) = viewers w"
  "layers (viewHeap (setListeners v ls w) u) = layers (viewHeap w u)"
  "trace (viewHeap (setListeners v ls w) u) = trace (viewHeap w u)"
  "labelListeners (viewHeap (setListeners v ls w) v) = ls"
  "setListeners v ls (setListeners v ls' w) = setListeners v ls w"
  by (simp_all add: setListeners_def)

lemma allLayers_setListeners [simp]: "allLayers (setListeners v ls w) u = allLayers w u"
  by (rule allLayers_cong) simp_all

lemma sharedSourceCount_setListeners [simp]:
  "sharedSourceCount l (setListeners v ls w) = sharedSourceCount l w"
  by (rule sharedSourceCount_cong) simp_all

lemma releaseAndNotify_listeners [simp]:
  "labelListeners (viewHeap (releaseAndNotify v l X w) u) = labelListeners (viewHeap w u)"
  by (auto simp: releaseAndNotify_def Let_def emit_def notifyView_def notifyChange_def
      scheduleViewUpdate_def)

lemma splice1_subset: "set (splice1 i xs) \<subseteq> set xs"
  by (auto simp: splice1_def Let_def dest: in_set_takeD in_set_dropD)

lemma allLayers_mono:
  assumes "\<And>x. set (attachedLayers (layerHeap w' x)) \<subseteq> set (attachedLayers (layerHeap w x))"
    and "set (layers (viewHeap w' u)) \<subseteq> set (layers (viewHeap w u))"
  shows "set (allLayers w' u) \<subseteq> set (allLayers w u)"
  using assms unfolding allLayers_concat by auto

lemma unlinkLayer_frame:
  assumes "unlinkLayer v l X po w = Inr w1"
  shows "viewers w1 = viewers w
    \<and> labelListeners (viewHeap w1 u) = labelListeners (viewHeap w u)
    \<and> trace (viewHeap w1 u) = trace (viewHeap w u)
    \<and> layerId (layerHeap w1 x) = layerId (layerHeap w x)
    \<and> set (attachedLayers (layerHeap w1 x)) \<subseteq> set (attachedLayers (layerHeap w x))
    \<and> set (layers (viewHeap w1 u)) \<subseteq> set (layers (viewHeap w u))"
  using assms splice1_subset [of "findIndex (\<lambda>r. layerId (layerHeap w r) = X) (layers (viewHeap w v))"
      "layers (viewHeap w v)"]
  by (cases po; auto simp: unlinkLayer_def detach_def setLayer_def Let_def split: if_splits)

lemma renumberLoop_keeps:
  "attachedLayers (layerHeap (renumberLoop l cs w) x) = attachedLayers (layerHeap w x)
   \<and> layerId (layerHeap (renumberLoop l cs w) x) = layerId (layerHeap w x)"
  by (induction cs arbitrary: w) (simp_all add: setLayer_def)

lemma renumberColorLayers_keeps:
  "attachedLayers (layerHeap (renumberColorLayers v l w) x) = attachedLayers (layerHeap w x)"
  "layerId (layerHeap (renumberColorLayers v l w) x) = layerId (layerHeap w x)"
  by (simp_all add: renumberColorLayers_def renumberLoop_keeps)

lemma removeLayerBody_frame:
  assumes "removeLayerBody v X c w = Inr w1"
  shows "viewers w1 = viewers w"
    and "labelListeners (viewHeap w1 u) = labelListeners (viewHeap w u)"
    and "\<exists>t. trace (viewHeap w1 v) = trace (viewHeap w v) @ t"
    and "layerId (layerHeap w1 x) = layerId (layerHeap w x)"
    and "set (allLayers w1 u) \<subseteq> set (allLayers w u)"
proof -
  from assms obtain l w2 where
    u: "unlinkLayer v l X (parent (layerHeap w l)) (layerDelete v l c w) = Inr w2"
    and w1: "w1 = releaseAndNotify v l X (renumberColorLayers v l w2)"
    by (auto simp: removeLayerBody_def Let_def split: option.splits sum.splits)
  have g: "viewers w2 = viewers (layerDelete v l c w)
    \<and> labelListeners (viewHeap w2 u) = labelListeners (viewHeap (layerDelete v l c w) u)
    \<and> trace (viewHeap w2 u) = trace (viewHeap (layerDelete v l c w) u)
    \<and> layerId (layerHeap w2 x) = layerId (layerHeap (layerDelete v l c w) x)
    \<and> set (attachedLayers (layerHeap w2 x)) \<subseteq> set (attachedLayers (layerHeap (layerDelete v l c w) x))
    \<and> set (layers (viewHeap w2 u)) \<subseteq> set (layers (viewHeap (layerDelete v l c w) u))" for u x
    by (rule unlinkLayer_frame [OF u])
  have f: "viewers w2 = viewers (layerDelete v l c w)"
    "\<And>u. labelListeners (viewHeap w2 u) = labelListeners (viewHeap (layerDelete v l c w) u)"
    "\<And>u. trace (viewHeap w2 u) = trace (viewHeap (layerDelete v l c w) u)"
    "\<And>x. layerId (layerHeap w2 x) = layerId (layerHeap (layerDelete v l c w) x)"
    "\<And>x. set (attachedLayers (layerHeap w2 x)) \<subseteq> set (attachedLayers (layerHeap (layerDelete v l c w) x))"
    "\<And>u. set (layers (viewHeap w2 u)) \<subseteq> set (layers (viewHeap (layerDelete v l c w) u))"
    using g by simp_all
  show "viewers w1 = viewers w" using f(1) by (simp add: w1 layerDelete_def)
  show "labelListeners (viewHeap w1 u) = labelListeners (viewHeap w u)"
    using f(2) [of u] by (simp add: w1 layerDelete_def emit_def)
  show "\<exists>t. trace (viewHeap w1 v) = trace (viewHeap w v) @ t"
    using f(3) [of v] by (simp add: w1 layerDelete_def)
  show "layerId (layerHeap w1 x) = layerId (layerHeap w x)"
    using f(4) [of x] by (simp add: w1 renumberColorLayers_keeps layerDelete_def)
  have "set (allLayers w1 u) \<subseteq> set (allLayers (layerDelete v l c w) u)"
    unfolding w1 allLayers_release
    by (rule allLayers_mono) (use f(5) f(6) in \<open>simp_all add: renumberColorLayers_keeps\<close>)
  also have "allLayers (layerDelete v l c w) u = allLayers w u"
    by (rule allLayers_cong) (simp_all add: layerDelete_def)
  finally show "set (allLayers w1 u) \<subseteq> set (allLayers w u)" .
qed

lemma runLabelListeners_rel:
  assumes step: "\<And>lab w w'. rm lab w = Inr w' \<Longrightarrow> R w w'"
    and refl: "\<And>w. R w w"
    and trans: "\<And>a b c. R a b \<Longrightarrow> R b c \<Longrightarrow> R a c"
    and rl: "\<And>ls w. R w (setListeners v ls w)"
  shows "runLabelListeners rm v X ls w = Inr w' \<Longrightarrow> R w w'"
proof (induction ls arbitrary: w)
  case Nil
  then show ?case by (simp add: refl)
next
  case (Cons p ls)
  obtain l lab where p: "p = (l, lab)" by (cases p)
  from Cons.prems obtain w1 where
    a: "(if X = layerId (layerHeap w l) then rm lab w else Inr w) = Inr w1"
    and b: "runLabelListeners rm v X ls (removeListener v (l, lab) w1) = Inr w'"
    unfolding p by (auto split: sum.splits)
  from a have "R w w1" by (auto split: if_splits intro: step refl)
  moreover have "R w1 (removeListener v (l, lab) w1)" unfolding removeListener_def by (rule rl)
  moreover have "R (removeListener v (l, lab) w1) w'" using b by (rule Cons.IH)
  ultimately show ?case by (blast intro: trans)
qed

lemma removeLayer_rel:
  assumes body: "\<And>X c w w'. removeLayerBody v X c w = Inr w' \<Longrightarrow> R w w'"
    and refl: "\<And>w. R w w"
    and trans: "\<And>a b c. R a b \<Longrightarrow> R b c \<Longrightarrow> R a c"
    and rl: "\<And>ls w. R w (setListeners v ls w)"
  shows "removeLayer d v X c w = Inr w' \<Longrightarrow> R w w'"
proof (induction d arbitrary: X c w w')
  case 0
  then show ?case by simp
next
  case (Suc d)
  from Suc.prems obtain w1 where
    a: "removeLayerBody v X c w = Inr w1"
    and b: "runLabelListeners (\<lambda>labelId. removeLayer d v labelId False) v X
              (labelListeners (viewHeap w1 v)) w1 = Inr w'"
    by (auto split: sum.splits)
  have "R w1 w'"
    by (rule runLabelListeners_rel [OF _ refl trans rl b]) (rule Suc.IH)
  with body [OF a] show ?case by (rule trans)
qed

lemma removeLayer_frame:
  assumes "removeLayer d v X c w = Inr w'"
  shows "viewers w' = viewers w"
    and "\<exists>t. trace (viewHeap w' v) = trace (viewHeap w v) @ t"
    and "set (allLayers w' v) \<subseteq> set (allLayers w v)"
proof -
  have "viewers w' = viewers w
      \<and> (\<exists>t. trace (viewHeap w' v) = trace (viewHeap w v) @ t)
      \<and> set (allLayers w' v) \<subseteq> set (allLayers w v)"
  proof (rule removeLayer_rel [where R = "\<lambda>w w'. viewers w' = viewers w
      \<and> (\<exists>t. trace (viewHeap w' v) = trace (viewHeap w v) @ t)
      \<and> set (allLayers w' v) \<subseteq> set (allLayers w v)", OF _ _ _ _ assms])
    fix X c w w' assume "removeLayerBody v X c w = Inr w'"
    from removeLayerBody_frame(1,3,5) [OF this]
    show "viewers w' = viewers w
      \<and> (\<exists>t. trace (viewHeap w' v) = trace (viewHeap w v) @ t)
      \<and> set (allLayers w' v) \<subseteq> set (allLayers w v)" by blast
  next
    fix a b c :: world
    assume "viewers b = viewers a
      \<and> (\<exists>t. trace (viewHeap b v) = trace (viewHeap a v) @ t)
      \<and> set (allLayers b v) \<subseteq> set (allLayers a v)"
      and "viewers c = viewers b
      \<and> (\<exists>t. trace (viewHeap c v) = trace (viewHeap b v) @ t)
      \<and> set (allLayers c v) \<subseteq> set (allLayers b v)"
    then show "viewers c = viewers a
      \<and> (\<exists>t. trace (viewHeap c v) = trace (viewHeap a v) @ t)
      \<and> set (allLayers c v) \<subseteq> set (allLayers a v)" by auto
  qed simp_all
  then show "viewers w' = viewers w"
    and "\<exists>t. trace (viewHeap w' v) = trace (viewHeap w v) @ t"
    and "set (allLayers w' v) \<subseteq> set (allLayers w v)" by blast+
qed

lemma remove_each: "foldl (\<lambda>L p. remove1 p L) (xs @ zs) xs = zs"
  by (induction xs) simp_all

lemma runLabelListeners_idle:
  assumes "\<forall>p \<in> set ls. layerId (layerHeap w (fst p)) \<noteq> X"
  shows "runLabelListeners rm v X ls w =
     Inr (setListeners v (foldl (\<lambda>L p. remove1 p L) (labelListeners (viewHeap w v)) ls) w)"
  using assms
proof (induction ls arbitrary: w)
  case Nil
  show ?case by (simp add: setListeners_def)
next
  case (Cons p ls)
  obtain l lab where p: "p = (l, lab)" by (cases p)
  from Cons.prems have n: "X \<noteq> layerId (layerHeap w l)"
    and r: "\<forall>q \<in> set ls. layerId (layerHeap (removeListener v (l, lab) w) (fst q)) \<noteq> X"
    unfolding p by (auto simp: removeListener_def)
  show ?case unfolding p using n Cons.IH [OF r] by (simp add: removeListener_def)
qed

lemma removeLayer_idle:
  assumes b: "removeLayerBody v X c w = Inr wm" and n: "\<not> listenerWaits w v X"
  shows "removeLayer (Suc d) v X c w = Inr (setListeners v [] wm)"
proof -
  have "\<forall>p \<in> set (labelListeners (viewHeap wm v)). layerId (layerHeap wm (fst p)) \<noteq> X"
    using n removeLayerBody_frame(2,4) [OF b] by (auto simp: listenerWaits_def)
  from runLabelListeners_idle [OF this] b show ?thesis
    using remove_each [of "labelListeners (viewHeap wm v)" "[]"] by simp
qed


lemma removeLayer_after_body:
  assumes "removeLayer d v X c w = Inr w'"
  shows "\<exists>wm t. removeLayerBody v X c w = Inr wm
     \<and> trace (viewHeap w' v) = trace (viewHeap wm v) @ t
     \<and> set (allLayers w' v) \<subseteq> set (allLayers wm v)"
proof (cases d)
  case 0
  with assms show ?thesis by simp
next
  case (Suc k)
  with assms obtain wm where
    a: "removeLayerBody v X c w = Inr wm"
    and b: "runLabelListeners (\<lambda>labelId. removeLayer k v labelId False) v X
              (labelListeners (viewHeap wm v)) wm = Inr w'"
    by (auto split: sum.splits)
  have "(\<exists>t. trace (viewHeap w' v) = trace (viewHeap wm v) @ t)
      \<and> set (allLayers w' v) \<subseteq> set (allLayers wm v)"
  proof (rule runLabelListeners_rel [where R = "\<lambda>w w'.
      (\<exists>t. trace (viewHeap w' v) = trace (viewHeap w v) @ t)
      \<and> set (allLayers w' v) \<subseteq> set (allLayers w v)", OF _ _ _ _ b])
    fix lab w w' assume "removeLayer k v lab False w = Inr w'"
    from removeLayer_frame(2,3) [OF this]
    show "(\<exists>t. trace (viewHeap w' v) = trace (viewHeap w v) @ t)
      \<and> set (allLayers w' v) \<subseteq> set (allLayers w v)" by blast
  next
    fix a b c :: world
    assume "(\<exists>t. trace (viewHeap b v) = trace (viewHeap a v) @ t)
      \<and> set (allLayers b v) \<subseteq> set (allLayers a v)"
      and "(\<exists>t. trace (viewHeap c v) = trace (viewHeap b v) @ t)
      \<and> set (allLayers c v) \<subseteq> set (allLayers b v)"
    then show "(\<exists>t. trace (viewHeap c v) = trace (viewHeap a v) @ t)
      \<and> set (allLayers c v) \<subseteq> set (allLayers a v)" by auto
  qed simp_all
  with a show ?thesis by blast
qed

text \<open>
  C1, as the code has it. In a well-formed view (the ids of its layers pairwise
  different, the parent links matching the attachment), \<open>removeLayer(L.id)\<close> for
  a layer \<open>L\<close> of the view takes \<open>L\<close> out of the view and then calls
  \<open>onLayerRemoved\<close> on the source of \<open>L\<close>, once, before it dispatches
  \<open>layer-removed\<close>. The \<open>unusedCrs\<close> it passes is the CRS of \<open>L\<close> when, with \<open>L\<close>
  deleted and detached, no layer of any view of the registry has a source with
  the uid of the source of \<open>L\<close> and the CRS of \<open>L\<close>; it is \<open>undefined\<close> otherwise.
  Whenever \<open>removeLayer\<close> returns, \<open>L\<close> is out of the view and that call is the
  first one made; the listeners of label layers may have made others after it.
  When no label listener waits for the removal of \<open>L\<close>, \<open>removeLayer\<close> returns and
  that call is the only one.
\<close>

theorem removeLayer_cache_release:
  assumes "wfView w v" and "l \<in> set (allLayers w v)"
  shows "\<exists>wm unusedCrs.
     removeLayerBody v (layerId (layerHeap w l)) clearCache w = Inr wm
     \<and> l \<notin> set (allLayers wm v)
     \<and> unusedCrs =
         (if (\<forall>u \<in> set (viewers wm). \<forall>x \<in> set (allLayers wm u).
                \<not> (uid (sourceHeap wm (layerSource (layerHeap wm x)))
                      = uid (sourceHeap wm (layerSource (layerHeap wm l)))
                   \<and> crs (layerHeap wm x) = crs (layerHeap wm l)))
          then crs (layerHeap w l) else None)
     \<and> onLayerRemovedCalls (trace (viewHeap wm v))
         = onLayerRemovedCalls (trace (viewHeap w v)) @ [(layerSource (layerHeap w l), unusedCrs)]
     \<and> (removeLayer d v (layerId (layerHeap w l)) clearCache w = Inr w' \<longrightarrow>
          l \<notin> set (allLayers w' v)
          \<and> (\<exists>rest. onLayerRemovedCalls (trace (viewHeap w' v))
                = onLayerRemovedCalls (trace (viewHeap w v))
                  @ (layerSource (layerHeap w l), unusedCrs) # rest))
     \<and> (\<not> listenerWaits w v (layerId (layerHeap w l)) \<longrightarrow>
          removeLayer (Suc k) v (layerId (layerHeap w l)) clearCache w = Inr (setListeners v [] wm))"
proof -
  let ?X = "layerId (layerHeap w l)"
  from removeLayerBody_ok [OF assms, of clearCache] obtain wm where
    r: "removeLayerBody v ?X clearCache w = Inr wm"
    and a: "allLayers wm v = filter (\<lambda>x. x \<notin> removedLayers w v l) (allLayers w v)"
    and t: "trace (viewHeap wm v) = trace (viewHeap w v) @
         [LayerDelete l clearCache,
          OnLayerRemoved (layerSource (layerHeap w l))
            (if sharedSourceCount l wm = 0 then crs (layerHeap w l) else None),
          ScheduleViewUpdate True,
          DispatchEvent ''layer-removed'' (Some (layerId (layerHeap w l)))]"
    by blast
  let ?u = "if sharedSourceCount l wm = 0 then crs (layerHeap w l) else None"
  have 1: "l \<notin> set (allLayers wm v)" unfolding a by (simp add: removedLayers_def)
  have 2: "?u = (if (\<forall>u \<in> set (viewers wm). \<forall>x \<in> set (allLayers wm u).
                \<not> (uid (sourceHeap wm (layerSource (layerHeap wm x)))
                      = uid (sourceHeap wm (layerSource (layerHeap wm l)))
                   \<and> crs (layerHeap wm x) = crs (layerHeap wm l)))
          then crs (layerHeap w l) else None)"
    by (simp only: sharedSourceCount_0)
  have 3: "onLayerRemovedCalls (trace (viewHeap wm v))
         = onLayerRemovedCalls (trace (viewHeap w v)) @ [(layerSource (layerHeap w l), ?u)]"
    by (simp add: t onLayerRemovedCalls_append)
  have 4: "removeLayer d v ?X clearCache w = Inr w' \<longrightarrow>
          l \<notin> set (allLayers w' v)
          \<and> (\<exists>rest. onLayerRemovedCalls (trace (viewHeap w' v))
                = onLayerRemovedCalls (trace (viewHeap w v))
                  @ (layerSource (layerHeap w l), ?u) # rest)"
  proof
    assume "removeLayer d v ?X clearCache w = Inr w'"
    from removeLayer_after_body [OF this] r obtain t' where
      t': "trace (viewHeap w' v) = trace (viewHeap wm v) @ t'"
      and s: "set (allLayers w' v) \<subseteq> set (allLayers wm v)"
      by auto
    from s 1 have "l \<notin> set (allLayers w' v)" by blast
    moreover have "onLayerRemovedCalls (trace (viewHeap w' v))
                = onLayerRemovedCalls (trace (viewHeap w v))
                  @ (layerSource (layerHeap w l), ?u) # onLayerRemovedCalls t'"
      unfolding t' by (simp add: onLayerRemovedCalls_append 3)
    ultimately show "l \<notin> set (allLayers w' v)
          \<and> (\<exists>rest. onLayerRemovedCalls (trace (viewHeap w' v))
                = onLayerRemovedCalls (trace (viewHeap w v))
                  @ (layerSource (layerHeap w l), ?u) # rest)"
      by blast
  qed
  have 5: "\<not> listenerWaits w v ?X \<longrightarrow>
          removeLayer (Suc k) v ?X clearCache w = Inr (setListeners v [] wm)"
    using removeLayer_idle [OF r] by blast
  show ?thesis
    apply (rule exI [of _ wm])
    apply (rule exI [of _ ?u])
    apply (intro conjI)
         apply (rule r)
        apply (rule 1)
       apply (rule 2)
      apply (rule 3)
     apply (rule 4)
    apply (rule 5)
    done
qed

lemma exampleWorld_wf0: "wfView exampleWorld 0"
  by (simp add: wfView_def allLayers_concat exampleWorld_def exampleLayers_def exampleView_def
      globeLayer_def colorLayer_def exampleLayer_def)

lemma exampleWorld_all0: "allLayers exampleWorld 0 = [1, 2, 3]"
  by (simp add: allLayers_concat exampleWorld_def exampleLayers_def exampleView_def
      globeLayer_def colorLayer_def exampleLayer_def)

lemmas example_defs = exampleWorld_def exampleLayers_def exampleSources_def exampleView_def
  globeLayer_def colorLayer_def exampleLayer_def exampleSource_def

lemmas addLayer_defs = addLayer_def preprocessLayer_def inheritExtent_def assignCrs_def falsy_def
  includesCrs_def labelEffects_def attach_def sceneAdd_def pushLayer_def reject_def
  addLabelListener_def getsLabelLayer_def

lemmas removeLayer_defs = removeLayerBody_def getLayerById_def getLayers_def unlinkLayer_def detach_def
  layerDelete_def emit_def setLayer_def renumberColorLayers_def releaseAndNotify_def
  sharedSourceCount_def sameSourceAndCrs_def notifyView_def notifyChange_def scheduleViewUpdate_def
  splice1_def Let_def removeListener_def setListeners_def

text \<open>
  The listener of a label layer at work. \<open>roads\<close> asks for a label layer and is
  added under \<open>globe\<close>, which registers the listener; its label layer is added
  as a root layer. \<open>removeLayer\<close> of \<open>roads\<close> then removes the label layer too, in
  a nested call, and \<open>onLayerRemoved\<close> is called twice on the source they share.
  While the label layer is not in the view, the nested call throws, and so does
  \<open>removeLayer\<close> of \<open>roads\<close>.
\<close>

lemma removeLayer_label_listener:
  "(case runOperations (Suc 0) 0 [AddLayer 2 (Some 1), AddLayer 3 None] labelWorld of
      Inl e \<Rightarrow> False
    | Inr w \<Rightarrow>
        getLayers w 0 (\<lambda>x. True) = [1, 2, 3]
        \<and> labelListeners (viewHeap w 0) = [(2, ''roads-label'')]
        \<and> listenerWaits w 0 ''roads''
        \<and> removeLayer (Suc 0) 0 ''roads'' False w
            = Inl (RangeError ''Maximum call stack size exceeded'')
        \<and> (case removeLayer (Suc (Suc 0)) 0 ''roads'' False w of
              Inl e \<Rightarrow> False
            | Inr w' \<Rightarrow> getLayers w' 0 (\<lambda>x. True) = [1]
                \<and> labelListeners (viewHeap w' 0) = []
                \<and> onLayerRemovedCalls (trace (viewHeap w' 0))
                    = [(10, None), (10, Some ''EPSG:4326'')]))
   \<and> (case runOperations (Suc 0) 0 [AddLayer 2 (Some 1)] labelWorld of
      Inl e \<Rightarrow> False
    | Inr w \<Rightarrow>
        getLayers w 0 (\<lambda>x. True) = [1, 2]
        \<and> removeLayer (Suc (Suc 0)) 0 ''roads'' False w
            = Inl (Error ''roads-label doesn't exist''))"
  by (simp add: labelWorld_def example_defs removeLayer_defs addLayer_defs allLayers_def
      listenerWaits_def)

theorem removeLayer_cache_release_witness:
  "wfView exampleWorld 0 \<and> 2 \<in> set (allLayers exampleWorld 0)
   \<and> layerId (layerHeap exampleWorld 2) = ''ortho''
   \<and> \<not> listenerWaits exampleWorld 0 ''ortho''
   \<and> (\<exists>w1. removeLayer (Suc 0) 0 ''ortho'' False exampleWorld = Inr w1
         \<and> 2 \<notin> set (allLayers w1 0)
         \<and> (\<exists>unusedCrs. onLayerRemovedCalls (trace (viewHeap w1 0)) = [(10, unusedCrs)]))
   \<and> (case removeLayer (Suc 0) 0 ''ortho'' False exampleWorld of
         Inl e \<Rightarrow> False
       | Inr w1 \<Rightarrow>
           onLayerRemovedCalls (trace (viewHeap w1 0)) = [(10, None)]
           \<and> allLayers w1 0 = [1, 3] \<and> allLayers w1 1 = [4, 5]
           \<and> (case removeLayer (Suc 0) 1 ''ortho'' False w1 of
                 Inl e \<Rightarrow> False
               | Inr w2 \<Rightarrow> onLayerRemovedCalls (trace (viewHeap w2 1)) = [(10, Some ''EPSG:4326'')]))
   \<and> (\<exists>w w'. runOperations (Suc 0) 0 [AddLayer 2 (Some 1), AddLayer 3 None] labelWorld = Inr w
         \<and> wfView w 0 \<and> 2 \<in> set (allLayers w 0) \<and> listenerWaits w 0 ''roads''
         \<and> removeLayer (Suc (Suc 0)) 0 ''roads'' False w = Inr w'
         \<and> 2 \<notin> set (allLayers w' 0)
         \<and> (\<exists>unusedCrs rest. onLayerRemovedCalls (trace (viewHeap w' 0)) = (10, unusedCrs) # rest))"
proof -
  have mem: "2 \<in> set (allLayers exampleWorld 0)" by (simp add: exampleWorld_all0)
  have id: "layerId (layerHeap exampleWorld 2) = ''ortho''"
    and src: "layerSource (layerHeap exampleWorld 2) = 10"
    and old: "onLayerRemovedCalls (trace (viewHeap exampleWorld 0)) = []"
    by (simp_all add: example_defs)
  have nw: "\<not> listenerWaits exampleWorld 0 ''ortho''"
    by (simp add: listenerWaits_def example_defs)
  have e: "case removeLayer (Suc 0) 0 ''ortho'' False exampleWorld of
         Inl e \<Rightarrow> False
       | Inr w1 \<Rightarrow>
           onLayerRemovedCalls (trace (viewHeap w1 0)) = [(10, None)]
           \<and> allLayers w1 0 = [1, 3] \<and> allLayers w1 1 = [4, 5]
           \<and> (case removeLayer (Suc 0) 1 ''ortho'' False w1 of
                 Inl e \<Rightarrow> False
               | Inr w2 \<Rightarrow> onLayerRemovedCalls (trace (viewHeap w2 1)) = [(10, Some ''EPSG:4326'')])"
    by (simp add: example_defs removeLayer_defs allLayers_def)
  have nw1: "\<not> listenerWaits exampleWorld 0 (layerId (layerHeap exampleWorld 2))"
    unfolding id by (rule nw)
  from removeLayer_cache_release [OF exampleWorld_wf0 mem, where clearCache = False and k = 0]
  obtain wm u where
    k: "\<not> listenerWaits exampleWorld 0 (layerId (layerHeap exampleWorld 2)) \<longrightarrow>
          removeLayer (Suc 0) 0 (layerId (layerHeap exampleWorld 2)) False exampleWorld
            = Inr (setListeners 0 [] wm)"
    and n: "2 \<notin> set (allLayers wm 0)"
    and t: "onLayerRemovedCalls (trace (viewHeap wm 0))
         = onLayerRemovedCalls (trace (viewHeap exampleWorld 0))
           @ [(layerSource (layerHeap exampleWorld 2), u)]"
    by blast
  note r = k [THEN mp, OF nw1, unfolded id]
  have n': "2 \<notin> set (allLayers (setListeners 0 [] wm) 0)" using n by simp
  have t': "onLayerRemovedCalls (trace (viewHeap (setListeners 0 [] wm) 0)) = [(10, u)]"
    using t by (simp add: src old)
  from r n' t'
  have f1: "\<exists>w1. removeLayer (Suc 0) 0 ''ortho'' False exampleWorld = Inr w1
         \<and> 2 \<notin> set (allLayers w1 0)
         \<and> (\<exists>unusedCrs. onLayerRemovedCalls (trace (viewHeap w1 0)) = [(10, unusedCrs)])"
    by blast
  have "case runOperations (Suc 0) 0 [AddLayer 2 (Some 1), AddLayer 3 None] labelWorld of
      Inl e \<Rightarrow> False
    | Inr w \<Rightarrow>
        wfView w 0 \<and> allLayers w 0 = [1, 2, 3] \<and> layerId (layerHeap w 2) = ''roads''
        \<and> layerSource (layerHeap w 2) = 10
        \<and> onLayerRemovedCalls (trace (viewHeap w 0)) = []
        \<and> listenerWaits w 0 ''roads''
        \<and> (case removeLayer (Suc (Suc 0)) 0 ''roads'' False w of
              Inl e \<Rightarrow> False | Inr w' \<Rightarrow> True)"
    by (simp add: labelWorld_def example_defs removeLayer_defs addLayer_defs allLayers_def
        listenerWaits_def wfView_def)
  then obtain w w' where
    ops: "runOperations (Suc 0) 0 [AddLayer 2 (Some 1), AddLayer 3 None] labelWorld = Inr w"
    and wf: "wfView w 0" and all: "allLayers w 0 = [1, 2, 3]"
    and idw: "layerId (layerHeap w 2) = ''roads''" and srcw: "layerSource (layerHeap w 2) = 10"
    and oldw: "onLayerRemovedCalls (trace (viewHeap w 0)) = []"
    and lw: "listenerWaits w 0 ''roads''"
    and rw: "removeLayer (Suc (Suc 0)) 0 ''roads'' False w = Inr w'"
    by (auto split: sum.splits)
  from all have memw: "2 \<in> set (allLayers w 0)" by simp
  from removeLayer_cache_release [OF wf memw,
      where clearCache = False and d = "Suc (Suc 0)" and w' = w']
  obtain u' where
    imp: "removeLayer (Suc (Suc 0)) 0 (layerId (layerHeap w 2)) False w = Inr w' \<longrightarrow>
          2 \<notin> set (allLayers w' 0)
          \<and> (\<exists>rest. onLayerRemovedCalls (trace (viewHeap w' 0))
                = onLayerRemovedCalls (trace (viewHeap w 0))
                  @ (layerSource (layerHeap w 2), u') # rest)"
    by blast
  note c = imp [unfolded idw, THEN mp, OF rw]
  then have "2 \<notin> set (allLayers w' 0)
          \<and> (\<exists>rest. onLayerRemovedCalls (trace (viewHeap w' 0)) = (10, u') # rest)"
    by (simp add: srcw oldw)
  with ops wf memw lw rw
  have f2: "\<exists>w w'. runOperations (Suc 0) 0 [AddLayer 2 (Some 1), AddLayer 3 None] labelWorld = Inr w
         \<and> wfView w 0 \<and> 2 \<in> set (allLayers w 0) \<and> listenerWaits w 0 ''roads''
         \<and> removeLayer (Suc (Suc 0)) 0 ''roads'' False w = Inr w'
         \<and> 2 \<notin> set (allLayers w' 0)
         \<and> (\<exists>unusedCrs rest. onLayerRemovedCalls (trace (viewHeap w' 0)) = (10, unusedCrs) # rest)"
    by blast
  show ?thesis by (intro conjI exampleWorld_wf0 mem id nw f1 e f2)
qed

text \<open>
  C1 as stated fails where two layers of a view have the same id. The color layer
  \<open>m\<close> is added under \<open>globe\<close> before \<open>globe\<close> is in the view, a tiled layer that is
  called \<open>m\<close> too is added, and then \<open>globe\<close>. \<open>removeLayer\<close> of the id of the color
  layer removes the tiled layer and calls \<open>onLayerRemoved\<close> on the source of the
  tiled layer; the color layer stays, and its source is not called.
\<close>

theorem removeLayer_cache_release_counterexample:
  "(case runOperations (Suc 0) 0 [AddLayer 7 (Some 1), AddLayer 6 None, AddLayer 1 None] sharedIdWorld of
      Inl e \<Rightarrow> False
    | Inr w \<Rightarrow>
        getLayers w 0 (\<lambda>x. True) = [6, 1, 7]
        \<and> layerId (layerHeap w 7) = ''m'' \<and> layerSource (layerHeap w 7) = 10
        \<and> layerSource (layerHeap w 6) = 11
        \<and> onLayerRemovedCalls (trace (viewHeap w 0)) = []
        \<and> (case removeLayer (Suc 0) 0 ''m'' False w of
              Inl e \<Rightarrow> False
            | Inr w' \<Rightarrow> getLayers w' 0 (\<lambda>x. True) = [1, 7]
                \<and> onLayerRemovedCalls (trace (viewHeap w' 0)) = [(11, Some ''EPSG:4978'')]))"
  by (simp add: sharedIdWorld_def example_defs removeLayer_defs addLayer_defs allLayers_def)

lemma attachedUnder_parent:
  assumes "parentsConsistent w" and "attachedUnder w l x"
  shows "\<exists>p. parent (layerHeap w x) = Some p \<and> (p = l \<or> attachedUnder w l p)"
  using assms(2)
proof cases
  case direct
  with assms(1) show ?thesis by (auto simp: parentsConsistent_def)
next
  case (deeper p)
  with assms(1) show ?thesis by (auto simp: parentsConsistent_def)
qed

lemma attachedUnder_removed:
  assumes wf: "wfView w v" and pc: "parentsConsistent w"
    and x: "x \<in> set (allLayers w v)" and u: "attachedUnder w l x"
  shows "x \<in> removedLayers w v l"
proof -
  from attachedUnder_parent [OF pc u] obtain p where
    p: "parent (layerHeap w x) = Some p" and pl: "p = l \<or> attachedUnder w l p" by blast
  from x have "x \<in> set (layers (viewHeap w v))
     \<or> (\<exists>r \<in> set (layers (viewHeap w v)). x \<in> set (attachedLayers (layerHeap w r)))"
    by (simp add: allLayers_cases)
  then show ?thesis
  proof
    assume "x \<in> set (layers (viewHeap w v))"
    with wf have "parent (layerHeap w x) = None" by (rule wf_root_parent)
    with p show ?thesis by simp
  next
    assume "\<exists>r \<in> set (layers (viewHeap w v)). x \<in> set (attachedLayers (layerHeap w r))"
    then obtain r where r: "r \<in> set (layers (viewHeap w v))"
      and xr: "x \<in> set (attachedLayers (layerHeap w r))" by blast
    from wf r xr have "parent (layerHeap w x) = Some r" by (rule wf_attached_parent)
    with p have pr: "p = r" by simp
    have rn: "parent (layerHeap w r) = None" using wf r by (rule wf_root_parent)
    have "\<not> attachedUnder w l r"
    proof
      assume "attachedUnder w l r"
      from attachedUnder_parent [OF pc this] rn show False by auto
    qed
    with pl pr have "r = l" by simp
    with r xr show ?thesis by (simp add: removedLayers_def)
  qed
qed

text \<open>
  C3, as the code has it. In a well-formed view over a consistent store, whenever
  \<open>removeLayer(L.id)\<close> for a layer \<open>L\<close> of the view returns, \<open>getLayers()\<close> contains
  neither \<open>L\<close> nor any layer that was attached under \<open>L\<close>, directly or through
  other layers; and it does return when no label listener waits for the removal
  of \<open>L\<close>.
\<close>

theorem removeLayer_removes_subtree:
  assumes "wfView w v" and "parentsConsistent w" and "l \<in> set (allLayers w v)"
  shows "(removeLayer d v (layerId (layerHeap w l)) clearCache w = Inr w' \<longrightarrow>
            l \<notin> set (getLayers w' v (\<lambda>x. True))
            \<and> (\<forall>x. attachedUnder w l x \<longrightarrow> x \<notin> set (getLayers w' v (\<lambda>x. True))))
       \<and> (\<not> listenerWaits w v (layerId (layerHeap w l)) \<longrightarrow>
            (\<exists>wk. removeLayer (Suc k) v (layerId (layerHeap w l)) clearCache w = Inr wk))"
proof -
  from removeLayerBody_ok [OF assms(1) assms(3), of clearCache] obtain wm where
    r: "removeLayerBody v (layerId (layerHeap w l)) clearCache w = Inr wm"
    and a: "allLayers wm v = filter (\<lambda>x. x \<notin> removedLayers w v l) (allLayers w v)"
    by blast
  have 1: "l \<notin> set (allLayers wm v)" unfolding a by (simp add: removedLayers_def)
  have 2: "\<forall>x. attachedUnder w l x \<longrightarrow> x \<notin> set (allLayers wm v)"
    unfolding a using attachedUnder_removed [OF assms(1) assms(2)] by auto
  have A: "removeLayer d v (layerId (layerHeap w l)) clearCache w = Inr w' \<longrightarrow>
            l \<notin> set (getLayers w' v (\<lambda>x. True))
            \<and> (\<forall>x. attachedUnder w l x \<longrightarrow> x \<notin> set (getLayers w' v (\<lambda>x. True)))"
  proof
    assume "removeLayer d v (layerId (layerHeap w l)) clearCache w = Inr w'"
    from removeLayer_after_body [OF this] r
    have s: "set (allLayers w' v) \<subseteq> set (allLayers wm v)" by auto
    from s 1 have "l \<notin> set (allLayers w' v)" by blast
    moreover from s 2 have "\<forall>x. attachedUnder w l x \<longrightarrow> x \<notin> set (allLayers w' v)" by blast
    ultimately show "l \<notin> set (getLayers w' v (\<lambda>x. True))
            \<and> (\<forall>x. attachedUnder w l x \<longrightarrow> x \<notin> set (getLayers w' v (\<lambda>x. True)))"
      unfolding allLayers_def by blast
  qed
  have B: "\<not> listenerWaits w v (layerId (layerHeap w l)) \<longrightarrow>
            (\<exists>wk. removeLayer (Suc k) v (layerId (layerHeap w l)) clearCache w = Inr wk)"
    using removeLayer_idle [OF r] by blast
  show ?thesis by (rule conjI [OF A B])
qed

lemma exampleWorld_consistent: "parentsConsistent exampleWorld"
  by (auto simp: parentsConsistent_def example_defs split: if_splits)

theorem removeLayer_removes_subtree_witness:
  "wfView exampleWorld 0 \<and> parentsConsistent exampleWorld
   \<and> getLayers exampleWorld 0 (\<lambda>x. True) = [1, 2, 3]
   \<and> layerId (layerHeap exampleWorld 1) = ''globe''
   \<and> \<not> listenerWaits exampleWorld 0 ''globe''
   \<and> attachedUnder exampleWorld 1 2 \<and> attachedUnder exampleWorld 1 3
   \<and> (\<exists>w1. removeLayer (Suc 0) 0 ''globe'' False exampleWorld = Inr w1
         \<and> 1 \<notin> set (getLayers w1 0 (\<lambda>x. True)) \<and> 2 \<notin> set (getLayers w1 0 (\<lambda>x. True))
         \<and> 3 \<notin> set (getLayers w1 0 (\<lambda>x. True)))
   \<and> (case removeLayer (Suc 0) 0 ''globe'' False exampleWorld of
         Inl e \<Rightarrow> False
       | Inr w1 \<Rightarrow> getLayers w1 0 (\<lambda>x. True) = [])
   \<and> (case removeLayer (Suc 0) 0 ''roads'' False exampleWorld of
         Inl e \<Rightarrow> False
       | Inr w1 \<Rightarrow> getLayers w1 0 (\<lambda>x. True) = [1, 2])"
proof -
  have a: "attachedUnder exampleWorld 1 2" "attachedUnder exampleWorld 1 3"
    by (rule attachedUnder.direct, simp add: example_defs)+
  have b: "1 \<in> set (allLayers exampleWorld 0)" by (simp add: exampleWorld_all0)
  have g: "getLayers exampleWorld 0 (\<lambda>x. True) = [1, 2, 3]"
    using exampleWorld_all0 by (simp add: allLayers_def)
  have id: "layerId (layerHeap exampleWorld 1) = ''globe''" by (simp add: example_defs)
  have nw: "\<not> listenerWaits exampleWorld 0 ''globe''"
    by (simp add: listenerWaits_def example_defs)
  have nw1: "\<not> listenerWaits exampleWorld 0 (layerId (layerHeap exampleWorld 1))"
    unfolding id by (rule nw)
  from removeLayer_removes_subtree [OF exampleWorld_wf0 exampleWorld_consistent b,
      where clearCache = False and k = 0, THEN conjunct2, THEN mp, OF nw1]
  obtain w1 where "removeLayer (Suc 0) 0 (layerId (layerHeap exampleWorld 1)) False exampleWorld = Inr w1"
    ..
  then have r: "removeLayer (Suc 0) 0 ''globe'' False exampleWorld = Inr w1" by (simp only: id)
  note c = removeLayer_removes_subtree [OF exampleWorld_wf0 exampleWorld_consistent b,
      where clearCache = False and d = "Suc 0" and w' = w1,
      THEN conjunct1, unfolded id, THEN mp, OF r]
  with a have "1 \<notin> set (getLayers w1 0 (\<lambda>x. True)) \<and> 2 \<notin> set (getLayers w1 0 (\<lambda>x. True))
         \<and> 3 \<notin> set (getLayers w1 0 (\<lambda>x. True))" by blast
  with r have f1: "\<exists>w1. removeLayer (Suc 0) 0 ''globe'' False exampleWorld = Inr w1
         \<and> 1 \<notin> set (getLayers w1 0 (\<lambda>x. True)) \<and> 2 \<notin> set (getLayers w1 0 (\<lambda>x. True))
         \<and> 3 \<notin> set (getLayers w1 0 (\<lambda>x. True))" by blast
  have f2: "case removeLayer (Suc 0) 0 ''globe'' False exampleWorld of
         Inl e \<Rightarrow> False
       | Inr w1 \<Rightarrow> getLayers w1 0 (\<lambda>x. True) = []"
    by (simp add: example_defs removeLayer_defs allLayers_def)
  have f3: "case removeLayer (Suc 0) 0 ''roads'' False exampleWorld of
         Inl e \<Rightarrow> False
       | Inr w1 \<Rightarrow> getLayers w1 0 (\<lambda>x. True) = [1, 2]"
    by (simp add: example_defs removeLayer_defs allLayers_def)
  show ?thesis
    by (intro conjI exampleWorld_wf0 exampleWorld_consistent g id nw a f1 f2 f3)
qed

text \<open>
  C3 as stated fails where a layer is in the view twice. The color layer \<open>c0\<close> is
  added under \<open>globe\<close>, \<open>globe\<close> is removed, which leaves \<open>c0\<close> attached to it, \<open>c0\<close>
  is added under \<open>planar\<close>, and \<open>globe\<close> is added again. \<open>removeLayer\<close> of \<open>c0\<close>
  detaches it from \<open>planar\<close> and returns, and \<open>getLayers()\<close> still has \<open>c0\<close> under
  \<open>globe\<close>.
\<close>

theorem removeLayer_removes_subtree_counterexample:
  "(case runOperations (Suc 0) 0
           [AddLayer 7 (Some 1), RemoveLayer ''globe'', AddLayer 7 (Some 6), AddLayer 1 None]
           twoRootsWorld of
      Inl e \<Rightarrow> False
    | Inr w \<Rightarrow>
        getLayers w 0 (\<lambda>x. True) = [6, 7, 1, 7] \<and> layerId (layerHeap w 7) = ''c0''
        \<and> (case removeLayer (Suc 0) 0 ''c0'' False w of
              Inl e \<Rightarrow> False
            | Inr w' \<Rightarrow> getLayers w' 0 (\<lambda>x. True) = [6, 1, 7]))"
  by (simp add: twoRootsWorld_def example_defs removeLayer_defs addLayer_defs allLayers_def)

subsection \<open>The sequence numbers of the color layers\<close>


lemma range3: "{0..<3::int} = {0, 1, 2}"
  by auto

lemma not_range1: "{2::int} \<noteq> {0..<1}"
proof
  assume a: "{2::int} = {0..<1}"
  have "(2::int) \<in> {2}" by simp
  then have "(2::int) \<in> {0..<1}" unfolding a [symmetric] .
  then show False by simp
qed

lemma colorSequences_cong:
  assumes "\<And>x. shape (layerHeap w' x) = shape (layerHeap w x)"
    and "layers (viewHeap w' v) = layers (viewHeap w v)"
  shows "colorSequences w' v = colorSequences w v"
proof -
  have s: "\<And>x. attachedLayers (layerHeap w' x) = attachedLayers (layerHeap w x)
      \<and> sequence (layerHeap w' x) = sequence (layerHeap w x)
      \<and> isColorLayer (layerHeap w' x) = isColorLayer (layerHeap w x)"
    using assms(1) by (simp add: shape_def)
  have "allLayers w' v = allLayers w v" using s assms(2) by (intro allLayers_cong) simp_all
  then show ?thesis by (simp add: colorSequences_def getLayers_filter s)
qed

lemma contiguous_cong:
  assumes "\<And>x. shape (layerHeap w' x) = shape (layerHeap w x)"
    and "layers (viewHeap w' v) = layers (viewHeap w v)"
  shows "contiguous w' v = contiguous w v"
  using colorSequences_cong [OF assms] by (simp add: contiguous_def)

lemma inheritExtent_frame:
  "shape (layerHeap (inheritExtent l po w) x) = shape (layerHeap w x)"
  "viewHeap (inheritExtent l po w) = viewHeap w"
  by (simp_all add: inheritExtent_def Let_def setLayer_def shape_def split: option.split)

lemma assignCrs_frame:
  assumes "assignCrs v l po w = Inr w1"
  shows "shape (layerHeap w1 x) = shape (layerHeap w x) \<and> viewHeap w1 = viewHeap w"
  using assms
  by (auto simp: assignCrs_def Let_def setLayer_def shape_def split: if_splits option.splits)

lemma preprocessLayer_frame:
  assumes "preprocessLayer v l po w = Inr w1"
  shows "shape (layerHeap w1 x) = shape (layerHeap w x)"
    and "layers (viewHeap w1 u) = layers (viewHeap w u)"
proof -
  from assms obtain w0 where a: "assignCrs v l po (inheritExtent l po w) = Inr w0"
    and w1: "w1 = addLabelListener v l (emit v (labelEffects l (layerHeap w0 l)) w0)"
    by (auto simp: preprocessLayer_def split: sum.splits)
  from assignCrs_frame [OF a] show "shape (layerHeap w1 x) = shape (layerHeap w x)"
    by (simp add: w1 inheritExtent_frame addLabelListener_def)
  from assignCrs_frame [OF a, of x] show "layers (viewHeap w1 u) = layers (viewHeap w u)"
    by (simp add: w1 inheritExtent_frame addLabelListener_def)
qed

lemma reject_frame:
  "shape (layerHeap (reject l e w) x) = shape (layerHeap w x)"
  "viewHeap (reject l e w) = viewHeap w"
  by (simp_all add: reject_def setLayer_def shape_def)

lemma contiguous_add:
  assumes d: "distinct (A @ B)" and s: "set (A @ B) = {0..<int (length (A @ B))}"
  shows "distinct (A @ [int (length (A @ B))] @ B)
       \<and> set (A @ [int (length (A @ B))] @ B) = {0..<int (length (A @ [int (length (A @ B))] @ B))}"
proof -
  let ?n = "int (length (A @ B))"
  have n: "?n \<notin> set (A @ B)" unfolding s by simp
  have 1: "distinct (A @ [?n] @ B)" using d n by auto
  have "set (A @ [?n] @ B) = insert ?n (set (A @ B))" by auto
  also have "\<dots> = insert ?n {0..<?n}" using s by simp
  also have "\<dots> = {0..<?n + 1}" by auto
  also have "?n + 1 = int (length (A @ [?n] @ B))" by simp
  finally have 2: "set (A @ [?n] @ B) = {0..<int (length (A @ [?n] @ B))}" .
  from 1 2 show ?thesis by blast
qed

lemma contiguous_remove:
  assumes d: "distinct xs" and s: "set xs = {0..<int (length xs)}" and k: "k \<in> set xs"
  shows "distinct (map (\<lambda>s. if k < s then s - 1 else s) (filter (\<lambda>s. s \<noteq> k) xs))
       \<and> set (map (\<lambda>s. if k < s then s - 1 else s) (filter (\<lambda>s. s \<noteq> k) xs))
           = {0..<int (length (map (\<lambda>s. if k < s then s - 1 else s) (filter (\<lambda>s. s \<noteq> k) xs)))}"
proof -
  let ?n = "int (length xs)"
  let ?g = "\<lambda>s::int. if k < s then s - 1 else s"
  let ?ys = "filter (\<lambda>s. s \<noteq> k) xs"
  have kr: "0 \<le> k" "k < ?n" using k unfolding s by simp_all
  have "?ys = removeAll k xs" by (induction xs) auto
  then have "?ys = remove1 k xs" using d by (simp add: distinct_remove1_removeAll)
  then have len: "length ?ys = length xs - 1" using k by (simp add: length_remove1)
  have leni: "int (length ?ys) = ?n - 1"
  proof (cases xs)
    case Nil
    with k show ?thesis by simp
  next
    case (Cons a as)
    then have "length xs = Suc (length as)" by simp
    with len show ?thesis by simp
  qed
  have "set ?ys = set xs - {k}" by auto
  then have sy: "set ?ys = {0..<?n} - {k}" by (simp only: s)
  have inj: "inj_on ?g (set ?ys)" unfolding sy by (auto simp: inj_on_def split: if_splits)
  have 1: "distinct (map ?g ?ys)" using d inj by (simp add: distinct_map)
  have "?g ` ({0..<?n} - {k}) = {0..<?n - 1}"
  proof (rule set_eqI)
    fix t
    show "t \<in> ?g ` ({0..<?n} - {k}) \<longleftrightarrow> t \<in> {0..<?n - 1}"
    proof
      assume "t \<in> ?g ` ({0..<?n} - {k})"
      then obtain u where u: "u \<in> {0..<?n} - {k}" and t: "t = ?g u" by blast
      from u kr show "t \<in> {0..<?n - 1}" unfolding t by (auto split: if_splits)
    next
      assume t: "t \<in> {0..<?n - 1}"
      show "t \<in> ?g ` ({0..<?n} - {k})"
      proof (cases "t < k")
        case True
        with t have "t \<in> {0..<?n} - {k}" and "t = ?g t" by auto
        then show ?thesis by (rule_tac x = t in image_eqI) 
      next
        case False
        with t have "t + 1 \<in> {0..<?n} - {k}" and "t = ?g (t + 1)" by auto
        then show ?thesis by (rule_tac x = "t + 1" in image_eqI)
      qed
    qed
  qed
  then have 2: "set (map ?g ?ys) = {0..<int (length (map ?g ?ys))}"
    using sy leni by simp
  from 1 2 show ?thesis by blast
qed

lemma removeLayerBody_contiguous:
  assumes wf: "wfView w v" and c: "contiguous w v" and l: "l \<in> set (allLayers w v)"
    and na: "\<forall>a \<in> set (attachedLayers (layerHeap w l)). \<not> isColorLayer (layerHeap w a)"
  shows "\<exists>w'. removeLayerBody v (layerId (layerHeap w l)) cc w = Inr w' \<and> contiguous w' v"
proof -
  let ?k = "sequence (layerHeap w l)"
  let ?col = "filter (\<lambda>x. isColorLayer (layerHeap w x)) (allLayers w v)"
  let ?g = "\<lambda>s. if isColorLayer (layerHeap w l) \<and> ?k < s then s - 1 else s"
  from removeLayerBody_ok [OF wf l, of cc] obtain w' where
    r: "removeLayerBody v (layerId (layerHeap w l)) cc w = Inr w'"
    and a: "allLayers w' v = filter (\<lambda>x. x \<notin> removedLayers w v l) (allLayers w v)"
    and co: "\<And>x. core (layerHeap w' x) = core (layerHeap w x)"
    and q: "\<And>x. x \<in> set (allLayers w' v) \<Longrightarrow> sequence (layerHeap w' x) =
          (if isColorLayer (layerHeap w l) \<and> isColorLayer (layerHeap w x)
               \<and> sequence (layerHeap w l) < sequence (layerHeap w x)
           then sequence (layerHeap w x) - 1 else sequence (layerHeap w x))"
    by blast
  have iscol: "\<And>x. isColorLayer (layerHeap w' x) = isColorLayer (layerHeap w x)"
    using co by (rule core_eqD)
  have rem: "\<And>x. isColorLayer (layerHeap w x) \<Longrightarrow> (x \<notin> removedLayers w v l) = (x \<noteq> l)"
    using na by (auto simp: removedLayers_def)
  have cols: "getLayers w' v isColorLayer = filter (\<lambda>x. x \<noteq> l) ?col"
  proof -
    have "getLayers w' v isColorLayer
        = filter (\<lambda>x. x \<notin> removedLayers w v l \<and> isColorLayer (layerHeap w x)) (allLayers w v)"
      by (simp add: getLayers_filter a iscol conj_commute)
    also have "\<dots> = filter (\<lambda>x. x \<noteq> l \<and> isColorLayer (layerHeap w x)) (allLayers w v)"
      by (rule filter_cong [OF refl]) (use rem in auto)
    finally show ?thesis by (simp add: conj_commute)
  qed
  have seqs: "colorSequences w' v = map ?g (map (\<lambda>x. sequence (layerHeap w x)) (filter (\<lambda>x. x \<noteq> l) ?col))"
  proof -
    have "colorSequences w' v = map (\<lambda>x. sequence (layerHeap w' x)) (filter (\<lambda>x. x \<noteq> l) ?col)"
      by (simp add: colorSequences_def cols)
    also have "\<dots> = map (\<lambda>x. ?g (sequence (layerHeap w x))) (filter (\<lambda>x. x \<noteq> l) ?col)"
    proof (rule map_cong [OF refl])
      fix x assume x: "x \<in> set (filter (\<lambda>x. x \<noteq> l) ?col)"
      then have "x \<in> set (getLayers w' v isColorLayer)" by (simp only: cols)
      then have "x \<in> set (allLayers w' v)" by (simp add: getLayers_filter)
      moreover from x have "isColorLayer (layerHeap w x)" by simp
      ultimately show "sequence (layerHeap w' x) = ?g (sequence (layerHeap w x))"
        by (simp add: q)
    qed
    finally show ?thesis by (simp add: comp_def)
  qed
  have old: "colorSequences w v = map (\<lambda>x. sequence (layerHeap w x)) ?col"
    by (simp add: colorSequences_def getLayers_filter)
  show ?thesis
  proof (cases "isColorLayer (layerHeap w l)")
    case False
    then have "filter (\<lambda>x. x \<noteq> l) ?col = ?col" by (intro filter_True) auto
    with False seqs old have "colorSequences w' v = colorSequences w v" by simp
    with c r show ?thesis by (auto simp: contiguous_def)
  next
    case True
    have dist: "distinct (colorSequences w v)"
      and range: "set (colorSequences w v) = {0..<int (length (colorSequences w v))}"
      using c by (simp_all add: contiguous_def)
    have lc: "l \<in> set ?col" using l True by simp
    then have "?k \<in> (\<lambda>x. sequence (layerHeap w x)) ` set ?col" by (rule imageI)
    then have k: "?k \<in> set (colorSequences w v)" unfolding old by (simp only: set_map)
    have inj: "inj_on (\<lambda>x. sequence (layerHeap w x)) (set ?col)"
      using dist unfolding old by (simp add: distinct_map)
    have "map (\<lambda>x. sequence (layerHeap w x)) (filter (\<lambda>x. x \<noteq> l) ?col)
        = map (\<lambda>x. sequence (layerHeap w x)) (filter (\<lambda>x. sequence (layerHeap w x) \<noteq> ?k) ?col)"
    proof -
      have "filter (\<lambda>x. x \<noteq> l) ?col = filter (\<lambda>x. sequence (layerHeap w x) \<noteq> ?k) ?col"
      proof (rule filter_cong [OF refl])
        fix x assume "x \<in> set ?col"
        with inj lc show "(x \<noteq> l) = (sequence (layerHeap w x) \<noteq> ?k)"
          by (auto dest: inj_onD)
      qed
      then show ?thesis by simp
    qed
    also have "\<dots> = filter (\<lambda>s. s \<noteq> ?k) (colorSequences w v)"
      unfolding old by (simp add: filter_map comp_def)
    finally have "colorSequences w' v
        = map (\<lambda>s. if ?k < s then s - 1 else s) (filter (\<lambda>s. s \<noteq> ?k) (colorSequences w v))"
      using seqs True by simp
    with contiguous_remove [OF dist range k] have "contiguous w' v"
      by (simp add: contiguous_def)
    with r show ?thesis by blast
  qed
qed

lemma colorSequences_concat:
  "colorSequences w v =
     concat (map (\<lambda>r. map (\<lambda>x. sequence (layerHeap w x))
                          (filter (\<lambda>x. isColorLayer (layerHeap w x)) (r # attachedLayers (layerHeap w r))))
                 (layers (viewHeap w v)))"
  by (simp add: colorSequences_def getLayers_filter allLayers_concat filter_concat map_concat comp_def)

lemma concat_same:
  "p \<notin> set rs \<Longrightarrow> concat (map (\<lambda>r. f r @ (if r = p then N else [])) rs) = concat (map f rs)"
  by (induction rs) auto

lemma concat_insert:
  "distinct rs \<Longrightarrow> p \<in> set rs \<Longrightarrow>
   \<exists>A B. concat (map f rs) = A @ B
        \<and> concat (map (\<lambda>r. f r @ (if r = p then N else [])) rs) = A @ N @ B"
proof (induction rs)
  case Nil
  then show ?case by simp
next
  case (Cons r rs)
  show ?case
  proof (cases "r = p")
    case True
    with Cons.prems have "p \<notin> set rs" by simp
    then have "concat (map (\<lambda>r. f r @ (if r = p then N else [])) rs) = concat (map f rs)"
      by (rule concat_same)
    with True show ?thesis
      by (intro exI [of _ "f p"] exI [of _ "concat (map f rs)"]) simp
  next
    case False
    with Cons.prems have "distinct rs" "p \<in> set rs" by auto
    from Cons.IH [OF this] obtain A B where
      "concat (map f rs) = A @ B"
      "concat (map (\<lambda>r. f r @ (if r = p then N else [])) rs) = A @ N @ B" by blast
    with False show ?thesis
      by (intro exI [of _ "f r @ A"] exI [of _ B]) simp
  qed
qed

lemma attach_contiguous:
  assumes d: "distinct (layers (viewHeap w v))" and c: "contiguous w v"
    and nl: "l \<notin> set (allLayers w v)"
  shows "contiguous
           (attach p l
              (if isColorLayer (layerHeap w l)
               then setLayer l (\<lambda>x. x\<lparr>sequence := int (length (getLayers w v isColorLayer))\<rparr>) w
               else w)) v"
proof -
  let ?n = "int (length (getLayers w v isColorLayer))"
  let ?w3 = "attach p l
              (if isColorLayer (layerHeap w l)
               then setLayer l (\<lambda>x. x\<lparr>sequence := ?n\<rparr>) w
               else w)"
  let ?N = "if isColorLayer (layerHeap w l) then [?n] else []"
  let ?f = "\<lambda>r. map (\<lambda>x. sequence (layerHeap w x))
                   (filter (\<lambda>x. isColorLayer (layerHeap w x)) (r # attachedLayers (layerHeap w r)))"
  let ?rs = "layers (viewHeap w v)"
  have att: "\<And>x. attachedLayers (layerHeap ?w3 x) =
      (if x = p then attachedLayers (layerHeap w x) @ [l] else attachedLayers (layerHeap w x))"
    by (simp add: attach_def setLayer_def)
  have col: "\<And>x. isColorLayer (layerHeap ?w3 x) = isColorLayer (layerHeap w x)"
    by (simp add: attach_def setLayer_def)
  have sq: "\<And>x. x \<noteq> l \<Longrightarrow> sequence (layerHeap ?w3 x) = sequence (layerHeap w x)"
    by (simp add: attach_def setLayer_def)
  have sl: "isColorLayer (layerHeap w l) \<Longrightarrow> sequence (layerHeap ?w3 l) = ?n"
    by (simp add: attach_def setLayer_def)
  have ly: "layers (viewHeap ?w3 v) = ?rs"
    by (simp add: attach_def setLayer_def)
  have piece: "\<And>r. r \<in> set ?rs \<Longrightarrow>
      map (\<lambda>x. sequence (layerHeap ?w3 x))
          (filter (\<lambda>x. isColorLayer (layerHeap ?w3 x)) (r # attachedLayers (layerHeap ?w3 r)))
      = ?f r @ (if r = p then ?N else [])"
  proof -
    fix r assume r: "r \<in> set ?rs"
    have in_all: "\<And>x. x \<in> set (r # attachedLayers (layerHeap w r)) \<Longrightarrow> x \<noteq> l"
      using r nl by (auto simp: allLayers_cases)
    have same: "map (\<lambda>x. sequence (layerHeap ?w3 x))
          (filter (\<lambda>x. isColorLayer (layerHeap w x)) (r # attachedLayers (layerHeap w r))) = ?f r"
    proof (rule map_cong [OF refl])
      fix x assume "x \<in> set (filter (\<lambda>x. isColorLayer (layerHeap w x)) (r # attachedLayers (layerHeap w r)))"
      then have "x \<in> set (r # attachedLayers (layerHeap w r))" by (simp only: set_filter) blast
      then have "x \<noteq> l" by (rule in_all)
      then show "sequence (layerHeap ?w3 x) = sequence (layerHeap w x)" by (rule sq)
    qed
    show "map (\<lambda>x. sequence (layerHeap ?w3 x))
          (filter (\<lambda>x. isColorLayer (layerHeap ?w3 x)) (r # attachedLayers (layerHeap ?w3 r)))
      = ?f r @ (if r = p then ?N else [])"
    proof (cases "r = p")
      case True
      have "map (\<lambda>x. sequence (layerHeap ?w3 x))
          (filter (\<lambda>x. isColorLayer (layerHeap ?w3 x)) (r # attachedLayers (layerHeap ?w3 r)))
        = map (\<lambda>x. sequence (layerHeap ?w3 x))
          (filter (\<lambda>x. isColorLayer (layerHeap w x)) (r # attachedLayers (layerHeap w r)))
          @ map (\<lambda>x. sequence (layerHeap ?w3 x)) (filter (\<lambda>x. isColorLayer (layerHeap w x)) [l])"
        unfolding col att using True by simp
      also have "map (\<lambda>x. sequence (layerHeap ?w3 x)) (filter (\<lambda>x. isColorLayer (layerHeap w x)) [l]) = ?N"
        using sl by simp
      finally show ?thesis using True same by simp
    next
      case False
      then show ?thesis unfolding col att using same by simp
    qed
  qed
  have new: "colorSequences ?w3 v = concat (map (\<lambda>r. ?f r @ (if r = p then ?N else [])) ?rs)"
    unfolding colorSequences_concat ly
    by (rule arg_cong [of _ _ concat], rule map_cong [OF refl], rule piece)
  have old: "colorSequences w v = concat (map ?f ?rs)" by (rule colorSequences_concat)
  have len: "?n = int (length (colorSequences w v))" by (simp add: colorSequences_def)
  show ?thesis
  proof (cases "p \<in> set ?rs")
    case False
    then have "colorSequences ?w3 v = colorSequences w v"
      unfolding new old by (rule concat_same)
    with c show ?thesis by (simp add: contiguous_def)
  next
    case True
    from concat_insert [OF d True, of ?f ?N] obtain A B where
      ab: "concat (map ?f ?rs) = A @ B"
      and ab': "concat (map (\<lambda>r. ?f r @ (if r = p then ?N else [])) ?rs) = A @ ?N @ B"
      by blast
    have o: "colorSequences w v = A @ B" using old ab by simp
    have n: "colorSequences ?w3 v = A @ ?N @ B" using new ab' by simp
    show ?thesis
    proof (cases "isColorLayer (layerHeap w l)")
      case False
      with n o have "colorSequences ?w3 v = colorSequences w v" by simp
      with c show ?thesis by (simp add: contiguous_def)
    next
      case True
      from c o have "distinct (A @ B)" "set (A @ B) = {0..<int (length (A @ B))}"
        by (simp_all add: contiguous_def)
      from contiguous_add [OF this] have
        "distinct (A @ [int (length (A @ B))] @ B)
         \<and> set (A @ [int (length (A @ B))] @ B) = {0..<int (length (A @ [int (length (A @ B))] @ B))}" .
      moreover have "colorSequences ?w3 v = A @ [int (length (A @ B))] @ B"
        using n True len o by simp
      ultimately show ?thesis by (simp only: contiguous_def)
    qed
  qed
qed

lemma getLayerById_None:
  assumes "getLayerById w v (layerId (layerHeap w l)) = None"
  shows "l \<notin> set (allLayers w v)"
proof
  assume l: "l \<in> set (allLayers w v)"
  from assms have "filter (\<lambda>x. layerId (layerHeap w x) = layerId (layerHeap w l)) (allLayers w v) = []"
    by (simp add: getLayerById_def getLayers_filter split: list.splits)
  with l show False by (auto simp: filter_empty_conv)
qed

lemma sceneAdd_frame [simp]:
  "layerHeap (sceneAdd v l w) = layerHeap w" "viewHeap (sceneAdd v l w) = viewHeap w"
  by (simp_all add: sceneAdd_def split: option.split)

lemma shape_eqD:
  assumes "shape x = shape y"
  shows "attachedLayers x = attachedLayers y" "sequence x = sequence y" "isColorLayer x = isColorLayer y"
  using assms by (simp_all add: shape_def)

lemma preprocess_view:
  assumes p: "preprocessLayer v l po w = Inr w1"
  shows "allLayers w1 v = allLayers w v" "getLayers w1 v isColorLayer = getLayers w v isColorLayer"
    "contiguous w1 v = contiguous w v" "isColorLayer (layerHeap w1 x) = isColorLayer (layerHeap w x)"
    "attachedLayers (layerHeap w1 x) = attachedLayers (layerHeap w x)"
proof -
  note sh = preprocessLayer_frame(1) [OF p] and ly = preprocessLayer_frame(2) [OF p]
  show a: "allLayers w1 v = allLayers w v"
    by (rule allLayers_cong) (use shape_eqD(1) [OF sh] ly in simp_all)
  show "getLayers w1 v isColorLayer = getLayers w v isColorLayer"
    by (simp add: getLayers_filter a shape_eqD(3) [OF sh])
  show "contiguous w1 v = contiguous w v" by (rule contiguous_cong) (rule sh, rule ly)
  show "isColorLayer (layerHeap w1 x) = isColorLayer (layerHeap w x)" by (rule shape_eqD(3) [OF sh])
  show "attachedLayers (layerHeap w1 x) = attachedLayers (layerHeap w x)" by (rule shape_eqD(1) [OF sh])
qed

lemma reject_contiguous: "contiguous (reject l e w) v = contiguous w v"
  by (rule contiguous_cong) (simp_all add: reject_frame)

lemma addLayer_parent_cases:
  assumes a: "addLayer v layer0 (Some p) w = Inr (out, w')"
  shows "(w' = w \<and> (\<exists>e. out = RejectedPromise e))
       \<or> (\<exists>l e. w' = reject l e w \<and> out = Undefined)
       \<or> (\<exists>l w1. layer0 = Some l \<and> out = WhenReady l
             \<and> getLayerById w v (layerId (layerHeap w l)) = None
             \<and> preprocessLayer v l (Some p) w = Inr w1
             \<and> w' = sceneAdd v l (attach p l
                  (if isColorLayer (layerHeap w1 l)
                   then setLayer l (\<lambda>x. x\<lparr>sequence := int (length (getLayers w1 v isColorLayer))\<rparr>) w1
                   else w1)))"
  using a
  by (auto simp: addLayer_def Let_def split: option.splits if_splits sum.splits)

lemma addLayer_root_cases:
  assumes a: "addLayer v (Some l) None w = Inr (out, w')"
  shows "w' = w
       \<or> (\<exists>e. w' = reject l e w)
       \<or> (\<exists>w1. preprocessLayer v l None w = Inr w1
             \<and> ((\<exists>e. w' = reject l e w1) \<or> w' = sceneAdd v l (pushLayer v l w1)))"
  using a
  by (auto simp: addLayer_def Let_def split: option.splits if_splits sum.splits)

lemma addLayer_parent_contiguous:
  assumes d: "distinct (layers (viewHeap w v))" and c: "contiguous w v"
    and a: "addLayer v layer0 (Some p) w = Inr (out, w')"
  shows "contiguous w' v
       \<and> (\<forall>l. layer0 = Some l \<and> out = WhenReady l \<and> isColorLayer (layerHeap w l)
              \<longrightarrow> sequence (layerHeap w' l) = int (length (getLayers w v isColorLayer)))"
proof -
  from addLayer_parent_cases [OF a] consider
    (same) e where "w' = w" "out = RejectedPromise e"
    | (rejected) l e where "w' = reject l e w" "out = Undefined"
    | (added) l w1 where "layer0 = Some l" "out = WhenReady l"
        "getLayerById w v (layerId (layerHeap w l)) = None"
        "preprocessLayer v l (Some p) w = Inr w1"
        "w' = sceneAdd v l (attach p l
                  (if isColorLayer (layerHeap w1 l)
                   then setLayer l (\<lambda>x. x\<lparr>sequence := int (length (getLayers w1 v isColorLayer))\<rparr>) w1
                   else w1))"
    by blast
  then show ?thesis
  proof cases
    case same
    with c show ?thesis by simp
  next
    case rejected
    with c show ?thesis by (simp add: reject_contiguous)
  next
    case (added l w1)
    note pv = preprocess_view [OF added(4)]
    let ?w2 = "attach p l
                  (if isColorLayer (layerHeap w1 l)
                   then setLayer l (\<lambda>x. x\<lparr>sequence := int (length (getLayers w1 v isColorLayer))\<rparr>) w1
                   else w1)"
    have d1: "distinct (layers (viewHeap w1 v))"
      using d preprocessLayer_frame(2) [OF added(4), of v] by simp
    have c1: "contiguous w1 v" using c pv(3) by simp
    have nl: "l \<notin> set (allLayers w1 v)"
      using getLayerById_None [OF added(3)] pv(1) by simp
    have c2: "contiguous ?w2 v" using d1 c1 nl by (rule attach_contiguous)
    have "contiguous w' v = contiguous ?w2 v"
      unfolding added(5) by (rule contiguous_cong) simp_all
    with c2 have 1: "contiguous w' v" by simp
    have 2: "isColorLayer (layerHeap w l) \<Longrightarrow>
        sequence (layerHeap w' l) = int (length (getLayers w v isColorLayer))"
      unfolding added(5) by (simp add: pv(2) pv(4) attach_def setLayer_def)
    from 1 2 added(1) show ?thesis by simp
  qed
qed

lemma pushLayer_contiguous:
  assumes nl: "\<not> isColorLayer (layerHeap w l)"
    and na: "\<forall>a \<in> set (attachedLayers (layerHeap w l)). \<not> isColorLayer (layerHeap w a)"
  shows "colorSequences (pushLayer v l w) v = colorSequences w v"
proof -
  have "filter (\<lambda>x. isColorLayer (layerHeap w x)) (attachedLayers (layerHeap w l)) = []"
    using na by (simp add: filter_empty_conv)
  with nl show ?thesis by (simp add: colorSequences_concat pushLayer_def)
qed

lemma addLayer_root_contiguous:
  assumes c: "contiguous w v" and a: "addLayer v (Some l) None w = Inr (out, w')"
    and nl: "\<not> isColorLayer (layerHeap w l)"
    and na: "\<forall>a \<in> set (attachedLayers (layerHeap w l)). \<not> isColorLayer (layerHeap w a)"
  shows "contiguous w' v"
proof -
  from addLayer_root_cases [OF a] consider
    (same) "w' = w" | (rejected) e where "w' = reject l e w"
    | (pre) w1 where "preprocessLayer v l None w = Inr w1"
        "(\<exists>e. w' = reject l e w1) \<or> w' = sceneAdd v l (pushLayer v l w1)"
    by blast
  then show ?thesis
  proof cases
    case same
    with c show ?thesis by simp
  next
    case rejected
    with c show ?thesis by (simp add: reject_contiguous)
  next
    case (pre w1)
    note pv = preprocess_view [OF pre(1)]
    have c1: "contiguous w1 v" using c pv(3) by simp
    from pre(2) show ?thesis
    proof
      assume "\<exists>e. w' = reject l e w1"
      with c1 show ?thesis by (auto simp: reject_contiguous)
    next
      assume w': "w' = sceneAdd v l (pushLayer v l w1)"
      have "colorSequences w' v = colorSequences (pushLayer v l w1) v"
        unfolding w' by (rule colorSequences_cong) simp_all
      also have "\<dots> = colorSequences w1 v"
        by (rule pushLayer_contiguous) (use nl na pv(4) pv(5) in simp_all)
      finally show ?thesis using c1 by (simp add: contiguous_def)
    qed
  qed
qed

text \<open>
  C5, as the code has it. In a well-formed view whose color layers carry the
  sequence numbers \<open>0\<close> to \<open>n - 1\<close>, contiguity is kept by every \<open>addLayer\<close> with a
  parent layer, which gives a new color layer the count of the color layers of
  the view as its sequence number; by every \<open>addLayer\<close> of a root layer that is no
  color layer and has none attached; and by every \<open>removeLayer\<close> of a layer that
  has no color layer attached, which succeeds and, when the layer removed is a
  color layer, lowers by one the sequence number of every color layer above it.
  That holds of \<open>removeLayer\<close> up to the dispatch of \<open>layer-removed\<close>, and of the
  whole of it when no label listener waits for the removal of the layer.
\<close>

theorem color_sequences_preserved:
  assumes wf: "wfView w v" and c: "contiguous w v"
  shows "(addLayer v la (Some p) w = Inr (out, wa) \<longrightarrow>
            contiguous wa v
            \<and> (\<forall>l. la = Some l \<and> out = WhenReady l \<and> isColorLayer (layerHeap w l)
                  \<longrightarrow> sequence (layerHeap wa l) = int (length (getLayers w v isColorLayer))))
       \<and> (addLayer v (Some lb) None w = Inr (outb, wb)
            \<and> \<not> isColorLayer (layerHeap w lb)
            \<and> (\<forall>a \<in> set (attachedLayers (layerHeap w lb)). \<not> isColorLayer (layerHeap w a))
            \<longrightarrow> contiguous wb v)
       \<and> (lc \<in> set (getLayers w v (\<lambda>x. True))
            \<and> (\<forall>a \<in> set (attachedLayers (layerHeap w lc)). \<not> isColorLayer (layerHeap w a))
            \<longrightarrow> (\<exists>wc. removeLayerBody v (layerId (layerHeap w lc)) clearCache w = Inr wc
                     \<and> contiguous wc v
                     \<and> (isColorLayer (layerHeap w lc) \<longrightarrow>
                          (\<forall>x \<in> set (getLayers wc v isColorLayer).
                             sequence (layerHeap wc x) =
                               (if sequence (layerHeap w lc) < sequence (layerHeap w x)
                                then sequence (layerHeap w x) - 1 else sequence (layerHeap w x))))))
       \<and> (lc \<in> set (getLayers w v (\<lambda>x. True))
            \<and> (\<forall>a \<in> set (attachedLayers (layerHeap w lc)). \<not> isColorLayer (layerHeap w a))
            \<and> \<not> listenerWaits w v (layerId (layerHeap w lc))
            \<longrightarrow> (\<exists>wd. removeLayer (Suc d) v (layerId (layerHeap w lc)) clearCache w = Inr wd
                     \<and> contiguous wd v
                     \<and> (isColorLayer (layerHeap w lc) \<longrightarrow>
                          (\<forall>x \<in> set (getLayers wd v isColorLayer).
                             sequence (layerHeap wd x) =
                               (if sequence (layerHeap w lc) < sequence (layerHeap w x)
                                then sequence (layerHeap w x) - 1 else sequence (layerHeap w x))))))"
proof -
  have A: "addLayer v la (Some p) w = Inr (out, wa) \<longrightarrow>
            contiguous wa v
            \<and> (\<forall>l. la = Some l \<and> out = WhenReady l \<and> isColorLayer (layerHeap w l)
                  \<longrightarrow> sequence (layerHeap wa l) = int (length (getLayers w v isColorLayer)))"
    using addLayer_parent_contiguous [OF wf_distinct_roots [OF wf] c] by blast
  have B: "addLayer v (Some lb) None w = Inr (outb, wb)
            \<and> \<not> isColorLayer (layerHeap w lb)
            \<and> (\<forall>a \<in> set (attachedLayers (layerHeap w lb)). \<not> isColorLayer (layerHeap w a))
            \<longrightarrow> contiguous wb v"
    using addLayer_root_contiguous [OF c] by blast
  have body: "\<exists>wc. removeLayerBody v (layerId (layerHeap w lc)) clearCache w = Inr wc
                     \<and> contiguous wc v
                     \<and> (isColorLayer (layerHeap w lc) \<longrightarrow>
                          (\<forall>x \<in> set (getLayers wc v isColorLayer).
                             sequence (layerHeap wc x) =
                               (if sequence (layerHeap w lc) < sequence (layerHeap w x)
                                then sequence (layerHeap w x) - 1 else sequence (layerHeap w x))))"
    if h: "lc \<in> set (getLayers w v (\<lambda>x. True))
            \<and> (\<forall>a \<in> set (attachedLayers (layerHeap w lc)). \<not> isColorLayer (layerHeap w a))"
  proof -
    from h have l: "lc \<in> set (allLayers w v)"
      and na: "\<forall>a \<in> set (attachedLayers (layerHeap w lc)). \<not> isColorLayer (layerHeap w a)"
      by (simp_all add: allLayers_def)
    from removeLayerBody_contiguous [OF wf c l na, of clearCache] obtain wc where
      r: "removeLayerBody v (layerId (layerHeap w lc)) clearCache w = Inr wc" and c3: "contiguous wc v"
      by blast
    from removeLayerBody_ok [OF wf l, of clearCache] r have
      co: "\<And>x. core (layerHeap wc x) = core (layerHeap w x)"
      and q: "\<And>x. x \<in> set (allLayers wc v) \<Longrightarrow> sequence (layerHeap wc x) =
          (if isColorLayer (layerHeap w lc) \<and> isColorLayer (layerHeap w x)
               \<and> sequence (layerHeap w lc) < sequence (layerHeap w x)
           then sequence (layerHeap w x) - 1 else sequence (layerHeap w x))"
      by auto
    have "isColorLayer (layerHeap w lc) \<longrightarrow>
          (\<forall>x \<in> set (getLayers wc v isColorLayer).
             sequence (layerHeap wc x) =
               (if sequence (layerHeap w lc) < sequence (layerHeap w x)
                then sequence (layerHeap w x) - 1 else sequence (layerHeap w x)))"
      using q core_eqD(4) [OF co] by (simp add: getLayers_filter)
    with r c3 show ?thesis by blast
  qed
  have C: "lc \<in> set (getLayers w v (\<lambda>x. True))
            \<and> (\<forall>a \<in> set (attachedLayers (layerHeap w lc)). \<not> isColorLayer (layerHeap w a))
            \<longrightarrow> (\<exists>wc. removeLayerBody v (layerId (layerHeap w lc)) clearCache w = Inr wc
                     \<and> contiguous wc v
                     \<and> (isColorLayer (layerHeap w lc) \<longrightarrow>
                          (\<forall>x \<in> set (getLayers wc v isColorLayer).
                             sequence (layerHeap wc x) =
                               (if sequence (layerHeap w lc) < sequence (layerHeap w x)
                                then sequence (layerHeap w x) - 1 else sequence (layerHeap w x)))))"
    using body by (rule impI)
  have D: "lc \<in> set (getLayers w v (\<lambda>x. True))
            \<and> (\<forall>a \<in> set (attachedLayers (layerHeap w lc)). \<not> isColorLayer (layerHeap w a))
            \<and> \<not> listenerWaits w v (layerId (layerHeap w lc))
            \<longrightarrow> (\<exists>wd. removeLayer (Suc d) v (layerId (layerHeap w lc)) clearCache w = Inr wd
                     \<and> contiguous wd v
                     \<and> (isColorLayer (layerHeap w lc) \<longrightarrow>
                          (\<forall>x \<in> set (getLayers wd v isColorLayer).
                             sequence (layerHeap wd x) =
                               (if sequence (layerHeap w lc) < sequence (layerHeap w x)
                                then sequence (layerHeap w x) - 1 else sequence (layerHeap w x)))))"
  proof
    assume h: "lc \<in> set (getLayers w v (\<lambda>x. True))
            \<and> (\<forall>a \<in> set (attachedLayers (layerHeap w lc)). \<not> isColorLayer (layerHeap w a))
            \<and> \<not> listenerWaits w v (layerId (layerHeap w lc))"
    then have "lc \<in> set (getLayers w v (\<lambda>x. True))
            \<and> (\<forall>a \<in> set (attachedLayers (layerHeap w lc)). \<not> isColorLayer (layerHeap w a))"
      by simp
    from body [OF this] obtain wc where
      r: "removeLayerBody v (layerId (layerHeap w lc)) clearCache w = Inr wc"
      and c3: "contiguous wc v"
      and q: "isColorLayer (layerHeap w lc) \<longrightarrow>
                          (\<forall>x \<in> set (getLayers wc v isColorLayer).
                             sequence (layerHeap wc x) =
                               (if sequence (layerHeap w lc) < sequence (layerHeap w x)
                                then sequence (layerHeap w x) - 1 else sequence (layerHeap w x)))"
      by blast
    let ?wd = "setListeners v [] wc"
    from h have "\<not> listenerWaits w v (layerId (layerHeap w lc))" by simp
    with r have rd: "removeLayer (Suc d) v (layerId (layerHeap w lc)) clearCache w = Inr ?wd"
      by (rule removeLayer_idle)
    have "contiguous ?wd v = contiguous wc v" by (rule contiguous_cong) simp_all
    with c3 have cd: "contiguous ?wd v" by simp
    have g: "getLayers ?wd v isColorLayer = getLayers wc v isColorLayer"
      by (rule getLayers_cong) simp_all
    have qd: "isColorLayer (layerHeap w lc) \<longrightarrow>
                          (\<forall>x \<in> set (getLayers ?wd v isColorLayer).
                             sequence (layerHeap ?wd x) =
                               (if sequence (layerHeap w lc) < sequence (layerHeap w x)
                                then sequence (layerHeap w x) - 1 else sequence (layerHeap w x)))"
      unfolding g using q by simp
    show "\<exists>wd. removeLayer (Suc d) v (layerId (layerHeap w lc)) clearCache w = Inr wd
                     \<and> contiguous wd v
                     \<and> (isColorLayer (layerHeap w lc) \<longrightarrow>
                          (\<forall>x \<in> set (getLayers wd v isColorLayer).
                             sequence (layerHeap wd x) =
                               (if sequence (layerHeap w lc) < sequence (layerHeap w x)
                                then sequence (layerHeap w x) - 1 else sequence (layerHeap w x))))"
      by (rule exI [of _ ?wd]) (rule conjI [OF rd conjI [OF cd qd]])
  qed
  show ?thesis by (rule conjI [OF A conjI [OF B conjI [OF C D]]])
qed

lemma twoRootsWorld_wf: "wfView twoRootsWorld 0"
  by (simp add: wfView_def allLayers_concat twoRootsWorld_def example_defs)

lemma twoRootsWorld_contiguous: "contiguous twoRootsWorld 0"
  by (simp add: contiguous_def colorSequences_def getLayers_def twoRootsWorld_def example_defs)

lemma range2: "{0..<2::int} = {0, 1}"
  by auto

lemma range1: "{0..<1::int} = {0}"
  by auto

lemma exampleWorld_contiguous: "contiguous exampleWorld 0"
  by (simp add: contiguous_def colorSequences_def getLayers_def example_defs range2)

theorem color_sequences_preserved_witness:
  "wfView twoRootsWorld 0 \<and> contiguous twoRootsWorld 0
   \<and> (\<exists>wa. addLayer 0 (Some 7) (Some 1) twoRootsWorld = Inr (WhenReady 7, wa)
          \<and> contiguous wa 0 \<and> sequence (layerHeap wa 7) = 0)
   \<and> (case addLayer 0 (Some 7) (Some 1) twoRootsWorld of
         Inl e \<Rightarrow> False
       | Inr (out, wa) \<Rightarrow> colorSequences wa 0 = [0])
   \<and> wfView exampleWorld 0 \<and> contiguous exampleWorld 0 \<and> colorSequences exampleWorld 0 = [0, 1]
   \<and> \<not> listenerWaits exampleWorld 0 ''ortho''
   \<and> (\<exists>wc. removeLayerBody 0 ''ortho'' False exampleWorld = Inr wc \<and> contiguous wc 0)
   \<and> (\<exists>wd. removeLayer (Suc 0) 0 ''ortho'' False exampleWorld = Inr wd \<and> contiguous wd 0)
   \<and> (case removeLayer (Suc 0) 0 ''ortho'' False exampleWorld of
         Inl e \<Rightarrow> False
       | Inr wd \<Rightarrow> colorSequences wd 0 = [0])"
proof -
  have e1: "\<exists>wa. addLayer 0 (Some 7) (Some 1) twoRootsWorld = Inr (WhenReady 7, wa)"
    by (simp add: twoRootsWorld_def example_defs addLayer_defs getLayerById_def getLayers_def
        setLayer_def emit_def)
  then obtain wa where a: "addLayer 0 (Some 7) (Some 1) twoRootsWorld = Inr (WhenReady 7, wa)" ..
  have col: "isColorLayer (layerHeap twoRootsWorld 7)"
    and n: "int (length (getLayers twoRootsWorld 0 isColorLayer)) = 0"
    by (simp_all add: twoRootsWorld_def example_defs getLayers_def)
  from color_sequences_preserved [OF twoRootsWorld_wf twoRootsWorld_contiguous,
      where la = "Some 7" and p = 1 and out = "WhenReady 7" and wa = wa, THEN conjunct1] a col n
  have "contiguous wa 0 \<and> sequence (layerHeap wa 7) = 0" by simp
  with a have f3: "\<exists>wa. addLayer 0 (Some 7) (Some 1) twoRootsWorld = Inr (WhenReady 7, wa)
          \<and> contiguous wa 0 \<and> sequence (layerHeap wa 7) = 0" by blast
  have f4: "case addLayer 0 (Some 7) (Some 1) twoRootsWorld of
         Inl e \<Rightarrow> False
       | Inr (out, wa) \<Rightarrow> colorSequences wa 0 = [0]"
    by (simp add: twoRootsWorld_def example_defs addLayer_defs getLayerById_def getLayers_def
        setLayer_def emit_def colorSequences_def)
  have f7: "colorSequences exampleWorld 0 = [0, 1]"
    by (simp add: colorSequences_def getLayers_def example_defs)
  have mem: "2 \<in> set (getLayers exampleWorld 0 (\<lambda>x. True))"
    using exampleWorld_all0 by (simp add: allLayers_def)
  have na: "\<forall>a \<in> set (attachedLayers (layerHeap exampleWorld 2)).
              \<not> isColorLayer (layerHeap exampleWorld a)"
    by (simp add: example_defs)
  have id: "layerId (layerHeap exampleWorld 2) = ''ortho''" by (simp add: example_defs)
  have nw: "\<not> listenerWaits exampleWorld 0 ''ortho''"
    by (simp add: listenerWaits_def example_defs)
  from color_sequences_preserved [OF exampleWorld_wf0 exampleWorld_contiguous,
      where lc = 2 and clearCache = False, THEN conjunct2, THEN conjunct2, THEN conjunct1] mem na
  have "\<exists>wc. removeLayerBody 0 (layerId (layerHeap exampleWorld 2)) False exampleWorld = Inr wc
          \<and> contiguous wc 0" by blast
  then have f8: "\<exists>wc. removeLayerBody 0 ''ortho'' False exampleWorld = Inr wc \<and> contiguous wc 0"
    by (simp only: id)
  have nw2: "\<not> listenerWaits exampleWorld 0 (layerId (layerHeap exampleWorld 2))"
    unfolding id by (rule nw)
  from color_sequences_preserved [OF exampleWorld_wf0 exampleWorld_contiguous,
      where lc = 2 and clearCache = False and d = 0,
      THEN conjunct2, THEN conjunct2, THEN conjunct2] mem na nw2
  have "\<exists>wd. removeLayer (Suc 0) 0 (layerId (layerHeap exampleWorld 2)) False exampleWorld = Inr wd
          \<and> contiguous wd 0" by blast
  then have f9: "\<exists>wd. removeLayer (Suc 0) 0 ''ortho'' False exampleWorld = Inr wd \<and> contiguous wd 0"
    by (simp only: id)
  have f10: "case removeLayer (Suc 0) 0 ''ortho'' False exampleWorld of
         Inl e \<Rightarrow> False
       | Inr wd \<Rightarrow> colorSequences wd 0 = [0]"
    by (simp add: example_defs removeLayer_defs colorSequences_def)
  show ?thesis
    by (intro conjI twoRootsWorld_wf twoRootsWorld_contiguous f3 f4 exampleWorld_wf0
        exampleWorld_contiguous f7 nw f8 f9 f10)
qed

text \<open>
  C5 as stated fails: \<open>removeLayer\<close> renumbers only when the layer removed is itself
  a color layer. Three color layers are added to a view with two root layers, two
  under \<open>globe\<close> and one under \<open>planar\<close>; the view is well formed and the sequence
  numbers are \<open>0, 1, 2\<close>. Removing \<open>globe\<close> takes its two color layers with it and
  leaves the third with the sequence number \<open>2\<close>.
\<close>

theorem color_sequences_counterexample:
  "(case runOperations (Suc 0) 0 [AddLayer 7 (Some 1), AddLayer 8 (Some 1), AddLayer 9 (Some 6)]
           twoRootsWorld of
      Inl e \<Rightarrow> False
    | Inr w \<Rightarrow>
        wfView w 0 \<and> getLayers w 0 (\<lambda>x. True) = [1, 7, 8, 6, 9]
        \<and> colorSequences w 0 = [0, 1, 2] \<and> contiguous w 0
        \<and> (case removeLayer (Suc 0) 0 ''globe'' False w of
              Inl e \<Rightarrow> False
            | Inr w' \<Rightarrow> getLayers w' 0 (\<lambda>x. True) = [6, 9]
                \<and> colorSequences w' 0 = [2] \<and> \<not> contiguous w' 0))"
  by (simp add: twoRootsWorld_def example_defs removeLayer_defs addLayer_defs allLayers_def
      wfView_def contiguous_def colorSequences_def range3 not_range1)

subsection \<open>Adding a layer with an id in use\<close>

lemma getLayers_reject [simp]: "getLayers (reject l e w) v f = getLayers w v f"
  if "\<And>x p. f (x\<lparr>whenReady := p\<rparr>) = f x"
proof -
  have "\<And>x. f (layerHeap (reject l e w) x) = f (layerHeap w x)"
    using that by (simp add: reject_def setLayer_def)
  moreover have "allLayers (reject l e w) v = allLayers w v"
    by (rule allLayers_cong) (simp_all add: reject_def setLayer_def)
  ultimately show ?thesis by (simp add: getLayers_filter)
qed

text \<open>
  What \<open>addLayer\<close> does with a layer \<open>L2\<close> whose id \<open>getLayerById\<close> finds in the
  view: it rejects the readiness promise of \<open>L2\<close> and returns what \<open>_reject\<close>
  returns, which is \<open>undefined\<close>. Nothing is thrown and the view is as before:
  its record, the layers \<open>getLayers()\<close> returns and the layer \<open>getLayerById(X)\<close>
  returns are unchanged, and no layer is written apart from the readiness promise
  of \<open>L2\<close>.
\<close>

lemma addLayer_duplicate:
  assumes "getLayerById w v X = Some l1" and "isLayer (layerHeap w l2)"
    and "layerId (layerHeap w l2) = X"
  shows "\<exists>e w'. addLayer v (Some l2) parentLayer w = Inr (Undefined, w')
       \<and> whenReady (layerHeap w' l2)
           = (if whenReady (layerHeap w l2) = Pending then Rejected e else whenReady (layerHeap w l2))
       \<and> viewHeap w' = viewHeap w
       \<and> getLayers w' v (\<lambda>x. True) = getLayers w v (\<lambda>x. True)
       \<and> getLayerById w' v X = Some l1
       \<and> (\<forall>x. (layerHeap w' x)\<lparr>whenReady := Pending\<rparr> = (layerHeap w x)\<lparr>whenReady := Pending\<rparr>)"
proof -
  have "\<exists>e. addLayer v (Some l2) parentLayer w = Inr (Undefined, reject l2 e w)"
    using assms by (simp add: addLayer_def Let_def) (rule exI, rule refl)
  then obtain e where a: "addLayer v (Some l2) parentLayer w = Inr (Undefined, reject l2 e w)" ..
  have r: "whenReady (layerHeap (reject l2 e w) l2)
           = (if whenReady (layerHeap w l2) = Pending then Rejected e else whenReady (layerHeap w l2))"
    by (simp add: reject_def setLayer_def)
  have b: "viewHeap (reject l2 e w) = viewHeap w" by (simp add: reject_frame)
  have c: "getLayers (reject l2 e w) v (\<lambda>x. True) = getLayers w v (\<lambda>x. True)" by simp
  have d: "getLayerById (reject l2 e w) v X = Some l1"
    using assms(1) by (simp add: getLayerById_def)
  have f: "\<forall>x. (layerHeap (reject l2 e w) x)\<lparr>whenReady := Pending\<rparr> = (layerHeap w x)\<lparr>whenReady := Pending\<rparr>"
    by (simp add: reject_def setLayer_def)
  from a r b c d f show ?thesis by blast
qed

text \<open>
  C2, at an id in use. The view 0 of the example has the layer \<open>ortho\<close>. \<open>addLayer\<close>
  of the other layer called \<open>ortho\<close> throws nothing and leaves the view as it
  was, with \<open>getLayerById\<close> still returning the first layer; it rejects the
  readiness promise of the layer it was given, and what it returns is not a
  promise but \<open>undefined\<close>.
\<close>

theorem addLayer_duplicate_undefined:
  "getLayerById exampleWorld 0 ''ortho'' = Some 2 \<and> isLayer (layerHeap exampleWorld 5)
   \<and> layerId (layerHeap exampleWorld 5) = ''ortho''
   \<and> (\<exists>e w'. addLayer 0 (Some 5) (Some 1) exampleWorld = Inr (Undefined, w')
         \<and> whenReady (layerHeap w' 5) = Rejected e
         \<and> viewHeap w' = viewHeap exampleWorld
         \<and> getLayers w' 0 (\<lambda>x. True) = [1, 2, 3]
         \<and> getLayerById w' 0 ''ortho'' = Some 2)"
proof -
  have a: "getLayerById exampleWorld 0 ''ortho'' = Some 2"
    by (simp add: getLayerById_def getLayers_def example_defs)
  have b: "isLayer (layerHeap exampleWorld 5)" and c: "layerId (layerHeap exampleWorld 5) = ''ortho''"
    and p: "whenReady (layerHeap exampleWorld 5) = Pending"
    by (simp_all add: example_defs)
  have d: "getLayers exampleWorld 0 (\<lambda>x. True) = [1, 2, 3]"
    using exampleWorld_all0 by (simp add: allLayers_def)
  from addLayer_duplicate [OF a b c, of "Some 1"] d p
  have "\<exists>e w'. addLayer 0 (Some 5) (Some 1) exampleWorld = Inr (Undefined, w')
         \<and> whenReady (layerHeap w' 5) = Rejected e
         \<and> viewHeap w' = viewHeap exampleWorld
         \<and> getLayers w' 0 (\<lambda>x. True) = [1, 2, 3]
         \<and> getLayerById w' 0 ''ortho'' = Some 2"
    by (simp only: simp_thms if_True) blast
  with a b c show ?thesis by (intro conjI)
qed

subsection \<open>Disposal\<close>

lemma indexOf_none: "x \<notin> set xs \<Longrightarrow> indexOf xs x = - 1"
  unfolding indexOf_def by (rule findIndex_none) auto

lemma indexOf_some: "x \<in> set xs \<Longrightarrow> 0 \<le> indexOf xs x"
  unfolding indexOf_def using findIndex_some [of xs "\<lambda>y. y = x"] by auto

lemma splice_indexOf: "x \<in> set xs \<Longrightarrow> splice1 (indexOf xs x) xs = remove1 x xs"
  unfolding indexOf_def by (rule splice_findIndex) auto

lemma removeLayers_viewers:
  "removeLayers d v ls c w = Inr w' \<Longrightarrow> viewers w' = viewers w"
proof (induction ls arbitrary: w)
  case Nil
  then show ?case by simp
next
  case (Cons l ls)
  from Cons.prems obtain w1 where
    r: "removeLayer d v (layerId (layerHeap w l)) c w = Inr w1"
    and rest: "removeLayers d v ls c w1 = Inr w'"
    by (auto split: sum.splits)
  from Cons.IH [OF rest] removeLayer_frame(1) [OF r] show ?case by simp
qed

lemma dispose_viewers:
  assumes d: "distinct (viewers w)" and a: "dispose k v c w = Inr w1"
  shows "v \<notin> set (viewers w1)"
proof (cases "v \<in> set (viewers w)")
  case False
  then have "indexOf (viewers w) v = - 1" by (rule indexOf_none)
  with a have "w1 = emit v [ConsoleWarn ''View already disposed''] w"
    by (simp add: dispose_def)
  with False show ?thesis by simp
next
  case True
  from indexOf_some [OF True] have i: "indexOf (viewers w) v \<noteq> - 1" by simp
  let ?w2 = "setView v (disposeControls (viewHeap (emit v [RemoveResizeListener] w) v))
               (emit v [RemoveResizeListener] w)"
  from a i obtain V w4 w5 w6 where
    "removeLayers k v (getLayers (setView v V ?w2) v (\<lambda>l. \<not> isTiledGeometryLayer l \<and> \<not> isAtmosphere l))
        c (setView v V ?w2) = Inr w4"
    "removeLayers k v (getLayers w4 v isAtmosphere) c w4 = Inr w5"
    "removeLayers k v (getLayers w5 v isTiledGeometryLayer) c w5 = Inr w6"
    "w1 = finishDispose v (indexOf (viewers w) v) w6"
    by (auto simp: dispose_def Let_def split: sum.splits)
  then have "viewers w6 = viewers w" and w1: "w1 = finishDispose v (indexOf (viewers w) v) w6"
    by (auto dest!: removeLayers_viewers simp: setView_def)
  then have "viewers w1 = remove1 v (viewers w)"
    using splice_indexOf [OF True] by (simp add: finishDispose_def Let_def setView_def)
  with d show ?thesis by simp
qed

text \<open>
  C9. After a \<open>dispose\<close> that returned, the view is not in the registry of views
  (whose entries are pairwise different), and a second \<open>dispose\<close> only logs a
  warning: no layer is removed, the registry is not touched, and the trace of
  the view grows by the warning alone, without a second \<open>disposed\<close> event.
\<close>

theorem dispose_twice:
  assumes "distinct (viewers w)" and "dispose d v clearCache w = Inr w1"
  shows "v \<notin> set (viewers w1)
       \<and> dispose d' v clearCache' w1 = Inr (emit v [ConsoleWarn ''View already disposed''] w1)
       \<and> layerHeap (emit v [ConsoleWarn ''View already disposed''] w1) = layerHeap w1
       \<and> viewers (emit v [ConsoleWarn ''View already disposed''] w1) = viewers w1
       \<and> (\<forall>u. layers (viewHeap (emit v [ConsoleWarn ''View already disposed''] w1) u)
                = layers (viewHeap w1 u))
       \<and> trace (viewHeap (emit v [ConsoleWarn ''View already disposed''] w1) v)
           = trace (viewHeap w1 v) @ [ConsoleWarn ''View already disposed'']"
proof -
  have n: "v \<notin> set (viewers w1)" using assms by (rule dispose_viewers)
  then have "indexOf (viewers w1) v = - 1" by (rule indexOf_none)
  then have "dispose d' v clearCache' w1 = Inr (emit v [ConsoleWarn ''View already disposed''] w1)"
    by (simp add: dispose_def)
  with n show ?thesis by simp
qed


lemmas dispose_defs = dispose_def indexOf_def disposeControls_def removeAllFrameRequesters_def
  executeFrameRequestersRemovals_def setView_def finishDispose_def removeAllEvents_def

theorem dispose_twice_witness:
  "distinct (viewers exampleWorld)
   \<and> (\<exists>w1. dispose (Suc 0) 0 False exampleWorld = Inr w1 \<and> 0 \<notin> set (viewers w1)
          \<and> dispose (Suc 0) 0 False w1 = Inr (emit 0 [ConsoleWarn ''View already disposed''] w1))
   \<and> (case dispose (Suc 0) 0 False exampleWorld of
         Inl e \<Rightarrow> False
       | Inr w1 \<Rightarrow> viewers w1 = [1] \<and> getLayers w1 0 (\<lambda>x. True) = []
           \<and> filter (\<lambda>e. e = DispatchEvent ''disposed'' None) (trace (viewHeap w1 0))
               = [DispatchEvent ''disposed'' None])"
proof -
  have d: "distinct (viewers exampleWorld)" by (simp add: exampleWorld_def)
  have e: "case dispose (Suc 0) 0 False exampleWorld of
         Inl e \<Rightarrow> False
       | Inr w1 \<Rightarrow> viewers w1 = [1] \<and> getLayers w1 0 (\<lambda>x. True) = []
           \<and> filter (\<lambda>e. e = DispatchEvent ''disposed'' None) (trace (viewHeap w1 0))
               = [DispatchEvent ''disposed'' None]"
    by (simp add: dispose_defs example_defs removeLayer_defs)
  then obtain w1 where w1: "dispose (Suc 0) 0 False exampleWorld = Inr w1"
    by (cases "dispose (Suc 0) 0 False exampleWorld") auto
  from dispose_twice [OF d w1, of "Suc 0" False] w1
  have "\<exists>w1. dispose (Suc 0) 0 False exampleWorld = Inr w1 \<and> 0 \<notin> set (viewers w1)
          \<and> dispose (Suc 0) 0 False w1 = Inr (emit 0 [ConsoleWarn ''View already disposed''] w1)"
    by blast
  with d e show ?thesis by (intro conjI)
qed

end
